theory Spec2Isabelle
  imports Main "HOL-Library.Sublist" "HOL-Library.AList"
begin

section \<open>Python strings\<close>

text \<open>
  Python text is modelled as \<^typ>\<open>string\<close>. The substring test \<open>p in s\<close> is
  \<^const>\<open>sublist\<close> of the library (contiguous sublists). The character classes below
  are the ASCII ones: \<open>\d\<close> of the \<open>re\<close> module and \<open>str.upper\<close> also know the digits and
  letters of other scripts, which a byte string does not have.
\<close>

definition is_digit :: "char \<Rightarrow> bool" where
  "is_digit c = (c \<in> set ''0123456789'')"

definition digit_char :: "nat \<Rightarrow> char" where
  "digit_char d = ''0123456789'' ! d"

text \<open>\<open>str(n)\<close> for a non-negative integer.\<close>

fun dec :: "nat \<Rightarrow> string" where
  "dec n = (if n < 10 then [digit_char n] else dec (n div 10) @ [digit_char (n mod 10)])"

declare dec.simps [simp del]

text \<open>\<open>s.replace(old, new)\<close>: the occurrences of \<open>old\<close> are replaced from left to
  right, without overlap; an empty \<open>old\<close> matches before every character and at the end.\<close>

function replace :: "string \<Rightarrow> string \<Rightarrow> string \<Rightarrow> string" where
  "replace old new [] = (if old = [] then new else [])"
| "replace old new (c # s) =
     (if old = [] then new @ concat (map (\<lambda>x. x # new) (c # s))
      else if prefix old (c # s) then new @ replace old new (drop (length old) (c # s))
      else c # replace old new s)"
  by pat_completeness auto
termination
  by (relation "measure (\<lambda>(old, new, s). length s)") auto

text \<open>\<open>s.split(sep)\<close> for a separator of one character: every occurrence cuts, so
  empty pieces are kept and the result is never empty.\<close>

fun split :: "char \<Rightarrow> string \<Rightarrow> string list" where
  "split sep [] = [[]]"
| "split sep (c # s) =
     (if c = sep then [] # split sep s
      else (case split sep s of p # ps \<Rightarrow> (c # p) # ps | [] \<Rightarrow> [[c]]))"

definition upper_char :: "char \<Rightarrow> char" where
  "upper_char c =
     (case map_of (zip ''abcdefghijklmnopqrstuvwxyz'' ''ABCDEFGHIJKLMNOPQRSTUVWXYZ'') c of
        Some u \<Rightarrow> u
      | None \<Rightarrow> c)"

text \<open>\<open>s.upper()\<close>.\<close>

definition upper :: "string \<Rightarrow> string" where
  "upper s = map upper_char s"

subsection \<open>The pattern \<open>/ch/(\d+)_\<close>\<close>

text \<open>
  \<open>re.search(r'/ch/(\d+)_', s)\<close> returns the leftmost match. At one position the
  pattern matches when \<open>/ch/\<close> is followed by a non-empty run of digits and an underscore;
  \<open>\d+\<close> is greedy, and giving digits back cannot help, since the character after a
  shorter run is a digit and not the underscore. \<open>match_ch\<close> is the match at the start of
  the text, with group 1 as its value.
\<close>

definition match_ch :: "string \<Rightarrow> string option" where
  "match_ch s =
     (if prefix ''/ch/'' s
      then (let r = drop 4 s; ds = takeWhile is_digit r; rest = dropWhile is_digit r
            in if ds \<noteq> [] \<and> prefix ''_'' rest then Some ds else None)
      else None)"

fun re_search_ch :: "string \<Rightarrow> string option" where
  "re_search_ch [] = None"
| "re_search_ch (c # s) =
     (case match_ch (c # s) of Some ds \<Rightarrow> Some ds | None \<Rightarrow> re_search_ch s)"

section \<open>Decoded JSON and the operations of Python on it\<close>

text \<open>
  What \<open>json.loads\<close> returns: \<open>None\<close>, a bool, a number, a string, a list or a dict.
  A dict is the list of its items in insertion order, with distinct keys. Numbers are the
  integers; floats are left out of the model.
\<close>

datatype json =
    JNull
  | JBool bool
  | JNum int
  | JStr string
  | JArr "json list"
  | JObj "(string \<times> json) list"

datatype exn =
    KeyError
  | TypeError
  | IndexError
  | AttributeError
  | ValueError
  | JSONDecodeError
  | RequestException
  | ClientError
  | TimeoutError
  | OSError
  | KeyboardInterrupt

text \<open>\<open>except Exception\<close> takes every exception of the model but \<open>KeyboardInterrupt\<close>.\<close>

definition is_Exception :: "exn \<Rightarrow> bool" where
  "is_Exception e = (e \<noteq> KeyboardInterrupt)"

text \<open>The truth value of \<open>if v:\<close>.\<close>

fun truthy :: "json \<Rightarrow> bool" where
  "truthy JNull = False"
| "truthy (JBool b) = b"
| "truthy (JNum n) = (n \<noteq> 0)"
| "truthy (JStr s) = (s \<noteq> [])"
| "truthy (JArr xs) = (xs \<noteq> [])"
| "truthy (JObj kvs) = (kvs \<noteq> [])"

text \<open>\<open>v[k]\<close> for a string key \<open>k\<close>: only a dict can be subscripted by a string.\<close>

fun getitem :: "json \<Rightarrow> string \<Rightarrow> exn + json" where
  "getitem (JObj kvs) k = (case map_of kvs k of Some v \<Rightarrow> Inr v | None \<Rightarrow> Inl KeyError)"
| "getitem v k = Inl TypeError"

text \<open>\<open>v[0]\<close>: the first element of a list, the first character of a string; a dict
  decoded from JSON has no key \<open>0\<close>.\<close>

fun getitem0 :: "json \<Rightarrow> exn + json" where
  "getitem0 (JArr xs) = (case xs of [] \<Rightarrow> Inl IndexError | x # _ \<Rightarrow> Inr x)"
| "getitem0 (JStr s) = (case s of [] \<Rightarrow> Inl IndexError | c # _ \<Rightarrow> Inr (JStr [c]))"
| "getitem0 (JObj kvs) = Inl KeyError"
| "getitem0 v = Inl TypeError"

text \<open>\<open>v.get(k, default)\<close>: a method of dicts only.\<close>

fun dict_get :: "json \<Rightarrow> string \<Rightarrow> json \<Rightarrow> exn + json" where
  "dict_get (JObj kvs) k d = (case map_of kvs k of Some v \<Rightarrow> Inr v | None \<Rightarrow> Inr d)"
| "dict_get v k d = Inl AttributeError"

text \<open>\<open>for x in v\<close>: the elements of a list, the keys of a dict, the characters of a
  string.\<close>

fun iterate :: "json \<Rightarrow> exn + json list" where
  "iterate (JArr xs) = Inr xs"
| "iterate (JObj kvs) = Inr (map (\<lambda>kv. JStr (fst kv)) kvs)"
| "iterate (JStr s) = Inr (map (\<lambda>c. JStr [c]) s)"
| "iterate v = Inl TypeError"

text \<open>Sequencing of computations that may raise.\<close>

definition bind_exn :: "exn + 'a \<Rightarrow> ('a \<Rightarrow> exn + 'b) \<Rightarrow> exn + 'b" where
  "bind_exn m f = (case m of Inl e \<Rightarrow> Inl e | Inr x \<Rightarrow> f x)"

section \<open>The portal and the effects of the program\<close>

text \<open>
  A request is the URL and the headers the code passes to \<open>session.get\<close>. The portal
  answers a request either by an exception raised inside \<open>session.get\<close> or by a response
  with its status code, its content type and its body; the body either decodes as JSON
  or does not. The portal answers equal requests equally.

  Three library functions are parameters of the model: \<open>py_repr\<close> is the text
  \<open>str(v)\<close> of a decoded value that is not a string (an f-string formats a string as
  itself); \<open>py_int\<close> is \<open>int(s)\<close>, with \<open>None\<close> where it raises \<open>ValueError\<close>; and
  \<open>b64_json series_id season_num\<close> is the base64 text of the JSON dump of the dict
  \<open>{"series_id": ..., "season_num": ..., "type": "series"}\<close>.
\<close>

record request =
  url :: string
  headers :: "(string \<times> string) list"

datatype body = NotJson | Json json

datatype reply = Raises exn | Reply int string body

record world =
  portal :: "request \<Rightarrow> reply"
  py_repr :: "json \<Rightarrow> string"
  py_int :: "string \<Rightarrow> int option"
  b64_json :: "string \<Rightarrow> int \<Rightarrow> string"

definition fmt :: "world \<Rightarrow> json \<Rightarrow> string" where
  "fmt W v = (case v of JStr s \<Rightarrow> s | _ \<Rightarrow> py_repr W v)"

text \<open>
  The effects of a function are the requests it sends and the texts it writes to the
  playlist file, in order; \<open>Start\<close> marks an invocation of \<open>main\<close>. The result of a
  function is a value or the exception that leaves it.
\<close>

datatype event = Start | Get request | Write string

type_synonym 'a io = "event list \<times> (exn + 'a)"

definition auth :: "world \<Rightarrow> json \<Rightarrow> (string \<times> string) list" where
  "auth W token = [(''Authorization'', ''Bearer '' @ fmt W token)]"

text \<open>Sequencing of effects, a computation without effects, and
  \<open>try: m except E: return d\<close> for the exceptions \<open>E\<close> picked by \<open>handles\<close>.\<close>

definition io_bind :: "'a io \<Rightarrow> ('a \<Rightarrow> 'b io) \<Rightarrow> 'b io" where
  "io_bind m f =
     (case m of
        (t, Inl e) \<Rightarrow> (t, Inl e)
      | (t, Inr x) \<Rightarrow> (case f x of (t', r) \<Rightarrow> (t @ t', r)))"

definition lift :: "exn + 'a \<Rightarrow> 'a io" where
  "lift r = ([], r)"

definition catch :: "'a io \<Rightarrow> (exn \<Rightarrow> bool) \<Rightarrow> 'a \<Rightarrow> 'a io" where
  "catch m handles d =
     (case m of
        (t, Inl e) \<Rightarrow> if handles e then (t, Inr d) else (t, Inl e)
      | (t, Inr x) \<Rightarrow> (t, Inr x))"

text \<open>\<open>session.get(url, headers=...)\<close>, and \<open>json.loads\<close> of the body.\<close>

definition session_get :: "world \<Rightarrow> request \<Rightarrow> (int \<times> string \<times> body) io" where
  "session_get W rq =
     ([Get rq], case portal W rq of Raises e \<Rightarrow> Inl e | Reply st ct b \<Rightarrow> Inr (st, ct, b))"

definition loads :: "body \<Rightarrow> exn + json" where
  "loads b = (case b of NotJson \<Rightarrow> Inl JSONDecodeError | Json v \<Rightarrow> Inr v)"

definition file_write :: "string \<Rightarrow> unit io" where
  "file_write s = ([Write s], Inr ())"

section \<open>The programs' common functions\<close>

text \<open>
  What \<open>urlparse\<close> gives for the link the user types: the attributes the code reads
  (\<open>hostname\<close>, which is \<open>None\<close> when the link has no host, and \<open>port\<close>, which is \<open>None\<close>
  when the link names no port and raises \<open>ValueError\<close> when the port is not a number up
  to 65535) and the parts it never reads.
\<close>

record parse_result =
  scheme :: string
  hostname :: "string option"
  port :: "exn + nat option"
  path :: string
  query :: string

text \<open>\<open>get_base_url\<close> of \<open>maclist.py\<close>: a missing host is formatted as \<open>None\<close>.\<close>

definition maclist_get_base_url :: "parse_result \<Rightarrow> exn + string" where
  "maclist_get_base_url p =
     (let host = (case hostname p of None \<Rightarrow> ''None'' | Some h \<Rightarrow> h)
      in bind_exn (port p) (\<lambda>po.
           let port = (case po of None \<Rightarrow> 80 | Some n \<Rightarrow> n)
           in Inr (''http://'' @ host @ '':'' @ dec port)))"

text \<open>\<open>get_base_url\<close> of \<open>macvod.py\<close> and \<open>macshow.py\<close>: \<open>hostname or ""\<close> and
  \<open>port or 80\<close>, so the port 0 is replaced as a missing one is.\<close>

definition get_base_url :: "parse_result \<Rightarrow> exn + string" where
  "get_base_url p =
     (let host = (case hostname p of None \<Rightarrow> [] | Some h \<Rightarrow> h)
      in bind_exn (port p) (\<lambda>po.
           let port = (case po of None \<Rightarrow> 80 | Some n \<Rightarrow> if n = 0 then 80 else n)
           in Inr (''http://'' @ host @ '':'' @ dec port)))"

definition get_mac_address :: "string \<Rightarrow> string" where
  "get_mac_address typed = upper typed"

text \<open>\<open>get_token\<close> and \<open>get_subscription\<close> of \<open>maclist.py\<close> and \<open>macvod.py\<close>.\<close>

definition get_token :: "world \<Rightarrow> string \<Rightarrow> json io" where
  "get_token W base_url =
     (let rq = \<lparr>url = base_url @ ''/portal.php?action=handshake&type=stb&token=&JsHttpRequest=1-xml'',
                 headers = []\<rparr>
      in catch
           (io_bind (session_get W rq) (\<lambda>(st, ct, b).
              lift (bind_exn (loads b) (\<lambda>data.
                    bind_exn (getitem data ''js'') (\<lambda>js. getitem js ''token'')))))
           (\<lambda>e. e = RequestException \<or> e = JSONDecodeError) JNull)"

definition get_subscription :: "world \<Rightarrow> string \<Rightarrow> json \<Rightarrow> bool io" where
  "get_subscription W base_url token =
     (let rq = \<lparr>url = base_url @ ''/portal.php?type=account_info&action=get_main_info&JsHttpRequest=1-xml'',
                 headers = auth W token\<rparr>
      in catch
           (io_bind (session_get W rq) (\<lambda>(st, ct, b).
              if st = 200
              then lift (bind_exn (loads b) (\<lambda>data.
                         bind_exn (getitem data ''js'') (\<lambda>js.
                         bind_exn (getitem js ''mac'') (\<lambda>mac.
                         bind_exn (getitem data ''js'') (\<lambda>js'.
                         bind_exn (getitem js' ''phone'') (\<lambda>expiry. Inr True))))))
              else lift (Inr False)))
           (\<lambda>e. e = RequestException) False)"

section \<open>\<open>maclist.py\<close>: live channels\<close>

text \<open>
  The keys of a Python dict: lists and dicts cannot be keys, and \<open>True\<close> and \<open>1\<close> (as
  \<open>False\<close> and \<open>0\<close>) are the same key.
\<close>

fun hashable :: "json \<Rightarrow> bool" where
  "hashable (JArr xs) = False"
| "hashable (JObj kvs) = False"
| "hashable v = True"

fun py_key :: "json \<Rightarrow> json" where
  "py_key (JBool b) = JNum (if b then 1 else 0)"
| "py_key v = v"

text \<open>\<open>{group['id']: group['title'] for group in id_genre}\<close>.\<close>

fun group_dict :: "json list \<Rightarrow> (json \<times> json) list \<Rightarrow> exn + (json \<times> json) list" where
  "group_dict [] d = Inr d"
| "group_dict (g # gs) d =
     (case getitem g ''id'' of
        Inl e \<Rightarrow> Inl e
      | Inr k \<Rightarrow>
          (case getitem g ''title'' of
             Inl e \<Rightarrow> Inl e
           | Inr v \<Rightarrow>
               if hashable k then group_dict gs (AList.update (py_key k) v d)
               else Inl TypeError))"

text \<open>\<open>group_info.get(group_id, "General")\<close>.\<close>

definition group_get :: "(json \<times> json) list \<Rightarrow> json \<Rightarrow> exn + json" where
  "group_get group_info group_id =
     (if hashable group_id
      then Inr (case map_of group_info (py_key group_id) of
                  Some t \<Rightarrow> t | None \<Rightarrow> JStr ''General'')
      else Inl TypeError)"

definition get_channel_list ::
  "world \<Rightarrow> string \<Rightarrow> (string \<times> string) list \<Rightarrow> (json \<times> (json \<times> json) list) option io" where
  "get_channel_list W base_url hdrs =
     (let url_genre = base_url @ ''/server/load.php?type=itv&action=get_genres&JsHttpRequest=1-xml'';
          url3 = base_url @ ''/portal.php?type=itv&action=get_all_channels&JsHttpRequest=1-xml''
      in catch
           (io_bind (session_get W \<lparr>url = url_genre, headers = hdrs\<rparr>) (\<lambda>(st, ct, b).
              if st = 200
              then io_bind (lift (bind_exn (loads b) (\<lambda>data.
                                  bind_exn (getitem data ''js'') (\<lambda>id_genre.
                                  bind_exn (iterate id_genre) (\<lambda>gs. group_dict gs []))))) (\<lambda>group_info.
                   io_bind (session_get W \<lparr>url = url3, headers = hdrs\<rparr>) (\<lambda>(st3, ct3, b3).
                     if st3 = 200
                     then lift (bind_exn (loads b3) (\<lambda>data3.
                                bind_exn (getitem data3 ''js'') (\<lambda>js3.
                                bind_exn (getitem js3 ''data'') (\<lambda>channels_data.
                                Inr (Some (channels_data, group_info))))))
                     else lift (Inr None)))
              else lift (Inr None)))
           (\<lambda>e. e = RequestException) None)"

text \<open>The rewrite of a command URL that names the local proxy (lines 191 to 195).\<close>

definition rewrite_local :: "string \<Rightarrow> string \<Rightarrow> string \<Rightarrow> string" where
  "rewrite_local base_url mac cmd_url =
     (if sublist ''localhost'' cmd_url
      then (case re_search_ch cmd_url of
              Some ch_id \<Rightarrow>
                base_url @ ''/play/live.php?mac='' @ mac @ ''&stream='' @ ch_id @ ''&extension=ts''
            | None \<Rightarrow> cmd_url)
      else cmd_url)"

text \<open>\<open>v.replace('ffmpeg ', '')\<close>: a method of strings only.\<close>

definition strip_ffmpeg :: "json \<Rightarrow> exn + string" where
  "strip_ffmpeg v = (case v of JStr s \<Rightarrow> Inr (replace ''ffmpeg '' [] s) | _ \<Rightarrow> Inl AttributeError)"

text \<open>The body of the loop of \<open>save_channel_list\<close>: the text written for one channel.\<close>

definition channel_str ::
  "world \<Rightarrow> string \<Rightarrow> string \<Rightarrow> (json \<times> json) list \<Rightarrow> json \<Rightarrow> exn + string" where
  \<open>channel_str W base_url mac group_info channel =
     bind_exn (getitem channel ''tv_genre_id'') (\<lambda>group_id.
     bind_exn (group_get group_info group_id) (\<lambda>group_name.
     bind_exn (getitem channel ''name'') (\<lambda>name.
     bind_exn (dict_get channel ''logo'' (JStr [])) (\<lambda>logo.
     bind_exn (getitem channel ''cmds'') (\<lambda>cmds.
     bind_exn (getitem0 cmds) (\<lambda>cmd0.
     bind_exn (getitem cmd0 ''url'') (\<lambda>u.
     bind_exn (strip_ffmpeg u) (\<lambda>cmd_url.
     Inr (''#EXTINF:-1 tvg-logo="'' @ fmt W logo @ ''" group-title="'' @ fmt W group_name
          @ ''",'' @ fmt W name @ ''\<newline>'' @ rewrite_local base_url mac cmd_url
          @ ''\<newline>'')))))))))\<close>

fun write_channels ::
  "world \<Rightarrow> string \<Rightarrow> string \<Rightarrow> (json \<times> json) list \<Rightarrow> json list \<Rightarrow> unit io" where
  "write_channels W base_url mac group_info [] = ([], Inr ())"
| "write_channels W base_url mac group_info (channel # channels) =
     io_bind (lift (channel_str W base_url mac group_info channel)) (\<lambda>s.
     io_bind (file_write s) (\<lambda>_. write_channels W base_url mac group_info channels))"

text \<open>\<open>save_channel_list\<close>; \<open>can_open\<close> says whether \<open>open\<close> succeeds (its
  \<open>IOError\<close> is caught and reported).\<close>

definition save_channel_list ::
  "world \<Rightarrow> bool \<Rightarrow> string \<Rightarrow> json \<Rightarrow> (json \<times> json) list \<Rightarrow> string \<Rightarrow> unit io" where
  "save_channel_list W can_open base_url channels_data group_info mac =
     (if can_open
      then io_bind (file_write ''#EXTM3U\<newline>'') (\<lambda>_.
           io_bind (lift (iterate channels_data)) (\<lambda>channels.
           write_channels W base_url mac group_info channels))
      else ([], Inr ()))"

text \<open>
  One invocation of \<open>main\<close> reads the link and the MAC address the user types and
  talks to the portal; \<open>sys.exit(0)\<close> after a \<open>KeyboardInterrupt\<close> is the outcome
  \<open>Exit0\<close>, and an exception no handler takes is \<open>Uncaught\<close>.
\<close>

record attempt =
  net :: world
  link :: parse_result
  typed_mac :: string
  can_open :: bool


definition maclist_body :: "attempt \<Rightarrow> unit io" where
  "maclist_body A =
     io_bind (lift (maclist_get_base_url (link A))) (\<lambda>base_url.
     let mac = get_mac_address (typed_mac A) in
     io_bind (get_token (net A) base_url) (\<lambda>token.
     if truthy token
     then io_bind (get_subscription (net A) base_url token) (\<lambda>subscribed.
          if subscribed
          then io_bind (get_channel_list (net A) base_url (auth (net A) token)) (\<lambda>r.
               case r of
                 None \<Rightarrow> lift (Inr ())
               | Some (channels_data, group_info) \<Rightarrow>
                   if truthy channels_data \<and> group_info \<noteq> []
                   then save_channel_list (net A) (can_open A) base_url channels_data group_info mac
                   else lift (Inr ()))
          else lift (Inr ()))
     else lift (Inr ())))"


section \<open>\<open>macvod.py\<close>: movies\<close>

text \<open>
  \<open>urllib.parse.quote\<close> with its default \<open>safe='/'\<close>: letters, digits and \<open>_.-~/\<close> are
  kept, every other byte becomes \<open>%XX\<close>; a value that is not a string is a \<open>TypeError\<close>.
\<close>

definition hex_digit :: "nat \<Rightarrow> char" where
  "hex_digit d = ''0123456789ABCDEF'' ! d"

definition unreserved :: "char \<Rightarrow> bool" where
  "unreserved c =
     (c \<in> set ''ABCDEFGHIJKLMNOPQRSTUVWXYZabcdefghijklmnopqrstuvwxyz0123456789_.-~/'')"

definition quote_char :: "char \<Rightarrow> string" where
  "quote_char c =
     (if unreserved c then [c]
      else [CHR ''%'', hex_digit ((of_char c :: nat) div 16), hex_digit ((of_char c :: nat) mod 16)])"

definition quote_str :: "string \<Rightarrow> string" where
  "quote_str s = concat (map quote_char s)"

definition quote :: "json \<Rightarrow> exn + string" where
  "quote v = (case v of JStr s \<Rightarrow> Inr (quote_str s) | _ \<Rightarrow> Inl TypeError)"

text \<open>\<open>v.split(' ')[1]\<close>: \<open>split\<close> is a method of strings only.\<close>

definition second_token :: "json \<Rightarrow> exn + string" where
  "second_token v =
     (case v of
        JStr s \<Rightarrow> (case split CHR '' '' s of a # b # rest \<Rightarrow> Inr b | _ \<Rightarrow> Inl IndexError)
      | _ \<Rightarrow> Inl AttributeError)"

definition get_vod_categories :: "world \<Rightarrow> string \<Rightarrow> (string \<times> string) list \<Rightarrow> json io" where
  "get_vod_categories W base_url hdrs =
     (let rq = \<lparr>url = base_url @ ''/portal.php?type=vod&action=get_categories&JsHttpRequest=1-xml'',
                 headers = hdrs\<rparr>
      in catch
           (io_bind (session_get W rq) (\<lambda>(st, ct, b).
              if st = 200
              then lift (bind_exn (loads b) (\<lambda>data. getitem data ''js''))
              else lift (Inr JNull)))
           (\<lambda>e. e = RequestException) JNull)"

definition vod_list_url :: "world \<Rightarrow> string \<Rightarrow> json \<Rightarrow> nat \<Rightarrow> string" where
  "vod_list_url W base_url category_id page =
     base_url @ ''/portal.php?type=vod&action=get_ordered_list&movie_id=0&season_id=0&episode_id=0&row=0&''
     @ ''JsHttpRequest=1-xml&category='' @ fmt W category_id
     @ ''&sortby=added&fav=0&hd=0&not_ended=0&abc=*&genre=*&years=*&search=&p='' @ dec page"

definition get_vod_list ::
  "world \<Rightarrow> string \<Rightarrow> (string \<times> string) list \<Rightarrow> json \<Rightarrow> nat \<Rightarrow> json io" where
  "get_vod_list W base_url hdrs category_id page =
     (let rq = \<lparr>url = vod_list_url W base_url category_id page, headers = hdrs\<rparr>
      in catch
           (io_bind (session_get W rq) (\<lambda>(st, ct, b).
              if st = 200
              then lift (bind_exn (loads b) (\<lambda>data.
                         bind_exn (getitem data ''js'') (\<lambda>js. getitem js ''data'')))
              else lift (Inr JNull)))
           (\<lambda>e. e = RequestException) JNull)"

text \<open>\<open>fetch_play_link\<close>: the URL is built before the \<open>try\<close>, the request carries no
  headers, and only a \<open>RequestException\<close> is handled.\<close>

definition fetch_play_link :: "world \<Rightarrow> string \<Rightarrow> json \<Rightarrow> string option io" where
  "fetch_play_link W base_url cmd =
     io_bind (lift (quote cmd)) (\<lambda>quoted.
     let rq = \<lparr>url = base_url @ ''/portal.php?type=vod&action=create_link&cmd='' @ quoted,
                headers = []\<rparr>
     in catch
          (io_bind (session_get W rq) (\<lambda>(st, ct, b).
             if st = 200
             then lift (bind_exn (loads b) (\<lambda>data.
                        bind_exn (getitem data ''js'') (\<lambda>js.
                        bind_exn (getitem js ''cmd'') (\<lambda>c.
                        bind_exn (second_token c) (\<lambda>play_token. Inr (Some play_token))))))
             else lift (Inr None)))
          (\<lambda>e. e = RequestException) None)"

text \<open>The truth value of \<open>if play_link:\<close>.\<close>

definition has_link :: "string option \<Rightarrow> bool" where
  "has_link play_link = (case play_link of None \<Rightarrow> False | Some l \<Rightarrow> l \<noteq> [])"

text \<open>The body of the loop of \<open>save_vod_list\<close> up to the test of the link: the
  name, the logo and the link of one item; then the text written when there is a link.\<close>

definition vod_item :: "world \<Rightarrow> string \<Rightarrow> json \<Rightarrow> (json \<times> json \<times> string option) io" where
  "vod_item W base_url vod =
     io_bind (lift (getitem vod ''name'')) (\<lambda>name.
     io_bind (lift (dict_get vod ''screenshot_uri'' (JStr []))) (\<lambda>logo.
     io_bind (lift (getitem vod ''cmd'')) (\<lambda>cmd.
     io_bind (fetch_play_link W base_url cmd) (\<lambda>play_link.
     lift (Inr (name, logo, play_link))))))"

definition vod_str :: "world \<Rightarrow> json \<Rightarrow> json \<Rightarrow> json \<Rightarrow> string \<Rightarrow> string" where
  \<open>vod_str W logo category_title name play_link =
     ''#EXTINF:-1 tvg-logo="'' @ fmt W logo @ ''" group-title="'' @ fmt W category_title
     @ ''",'' @ fmt W name @ ''\<newline>'' @ play_link @ ''\<newline>''\<close>

fun save_vods :: "world \<Rightarrow> string \<Rightarrow> json \<Rightarrow> json list \<Rightarrow> int \<Rightarrow> int io" where
  "save_vods W base_url category_title [] count = ([], Inr count)"
| "save_vods W base_url category_title (vod # vods) count =
     (case vod_item W base_url vod of
        (t, Inl e) \<Rightarrow> (t, Inl e)
      | (t, Inr (name, logo, play_link)) \<Rightarrow>
          if has_link play_link
          then (case save_vods W base_url category_title vods (count + 1) of
                  (t', r) \<Rightarrow>
                    (t @ Write (vod_str W logo category_title name (the play_link)) # t', r))
          else (case save_vods W base_url category_title vods count of
                  (t', r) \<Rightarrow> (t @ t', r)))"

definition save_vod_list :: "world \<Rightarrow> json \<Rightarrow> string \<Rightarrow> json \<Rightarrow> int io" where
  "save_vod_list W vod_data base_url category_title =
     io_bind (lift (iterate vod_data)) (\<lambda>vods. save_vods W base_url category_title vods 0)"

text \<open>
  The \<open>while True\<close> loop of \<open>fetch_and_save_vods\<close>, which \<open>fetch_and_save_series\<close>
  repeats word for word: \<open>fetch page\<close> is the call of \<open>get_vod_list\<close> (\<open>get_series_list\<close>)
  for the page, \<open>save data\<close> the call of \<open>save_vod_list\<close> (\<open>save_series_data\<close>) on what it
  returned; \<open>total_count\<close> and \<open>sofar\<close> are the count and the effects so far. The loop need
  not end: a portal whose every page has items keeps it running, and then the value is
  \<open>None\<close>.
\<close>

partial_function (option) page_loop ::
  "(nat \<Rightarrow> json io) \<Rightarrow> (json \<Rightarrow> int io) \<Rightarrow> nat \<Rightarrow> int \<Rightarrow> event list
     \<Rightarrow> (event list \<times> (exn + int)) option" where
  "page_loop fetch save page total_count sofar =
     (case fetch page of
        (t, Inl e) \<Rightarrow> Some (sofar @ t, Inl e)
      | (t, Inr data) \<Rightarrow>
          if \<not> truthy data then Some (sofar @ t, Inr total_count)
          else (case save data of
                  (t', Inl e) \<Rightarrow> Some (sofar @ t @ t', Inl e)
                | (t', Inr count) \<Rightarrow>
                    page_loop fetch save (page + 1) (total_count + count) (sofar @ t @ t')))"

definition fetch_and_save_vods ::
  "world \<Rightarrow> string \<Rightarrow> (string \<times> string) list \<Rightarrow> json \<Rightarrow> (event list \<times> (exn + int)) option" where
  "fetch_and_save_vods W base_url hdrs category =
     (case getitem category ''id'' of
        Inl e \<Rightarrow> Some ([], Inl e)
      | Inr category_id \<Rightarrow>
          (case getitem category ''title'' of
             Inl e \<Rightarrow> Some ([], Inl e)
           | Inr category_title \<Rightarrow>
               if category_id = JStr ''*'' then Some ([], Inr 0)
               else page_loop (get_vod_list W base_url hdrs category_id)
                      (\<lambda>vod_data. save_vod_list W vod_data base_url category_title) 1 0 []))"

text \<open>
  The pool of \<open>main\<close>. The comprehension submits \<open>fetch_and_save_vods\<close> for every
  category whose id is not \<open>"*"\<close>; a category whose id cannot be read ends the
  submissions with its exception, and the pool still waits for the workers it has. The
  workers' effects are listed worker after worker, in the order of submission, which is
  one of the schedules of the pool; against a portal that answers equal requests equally
  a worker's result does not depend on the schedule. \<open>None\<close>: some worker never ends.
\<close>

fun vod_submit ::
  "world \<Rightarrow> string \<Rightarrow> (string \<times> string) list \<Rightarrow> json list
     \<Rightarrow> (event list \<times> (json \<times> (exn + int)) list \<times> exn option) option" where
  "vod_submit W base_url hdrs [] = Some ([], [], None)"
| "vod_submit W base_url hdrs (category # categories) =
     (case getitem category ''id'' of
        Inl e \<Rightarrow> Some ([], [], Some e)
      | Inr category_id \<Rightarrow>
          if category_id \<noteq> JStr ''*''
          then (case fetch_and_save_vods W base_url hdrs category of
                  None \<Rightarrow> None
                | Some (t, r) \<Rightarrow>
                    (case vod_submit W base_url hdrs categories of
                       None \<Rightarrow> None
                     | Some (ts, rs, x) \<Rightarrow> Some (t @ ts, (category, r) # rs, x)))
          else vod_submit W base_url hdrs categories)"

text \<open>The loop over the finished futures: a result is reported, an \<open>Exception\<close> of the
  worker is caught and reported, and both reports read \<open>category['title']\<close>.\<close>

fun vod_report :: "(json \<times> (exn + int)) list \<Rightarrow> exn + unit" where
  "vod_report [] = Inr ()"
| "vod_report ((category, Inr result) # rs) =
     (case getitem category ''title'' of
        Inr title \<Rightarrow> vod_report rs
      | Inl e \<Rightarrow> bind_exn (getitem category ''title'') (\<lambda>title. vod_report rs))"
| "vod_report ((category, Inl e) # rs) =
     (if is_Exception e then bind_exn (getitem category ''title'') (\<lambda>title. vod_report rs)
      else Inl e)"

definition vod_pool ::
  "world \<Rightarrow> string \<Rightarrow> (string \<times> string) list \<Rightarrow> json \<Rightarrow> (event list \<times> (exn + unit)) option" where
  "vod_pool W base_url hdrs vod_categories =
     (case iterate vod_categories of
        Inl e \<Rightarrow> Some ([], Inl e)
      | Inr categories \<Rightarrow>
          (case vod_submit W base_url hdrs categories of
             None \<Rightarrow> None
           | Some (t, rs, Some e) \<Rightarrow> Some (t, Inl e)
           | Some (t, rs, None) \<Rightarrow> Some (t, vod_report rs)))"

text \<open>The body of the \<open>try\<close> of \<open>main\<close>; a failing \<open>open\<close> raises \<open>OSError\<close> here.\<close>

definition macvod_body :: "attempt \<Rightarrow> (event list \<times> (exn + unit)) option" where
  "macvod_body A =
     (case get_base_url (link A) of
        Inl e \<Rightarrow> Some ([], Inl e)
      | Inr base_url \<Rightarrow>
          (case get_token (net A) base_url of
             (t1, Inl e) \<Rightarrow> Some (t1, Inl e)
           | (t1, Inr token) \<Rightarrow>
               if \<not> truthy token then Some (t1, Inr ())
               else (case get_subscription (net A) base_url token of
                       (t2, Inl e) \<Rightarrow> Some (t1 @ t2, Inl e)
                     | (t2, Inr subscribed) \<Rightarrow>
                         if \<not> subscribed then Some (t1 @ t2, Inr ())
                         else (case get_vod_categories (net A) base_url (auth (net A) token) of
                                 (t3, Inl e) \<Rightarrow> Some (t1 @ t2 @ t3, Inl e)
                               | (t3, Inr vod_categories) \<Rightarrow>
                                   if \<not> truthy vod_categories then Some (t1 @ t2 @ t3, Inr ())
                                   else if \<not> can_open A then Some (t1 @ t2 @ t3, Inl OSError)
                                   else (case vod_pool (net A) base_url (auth (net A) token)
                                                vod_categories of
                                           None \<Rightarrow> None
                                         | Some (t4, r) \<Rightarrow>
                                             Some (t1 @ t2 @ t3 @ Write ''#EXTM3U\<newline>'' # t4, r))))))"


section \<open>\<open>macshow.py\<close>: series\<close>

text \<open>
  The functions of \<open>macshow.py\<close> take the prefix \<open>show_\<close> where \<open>macvod.py\<close> has a
  function of the same name. They handle \<open>aiohttp.ClientError\<close> where the others handle
  \<open>requests.RequestException\<close>, and \<open>get_token\<close> reads the body only when the content
  type starts with \<open>text/javascript\<close> (a response without the header has the type
  \<open>''\<close>).
\<close>

definition show_get_token :: "world \<Rightarrow> string \<Rightarrow> json io" where
  "show_get_token W base_url =
     (let rq = \<lparr>url = base_url @ ''/portal.php?action=handshake&type=stb&token=&JsHttpRequest=1-xml'',
                 headers = []\<rparr>
      in catch
           (io_bind (session_get W rq) (\<lambda>(st, ct, b).
              if prefix ''text/javascript'' ct
              then lift (bind_exn (loads b) (\<lambda>data.
                         bind_exn (getitem data ''js'') (\<lambda>js. getitem js ''token'')))
              else lift (Inr JNull)))
           (\<lambda>e. e = ClientError \<or> e = JSONDecodeError) JNull)"

definition show_get_subscription :: "world \<Rightarrow> string \<Rightarrow> json \<Rightarrow> bool io" where
  "show_get_subscription W base_url token =
     (let rq = \<lparr>url = base_url @ ''/portal.php?type=account_info&action=get_main_info&JsHttpRequest=1-xml'',
                 headers = auth W token\<rparr>
      in catch
           (io_bind (session_get W rq) (\<lambda>(st, ct, b).
              if st = 200
              then lift (bind_exn (loads b) (\<lambda>data.
                         bind_exn (getitem data ''js'') (\<lambda>js.
                         bind_exn (getitem js ''mac'') (\<lambda>mac.
                         bind_exn (getitem data ''js'') (\<lambda>js'.
                         bind_exn (getitem js' ''phone'') (\<lambda>expiry. Inr True))))))
              else lift (Inr False)))
           (\<lambda>e. e = ClientError) False)"

text \<open>\<open>[cat for cat in categories if cat['id'] != "*"]\<close>.\<close>

fun not_star :: "json list \<Rightarrow> exn + json list" where
  "not_star [] = Inr []"
| "not_star (cat # cats) =
     (case getitem cat ''id'' of
        Inl e \<Rightarrow> Inl e
      | Inr i \<Rightarrow>
          (case not_star cats of
             Inl e \<Rightarrow> Inl e
           | Inr r \<Rightarrow> Inr (if i \<noteq> JStr ''*'' then cat # r else r)))"

definition get_series_categories ::
  "world \<Rightarrow> string \<Rightarrow> (string \<times> string) list \<Rightarrow> json list option io" where
  "get_series_categories W base_url hdrs =
     (let rq = \<lparr>url = base_url @ ''/portal.php?type=series&action=get_categories&JsHttpRequest=1-xml'',
                 headers = hdrs\<rparr>
      in catch
           (io_bind (session_get W rq) (\<lambda>(st, ct, b).
              if st = 200
              then lift (bind_exn (loads b) (\<lambda>data.
                         bind_exn (getitem data ''js'') (\<lambda>categories.
                         bind_exn (iterate categories) (\<lambda>cats.
                         bind_exn (not_star cats) (\<lambda>r. Inr (Some r))))))
              else lift (Inr None)))
           (\<lambda>e. e = ClientError) None)"

definition series_list_url :: "world \<Rightarrow> string \<Rightarrow> json \<Rightarrow> nat \<Rightarrow> string" where
  "series_list_url W base_url category_id page =
     base_url @ ''/portal.php?type=series&action=get_ordered_list&movie_id=0&season_id=0&episode_id=0&row=0&''
     @ ''JsHttpRequest=1-xml&category='' @ fmt W category_id
     @ ''&sortby=added&fav=0&hd=0&not_ended=0&abc=*&genre=*&years=*&search=&p='' @ dec page"

definition get_series_list ::
  "world \<Rightarrow> string \<Rightarrow> (string \<times> string) list \<Rightarrow> json \<Rightarrow> nat \<Rightarrow> json io" where
  "get_series_list W base_url hdrs category_id page =
     (let rq = \<lparr>url = series_list_url W base_url category_id page, headers = hdrs\<rparr>
      in catch
           (io_bind (session_get W rq) (\<lambda>(st, ct, b).
              if st = 200
              then lift (bind_exn (loads b) (\<lambda>data.
                         bind_exn (getitem data ''js'') (\<lambda>js. getitem js ''data'')))
              else lift (Inr JNull)))
           (\<lambda>e. e = ClientError) JNull)"

definition get_seasons_episodes ::
  "world \<Rightarrow> string \<Rightarrow> (string \<times> string) list \<Rightarrow> string \<Rightarrow> json \<Rightarrow> json io" where
  "get_seasons_episodes W base_url hdrs series_id category_id =
     (let rq = \<lparr>url = base_url @ ''/portal.php?type=series&action=get_ordered_list&movie_id=''
                       @ quote_str series_id
                       @ ''&season_id=0&episode_id=0&row=0&JsHttpRequest=1-xml&category=''
                       @ fmt W category_id
                       @ ''&sortby=added&fav=0&hd=0&not_ended=0&abc=*&genre=*&years=*&search=&p=1'',
                 headers = hdrs\<rparr>
      in catch
           (io_bind (session_get W rq) (\<lambda>(st, ct, b).
              if st = 200
              then lift (bind_exn (loads b) (\<lambda>data.
                         bind_exn (getitem data ''js'') (\<lambda>js. getitem js ''data'')))
              else lift (Inr JNull)))
           (\<lambda>e. e = ClientError) JNull)"

definition show_fetch_play_link :: "world \<Rightarrow> string \<Rightarrow> string \<Rightarrow> json \<Rightarrow> string option io" where
  "show_fetch_play_link W base_url cmd episode_num =
     (let rq = \<lparr>url = base_url @ ''/portal.php?type=vod&action=create_link&cmd='' @ quote_str cmd
                       @ ''&series='' @ fmt W episode_num,
                 headers = []\<rparr>
      in catch
           (io_bind (session_get W rq) (\<lambda>(st, ct, b).
              if st = 200
              then lift (bind_exn (loads b) (\<lambda>data.
                         bind_exn (getitem data ''js'') (\<lambda>js.
                         bind_exn (getitem js ''cmd'') (\<lambda>c.
                         bind_exn (second_token c) (\<lambda>play_url. Inr (Some play_url))))))
              else lift (Inr None)))
           (\<lambda>e. e = ClientError) None)"

text \<open>\<open>str(i)\<close> of an integer, and \<open>format(i, '0{w}d')\<close>: zeros between the sign and
  the digits up to the width \<open>w\<close>.\<close>

definition str_int :: "int \<Rightarrow> string" where
  "str_int i = (if i < 0 then CHR ''-'' # dec (nat (- i)) else dec (nat i))"

definition zero_pad :: "nat \<Rightarrow> int \<Rightarrow> string" where
  "zero_pad w i =
     (if i < 0
      then CHR ''-'' # replicate (w - 1 - length (dec (nat (- i)))) CHR ''0'' @ dec (nat (- i))
      else replicate (w - length (dec (nat i))) CHR ''0'' @ dec (nat i))"

text \<open>The format code \<open>d\<close> takes integers and bools; for a string it is a
  \<open>ValueError\<close>, for the other values a \<open>TypeError\<close>.\<close>

fun format_d :: "nat \<Rightarrow> json \<Rightarrow> exn + string" where
  "format_d w (JNum n) = Inr (zero_pad w n)"
| "format_d w (JBool b) = Inr (zero_pad w (if b then 1 else 0))"
| "format_d w (JStr s) = Inl ValueError"
| "format_d w v = Inl TypeError"

definition format_episode_number :: "int \<Rightarrow> json \<Rightarrow> nat \<Rightarrow> exn + string" where
  "format_episode_number season_num episode_num total_episodes =
     bind_exn (format_d (length (dec total_episodes)) episode_num) (\<lambda>e.
     Inr (''S'' @ str_int season_num @ '' E'' @ e))"

text \<open>\<open>v.split(':')[0]\<close> and \<open>v.split(':')[1]\<close>.\<close>

definition before_colon :: "json \<Rightarrow> exn + string" where
  "before_colon v =
     (case v of
        JStr s \<Rightarrow> (case split CHR '':'' s of a # rest \<Rightarrow> Inr a | [] \<Rightarrow> Inl IndexError)
      | _ \<Rightarrow> Inl AttributeError)"

definition after_colon :: "json \<Rightarrow> exn + string" where
  "after_colon v =
     (case v of
        JStr s \<Rightarrow> (case split CHR '':'' s of a # b # rest \<Rightarrow> Inr b | _ \<Rightarrow> Inl IndexError)
      | _ \<Rightarrow> Inl AttributeError)"

text \<open>\<open>len(v)\<close>.\<close>

fun py_len :: "json \<Rightarrow> exn + nat" where
  "py_len (JArr xs) = Inr (length xs)"
| "py_len (JObj kvs) = Inr (length kvs)"
| "py_len (JStr s) = Inr (length s)"
| "py_len v = Inl TypeError"

text \<open>What the loops of \<open>save_series_data\<close> have in hand when they reach an episode.\<close>

record season_ctx =
  series :: json
  series_title :: json
  series_id :: string
  season_num :: string
  total_episodes :: nat
  category_title :: json

definition episode_str :: "world \<Rightarrow> season_ctx \<Rightarrow> json \<Rightarrow> json \<Rightarrow> string \<Rightarrow> string \<Rightarrow> string" where
  \<open>episode_str W C episode_num logo formatted_episode_num play_link =
     ''#EXTINF:-1 tvg-type="serie" tvg-serie="'' @ series_id C @ ''" tvg-season="'' @ season_num C
     @ ''" '' @ ''tvg-episode="'' @ fmt W episode_num @ ''" serie-title="'' @ fmt W (series_title C)
     @ ''" '' @ ''tvg-logo="'' @ fmt W logo @ ''" group-title="'' @ fmt W (category_title C)
     @ ''",'' @ fmt W (series_title C) @ '' '' @ formatted_episode_num
     @ ''\<newline>'' @ play_link @ ''\<newline>''\<close>

text \<open>The body of the innermost loop up to the test of the link.\<close>

definition episode_link :: "world \<Rightarrow> string \<Rightarrow> season_ctx \<Rightarrow> json \<Rightarrow> (int \<times> string option) io" where
  "episode_link W base_url C episode_num =
     io_bind (lift (case py_int W (season_num C) of None \<Rightarrow> Inl ValueError | Some n \<Rightarrow> Inr n))
       (\<lambda>n.
     io_bind (show_fetch_play_link W base_url (b64_json W (series_id C) n) episode_num)
       (\<lambda>play_link. lift (Inr (n, play_link))))"

text \<open>The text of an episode that has a link.\<close>

definition episode_text ::
  "world \<Rightarrow> season_ctx \<Rightarrow> json \<Rightarrow> int \<Rightarrow> string \<Rightarrow> exn + string" where
  "episode_text W C episode_num n play_link =
     bind_exn (format_episode_number n episode_num (total_episodes C)) (\<lambda>formatted.
     bind_exn (dict_get (series C) ''screenshot_uri'' (JStr [])) (\<lambda>logo.
     Inr (episode_str W C episode_num logo formatted play_link)))"

fun save_episodes :: "world \<Rightarrow> string \<Rightarrow> season_ctx \<Rightarrow> json list \<Rightarrow> int \<Rightarrow> int io" where
  "save_episodes W base_url C [] total_count = ([], Inr total_count)"
| "save_episodes W base_url C (episode_num # episodes) total_count =
     (case episode_link W base_url C episode_num of
        (t, Inl e) \<Rightarrow> (t, Inl e)
      | (t, Inr (n, play_link)) \<Rightarrow>
          if has_link play_link
          then (case episode_text W C episode_num n (the play_link) of
                  Inl e \<Rightarrow> (t, Inl e)
                | Inr s \<Rightarrow>
                    (case save_episodes W base_url C episodes (total_count + 1) of
                       (t', r) \<Rightarrow> (t @ Write s # t', r)))
          else (case save_episodes W base_url C episodes total_count of
                  (t', r) \<Rightarrow> (t @ t', r)))"

text \<open>The head of the loop over the seasons: the number of the season and its
  episodes.\<close>

definition season_head :: "json \<Rightarrow> exn + (string \<times> nat \<times> json list)" where
  "season_head season =
     bind_exn (getitem season ''id'') (\<lambda>i.
     bind_exn (after_colon i) (\<lambda>num.
     bind_exn (getitem season ''series'') (\<lambda>episodes.
     bind_exn (py_len episodes) (\<lambda>n_eps.
     bind_exn (iterate episodes) (\<lambda>es. Inr (num, n_eps, es))))))"

fun save_seasons ::
  "world \<Rightarrow> string \<Rightarrow> json \<Rightarrow> json \<Rightarrow> string \<Rightarrow> json \<Rightarrow> json list \<Rightarrow> int \<Rightarrow> int io" where
  "save_seasons W base_url ser title sid cat_title [] total_count = ([], Inr total_count)"
| "save_seasons W base_url ser title sid cat_title (season # seasons) total_count =
     (case season_head season of
        Inl e \<Rightarrow> ([], Inl e)
      | Inr (num, n_eps, es) \<Rightarrow>
          (case save_episodes W base_url
                  \<lparr>series = ser, series_title = title, series_id = sid, season_num = num,
                   total_episodes = n_eps, category_title = cat_title\<rparr> es total_count of
             (t, Inl e) \<Rightarrow> (t, Inl e)
           | (t, Inr total_count') \<Rightarrow>
               (case save_seasons W base_url ser title sid cat_title seasons total_count' of
                  (t', r) \<Rightarrow> (t @ t', r))))"

text \<open>The head of the loop over the series: the title, the id and the seasons.\<close>

definition series_head ::
  "world \<Rightarrow> string \<Rightarrow> (string \<times> string) list \<Rightarrow> json \<Rightarrow> (json \<times> string \<times> json) io" where
  "series_head W base_url hdrs ser =
     io_bind (lift (getitem ser ''name'')) (\<lambda>title.
     io_bind (lift (bind_exn (getitem ser ''id'') before_colon)) (\<lambda>sid.
     io_bind (lift (getitem ser ''category_id'')) (\<lambda>category_id.
     io_bind (get_seasons_episodes W base_url hdrs sid category_id) (\<lambda>seasons_data.
     lift (Inr (title, sid, seasons_data))))))"

fun save_series ::
  "world \<Rightarrow> string \<Rightarrow> (string \<times> string) list \<Rightarrow> json \<Rightarrow> json list \<Rightarrow> int \<Rightarrow> int io" where
  "save_series W base_url hdrs cat_title [] total_count = ([], Inr total_count)"
| "save_series W base_url hdrs cat_title (ser # sers) total_count =
     (case series_head W base_url hdrs ser of
        (t, Inl e) \<Rightarrow> (t, Inl e)
      | (t, Inr (title, sid, seasons_data)) \<Rightarrow>
          if truthy seasons_data
          then (case iterate seasons_data of
                  Inl e \<Rightarrow> (t, Inl e)
                | Inr seasons \<Rightarrow>
                    (case save_seasons W base_url ser title sid cat_title seasons total_count of
                       (t', Inl e) \<Rightarrow> (t @ t', Inl e)
                     | (t', Inr total_count') \<Rightarrow>
                         (case save_series W base_url hdrs cat_title sers total_count' of
                            (t'', r) \<Rightarrow> (t @ t' @ t'', r))))
          else (case save_series W base_url hdrs cat_title sers total_count of
                  (t'', r) \<Rightarrow> (t @ t'', r)))"

definition save_series_data ::
  "world \<Rightarrow> json \<Rightarrow> string \<Rightarrow> (string \<times> string) list \<Rightarrow> json \<Rightarrow> int io" where
  "save_series_data W series_data base_url hdrs cat_title =
     io_bind (lift (iterate series_data)) (\<lambda>sers. save_series W base_url hdrs cat_title sers 0)"

definition fetch_and_save_series ::
  "world \<Rightarrow> string \<Rightarrow> (string \<times> string) list \<Rightarrow> json \<Rightarrow> (event list \<times> (exn + int)) option" where
  "fetch_and_save_series W base_url hdrs category =
     (case getitem category ''id'' of
        Inl e \<Rightarrow> Some ([], Inl e)
      | Inr category_id \<Rightarrow>
          (case getitem category ''title'' of
             Inl e \<Rightarrow> Some ([], Inl e)
           | Inr cat_title \<Rightarrow>
               page_loop (get_series_list W base_url hdrs category_id)
                 (\<lambda>series_data. save_series_data W series_data base_url hdrs cat_title) 1 0 []))"

text \<open>The loop of \<open>main\<close> over the categories: an \<open>Exception\<close> of a category is caught
  and reported, and the report reads \<open>category['title']\<close>.\<close>

fun show_categories ::
  "world \<Rightarrow> string \<Rightarrow> (string \<times> string) list \<Rightarrow> json list \<Rightarrow> (event list \<times> (exn + unit)) option" where
  "show_categories W base_url hdrs [] = Some ([], Inr ())"
| "show_categories W base_url hdrs (category # categories) =
     (case fetch_and_save_series W base_url hdrs category of
        None \<Rightarrow> None
      | Some (t, r) \<Rightarrow>
          (case (case r of
                   Inr result \<Rightarrow> Inr ()
                 | Inl e \<Rightarrow>
                     if is_Exception e
                     then bind_exn (getitem category ''title'') (\<lambda>title. Inr ())
                     else Inl e) of
             Inl e \<Rightarrow> Some (t, Inl e)
           | Inr u \<Rightarrow>
               (case show_categories W base_url hdrs categories of
                  None \<Rightarrow> None
                | Some (t', r') \<Rightarrow> Some (t @ t', r'))))"

definition macshow_body :: "attempt \<Rightarrow> (event list \<times> (exn + unit)) option" where
  "macshow_body A =
     (case get_base_url (link A) of
        Inl e \<Rightarrow> Some ([], Inl e)
      | Inr base_url \<Rightarrow>
          (case show_get_token (net A) base_url of
             (t1, Inl e) \<Rightarrow> Some (t1, Inl e)
           | (t1, Inr token) \<Rightarrow>
               if \<not> truthy token then Some (t1, Inr ())
               else (case show_get_subscription (net A) base_url token of
                       (t2, Inl e) \<Rightarrow> Some (t1 @ t2, Inl e)
                     | (t2, Inr subscribed) \<Rightarrow>
                         if \<not> subscribed then Some (t1 @ t2, Inr ())
                         else (case get_series_categories (net A) base_url (auth (net A) token) of
                                 (t3, Inl e) \<Rightarrow> Some (t1 @ t2 @ t3, Inl e)
                               | (t3, Inr None) \<Rightarrow> Some (t1 @ t2 @ t3, Inr ())
                               | (t3, Inr (Some series_categories)) \<Rightarrow>
                                   if series_categories = [] then Some (t1 @ t2 @ t3, Inr ())
                                   else if \<not> can_open A then Some (t1 @ t2 @ t3, Inl OSError)
                                   else (case show_categories (net A) base_url (auth (net A) token)
                                                series_categories of
                                           None \<Rightarrow> None
                                         | Some (t4, r) \<Rightarrow>
                                             Some (t1 @ t2 @ t3 @ Write ''#EXTM3U\<newline>'' # t4, r))))))"


section \<open>Notions of the statements\<close>

text \<open>A non-empty run of digits, what \<open>\d+\<close> matches.\<close>

definition digits :: "string \<Rightarrow> bool" where
  "digits ds = (ds \<noteq> [] \<and> (\<forall>c \<in> set ds. is_digit c))"

text \<open>The texts a trace writes to the playlist, in order.\<close>

definition writes :: "event list \<Rightarrow> string list" where
  "writes t = concat (map (\<lambda>ev. case ev of Write s \<Rightarrow> [s] | _ \<Rightarrow> []) t)"

text \<open>
  An item of a page of movies is resolved when \<open>fetch_play_link\<close> returns a non-empty
  link for it, and its entry is the text \<open>save_vod_list\<close> builds from that link; likewise
  for an episode of a season, whose entry is the text the innermost loop of
  \<open>save_series_data\<close> builds. The portal answers equal requests equally, so the link is
  the one the loop got.
\<close>

definition vod_resolved :: "world \<Rightarrow> string \<Rightarrow> json \<Rightarrow> bool" where
  "vod_resolved W base_url vod =
     (case snd (vod_item W base_url vod) of
        Inr (name, logo, play_link) \<Rightarrow> has_link play_link
      | Inl e \<Rightarrow> False)"

definition vod_entry :: "world \<Rightarrow> string \<Rightarrow> json \<Rightarrow> json \<Rightarrow> string" where
  "vod_entry W base_url title vod =
     (case snd (vod_item W base_url vod) of
        Inr (name, logo, play_link) \<Rightarrow> vod_str W logo title name (the play_link)
      | Inl e \<Rightarrow> [])"

definition episode_resolved :: "world \<Rightarrow> string \<Rightarrow> season_ctx \<Rightarrow> json \<Rightarrow> bool" where
  "episode_resolved W base_url C episode_num =
     (case snd (episode_link W base_url C episode_num) of
        Inr (n, play_link) \<Rightarrow> has_link play_link
      | Inl e \<Rightarrow> False)"

definition episode_entry :: "world \<Rightarrow> string \<Rightarrow> season_ctx \<Rightarrow> json \<Rightarrow> string" where
  "episode_entry W base_url C episode_num =
     (case snd (episode_link W base_url C episode_num) of
        Inr (n, play_link) \<Rightarrow>
          (case episode_text W C episode_num n (the play_link) of Inr s \<Rightarrow> s | Inl e \<Rightarrow> [])
      | Inl e \<Rightarrow> [])"

text \<open>
  The items of a category. The elements of a decoded value that can be iterated; the
  movies of a page, as \<open>get_vod_list\<close> returns them; the episodes of a season, of a series
  (whose seasons \<open>get_seasons_episodes\<close> returns) and of a page of series, each paired with
  what the loops have in hand when they reach it; and the items of the pages before page
  \<open>m\<close>.
\<close>

definition json_items :: "json \<Rightarrow> json list" where
  "json_items d = (case iterate d of Inl e \<Rightarrow> [] | Inr xs \<Rightarrow> xs)"

definition vod_page_items ::
  "world \<Rightarrow> string \<Rightarrow> (string \<times> string) list \<Rightarrow> json \<Rightarrow> nat \<Rightarrow> json list" where
  "vod_page_items W base_url hdrs category_id page =
     (case snd (get_vod_list W base_url hdrs category_id page) of
        Inl e \<Rightarrow> []
      | Inr vod_data \<Rightarrow> json_items vod_data)"

definition season_items ::
  "json \<Rightarrow> json \<Rightarrow> string \<Rightarrow> json \<Rightarrow> json \<Rightarrow> (season_ctx \<times> json) list" where
  "season_items ser title sid cat_title season =
     (case season_head season of
        Inl e \<Rightarrow> []
      | Inr (num, n_eps, es) \<Rightarrow>
          map (Pair \<lparr>series = ser, series_title = title, series_id = sid, season_num = num,
                     total_episodes = n_eps, category_title = cat_title\<rparr>) es)"

definition series_items ::
  "world \<Rightarrow> string \<Rightarrow> (string \<times> string) list \<Rightarrow> json \<Rightarrow> json \<Rightarrow> (season_ctx \<times> json) list" where
  "series_items W base_url hdrs cat_title ser =
     (case snd (series_head W base_url hdrs ser) of
        Inl e \<Rightarrow> []
      | Inr (title, sid, seasons_data) \<Rightarrow>
          if truthy seasons_data
          then concat (map (season_items ser title sid cat_title) (json_items seasons_data))
          else [])"

definition series_page_items ::
  "world \<Rightarrow> string \<Rightarrow> (string \<times> string) list \<Rightarrow> json \<Rightarrow> json \<Rightarrow> nat
     \<Rightarrow> (season_ctx \<times> json) list" where
  "series_page_items W base_url hdrs category_id cat_title page =
     (case snd (get_series_list W base_url hdrs category_id page) of
        Inl e \<Rightarrow> []
      | Inr series_data \<Rightarrow>
          concat (map (series_items W base_url hdrs cat_title) (json_items series_data)))"

definition item_resolved :: "world \<Rightarrow> string \<Rightarrow> season_ctx \<times> json \<Rightarrow> bool" where
  "item_resolved W base_url x = episode_resolved W base_url (fst x) (snd x)"

definition item_entry :: "world \<Rightarrow> string \<Rightarrow> season_ctx \<times> json \<Rightarrow> string" where
  "item_entry W base_url x = episode_entry W base_url (fst x) (snd x)"

definition vod_items_before ::
  "world \<Rightarrow> string \<Rightarrow> (string \<times> string) list \<Rightarrow> json \<Rightarrow> nat \<Rightarrow> json list" where
  "vod_items_before W base_url hdrs category_id m =
     concat (map (vod_page_items W base_url hdrs category_id) [1..<m])"

definition series_items_before ::
  "world \<Rightarrow> string \<Rightarrow> (string \<times> string) list \<Rightarrow> json \<Rightarrow> json \<Rightarrow> nat
     \<Rightarrow> (season_ctx \<times> json) list" where
  "series_items_before W base_url hdrs category_id cat_title m =
     concat (map (series_page_items W base_url hdrs category_id cat_title) [1..<m])"

text \<open>
  One turn of the page loop. A page is good when its fetch returns a value that is true
  and the work on its items returns; a fetch ends the loop when it raises or returns a
  value that is not true. The effects of the turn for a page, the count it adds, and the
  result of the loop that ends at a page.
\<close>

definition page_good :: "(nat \<Rightarrow> json io) \<Rightarrow> (json \<Rightarrow> int io) \<Rightarrow> nat \<Rightarrow> bool" where
  "page_good fetch save p =
     (case snd (fetch p) of
        Inl e \<Rightarrow> False
      | Inr d \<Rightarrow> truthy d \<and> (case snd (save d) of Inl e \<Rightarrow> False | Inr c \<Rightarrow> True))"

definition fetch_ends :: "(nat \<Rightarrow> json io) \<Rightarrow> nat \<Rightarrow> bool" where
  "fetch_ends fetch p = (case snd (fetch p) of Inl e \<Rightarrow> True | Inr d \<Rightarrow> \<not> truthy d)"

definition page_events :: "(nat \<Rightarrow> json io) \<Rightarrow> (json \<Rightarrow> int io) \<Rightarrow> nat \<Rightarrow> event list" where
  "page_events fetch save p =
     fst (fetch p) @
     (case snd (fetch p) of Inl e \<Rightarrow> [] | Inr d \<Rightarrow> if truthy d then fst (save d) else [])"

definition page_count :: "(nat \<Rightarrow> json io) \<Rightarrow> (json \<Rightarrow> int io) \<Rightarrow> nat \<Rightarrow> int" where
  "page_count fetch save p =
     (case snd (fetch p) of
        Inl e \<Rightarrow> 0
      | Inr d \<Rightarrow> (case snd (save d) of Inl e \<Rightarrow> 0 | Inr c \<Rightarrow> c))"

definition last_page :: "(nat \<Rightarrow> json io) \<Rightarrow> int \<Rightarrow> nat \<Rightarrow> exn + int" where
  "last_page fetch count n = (case snd (fetch n) of Inl e \<Rightarrow> Inl e | Inr d \<Rightarrow> Inr count)"

text \<open>
  The end of the pagination in the words of claim C2: the response to the page request has
  a status other than 200, or its body does not decode to an item list, or the list is
  empty.
\<close>

definition spec_page_end :: "reply \<Rightarrow> bool" where
  "spec_page_end r =
     (case r of
        Raises e \<Rightarrow> False
      | Reply st ct b \<Rightarrow>
          st \<noteq> 200 \<or>
          (case bind_exn (loads b) (\<lambda>data. bind_exn (getitem data ''js'') (\<lambda>js. getitem js ''data'')) of
             Inl e \<Rightarrow> True
           | Inr d \<Rightarrow> d = JArr []))"

text \<open>
  The requests of the programs by their URLs, and what the programs keep to for the
  requests of one invocation with the base URL \<open>base_url\<close> and the headers \<open>hdrs\<close> built
  from the token: a \<open>create_link\<close> request has no header; every other request has the
  marker in its URL, which starts with the base URL, and carries \<open>hdrs\<close>, the handshake no
  header. No invocation of \<open>main\<close> starts inside the body of another.
\<close>

definition carries_marker :: "request \<Rightarrow> bool" where
  "carries_marker rq = sublist ''JsHttpRequest=1-xml'' (url rq)"

definition is_handshake :: "string \<Rightarrow> request \<Rightarrow> bool" where
  "is_handshake base_url rq =
     (url rq = base_url @ ''/portal.php?action=handshake&type=stb&token=&JsHttpRequest=1-xml'')"

definition is_create_link :: "string \<Rightarrow> request \<Rightarrow> bool" where
  "is_create_link base_url rq =
     prefix (base_url @ ''/portal.php?type=vod&action=create_link&cmd='') (url rq)"

definition request_ok :: "string \<Rightarrow> (string \<times> string) list \<Rightarrow> request \<Rightarrow> bool" where
  "request_ok base_url hdrs rq =
     (if is_create_link base_url rq then headers rq = []
      else carries_marker rq \<and> prefix base_url (url rq)
           \<and> (if is_handshake base_url rq then headers rq = [] else headers rq = hdrs))"

definition event_ok :: "string \<Rightarrow> (string \<times> string) list \<Rightarrow> event \<Rightarrow> bool" where
  "event_ok base_url hdrs ev =
     (case ev of Start \<Rightarrow> False | Get rq \<Rightarrow> request_ok base_url hdrs rq | Write s \<Rightarrow> True)"

definition events_ok :: "string \<Rightarrow> (string \<times> string) list \<Rightarrow> event list \<Rightarrow> bool" where
  "events_ok base_url hdrs t = list_all (event_ok base_url hdrs) t"

text \<open>The requests by name.\<close>

definition handshake_rq :: "string \<Rightarrow> request" where
  "handshake_rq base_url =
     \<lparr>url = base_url @ ''/portal.php?action=handshake&type=stb&token=&JsHttpRequest=1-xml'',
      headers = []\<rparr>"

definition account_rq :: "string \<Rightarrow> (string \<times> string) list \<Rightarrow> request" where
  "account_rq base_url hdrs =
     \<lparr>url = base_url @ ''/portal.php?type=account_info&action=get_main_info&JsHttpRequest=1-xml'',
      headers = hdrs\<rparr>"

definition genres_rq :: "string \<Rightarrow> (string \<times> string) list \<Rightarrow> request" where
  "genres_rq base_url hdrs =
     \<lparr>url = base_url @ ''/server/load.php?type=itv&action=get_genres&JsHttpRequest=1-xml'', headers = hdrs\<rparr>"

definition channels_rq :: "string \<Rightarrow> (string \<times> string) list \<Rightarrow> request" where
  "channels_rq base_url hdrs =
     \<lparr>url = base_url @ ''/portal.php?type=itv&action=get_all_channels&JsHttpRequest=1-xml'', headers = hdrs\<rparr>"

definition vod_categories_rq :: "string \<Rightarrow> (string \<times> string) list \<Rightarrow> request" where
  "vod_categories_rq base_url hdrs =
     \<lparr>url = base_url @ ''/portal.php?type=vod&action=get_categories&JsHttpRequest=1-xml'',
      headers = hdrs\<rparr>"

definition vod_list_rq :: "string \<Rightarrow> (string \<times> string) list \<Rightarrow> string \<Rightarrow> string \<Rightarrow> request" where
  "vod_list_rq base_url hdrs category_id page =
     \<lparr>url = base_url
        @ ''/portal.php?type=vod&action=get_ordered_list&movie_id=0&season_id=0&episode_id=0&row=0&''
        @ ''JsHttpRequest=1-xml&category='' @ category_id
        @ ''&sortby=added&fav=0&hd=0&not_ended=0&abc=*&genre=*&years=*&search=&p='' @ page,
      headers = hdrs\<rparr>"

definition create_link_rq :: "string \<Rightarrow> string \<Rightarrow> request" where
  "create_link_rq base_url quoted =
     \<lparr>url = base_url @ ''/portal.php?type=vod&action=create_link&cmd='' @ quoted, headers = []\<rparr>"

definition series_list_rq :: "string \<Rightarrow> (string \<times> string) list \<Rightarrow> string \<Rightarrow> string \<Rightarrow> request" where
  "series_list_rq base_url hdrs category_id page =
     \<lparr>url = base_url
        @ ''/portal.php?type=series&action=get_ordered_list&movie_id=0&season_id=0&episode_id=0&row=0&''
        @ ''JsHttpRequest=1-xml&category='' @ category_id
        @ ''&sortby=added&fav=0&hd=0&not_ended=0&abc=*&genre=*&years=*&search=&p='' @ page,
      headers = hdrs\<rparr>"

definition seasons_rq :: "string \<Rightarrow> (string \<times> string) list \<Rightarrow> string \<Rightarrow> string \<Rightarrow> request" where
  "seasons_rq base_url hdrs quoted_id category_id =
     \<lparr>url = base_url @ ''/portal.php?type=series&action=get_ordered_list&movie_id='' @ quoted_id
        @ ''&season_id=0&episode_id=0&row=0&JsHttpRequest=1-xml&category='' @ category_id
        @ ''&sortby=added&fav=0&hd=0&not_ended=0&abc=*&genre=*&years=*&search=&p=1'',
      headers = hdrs\<rparr>"

definition episode_rq :: "string \<Rightarrow> string \<Rightarrow> string \<Rightarrow> request" where
  "episode_rq base_url quoted episode_num =
     \<lparr>url = base_url @ ''/portal.php?type=vod&action=create_link&cmd='' @ quoted
        @ ''&series='' @ episode_num,
      headers = []\<rparr>"

text \<open>
  The invocations of \<open>main\<close> in a trace, a body that an exception other than
  \<open>KeyboardInterrupt\<close> leaves, the effects of a body, and the trace of a sequence of
  invocations.
\<close>

definition starts :: "event list \<Rightarrow> nat" where
  "starts t = length (filter (\<lambda>ev. ev = Start) t)"





section \<open>Concrete inputs\<close>

text \<open>
  A portal that cannot be reached, and a portal given by the table of its answers, which
  answers 404 to every other URL.
\<close>

definition W0 :: world where
  "W0 = \<lparr>portal = (\<lambda>rq. Raises RequestException), py_repr = (\<lambda>v. []),
          py_int = (\<lambda>s. None), b64_json = (\<lambda>s n. [])\<rparr>"

definition table_portal :: "(string \<times> reply) list \<Rightarrow> request \<Rightarrow> reply" where
  "table_portal tab rq = (case map_of tab (url rq) of Some r \<Rightarrow> r | None \<Rightarrow> Reply 404 [] NotJson)"

definition world_of :: "(string \<times> reply) list \<Rightarrow> world" where
  "world_of tab = \<lparr>portal = table_portal tab, py_repr = (\<lambda>v. []),
     py_int = (\<lambda>s. if s = ''1'' then Some 1 else None), b64_json = (\<lambda>s n. ''e30='')\<rparr>"

text \<open>A live channel behind the local proxy, a link to a portal on localhost, and a portal with one genre and three channels.\<close>

definition news_channel :: json where
  "news_channel = JObj [(''name'', JStr ''Ch1''), (''tv_genre_id'', JStr ''1''),
     (''cmds'', JArr [JObj [(''url'', JStr ''ffmpeg http://localhost/ch/42_x'')]])]"

definition local_portal :: parse_result where
  "local_portal = \<lparr>scheme = ''http'', hostname = Some ''localhost'', port = Inr (Some 8080),
     path = ''/c/'', query = []\<rparr>"

definition live_world :: world where
  "live_world = world_of
     [(''http://portal:80/server/load.php?type=itv&action=get_genres&JsHttpRequest=1-xml'',
       Reply 200 ''text/javascript''
         (Json (JObj [(''js'', JArr [JObj [(''id'', JStr ''1''), (''title'', JStr ''News'')]])]))),
      (''http://portal:80/portal.php?type=itv&action=get_all_channels&JsHttpRequest=1-xml'',
       Reply 200 ''text/javascript''
         (Json (JObj [(''js'', JObj [(''data'', JArr [news_channel, news_channel, news_channel])])])))]"

text \<open>
  Movies: one whose \<open>create_link\<close> answer has a \<open>cmd\<close> of one token, one that resolves,
  and one the portal does not know; portals that serve them.
\<close>

definition bad_movie :: json where
  "bad_movie = JObj [(''name'', JStr ''Bad''), (''cmd'', JStr ''bad'')]"

definition good_movie :: json where
  "good_movie = JObj [(''name'', JStr ''Good''), (''cmd'', JStr ''good'')]"

definition lost_movie :: json where
  "lost_movie = JObj [(''name'', JStr ''Lost''), (''cmd'', JStr ''lost'')]"

definition movie_world :: world where
  "movie_world = world_of
     [(''http://portal:80/portal.php?type=vod&action=create_link&cmd=bad'',
       Reply 200 ''text/javascript'' (Json (JObj [(''js'', JObj [(''cmd'', JStr ''nolink'')])]))),
      (''http://portal:80/portal.php?type=vod&action=create_link&cmd=good'',
       Reply 200 ''text/javascript''
         (Json (JObj [(''js'', JObj [(''cmd'', JStr ''ffmpeg http://cdn/good.mp4'')])]))),
      (''http://portal:80/portal.php?type=vod&action=create_link&cmd=e30%3D&series=1'',
       Reply 200 ''text/html'' NotJson)]"

definition movies_category :: json where
  "movies_category = JObj [(''id'', JStr ''7''), (''title'', JStr ''Movies'')]"

definition paged_world :: world where
  "paged_world = world_of
     [(''http://portal:80/portal.php?type=vod&action=get_ordered_list&movie_id=0&season_id=0&episode_id=0&row=0&JsHttpRequest=1-xml&category=7&sortby=added&fav=0&hd=0&not_ended=0&abc=*&genre=*&years=*&search=&p=1'',
       Reply 200 ''text/javascript'' (Json (JObj [(''js'', JObj [(''data'', JArr [good_movie])])]))),
      (''http://portal:80/portal.php?type=vod&action=get_ordered_list&movie_id=0&season_id=0&episode_id=0&row=0&JsHttpRequest=1-xml&category=7&sortby=added&fav=0&hd=0&not_ended=0&abc=*&genre=*&years=*&search=&p=2'',
       Reply 200 ''text/javascript'' (Json (JObj [(''js'', JObj [(''data'', JArr [])])]))),
      (''http://portal:80/portal.php?type=vod&action=create_link&cmd=good'',
       Reply 200 ''text/javascript''
         (Json (JObj [(''js'', JObj [(''cmd'', JStr ''ffmpeg http://cdn/good.mp4'')])])))]"

definition mixed_world :: world where
  "mixed_world = world_of
     [(''http://portal:80/portal.php?type=vod&action=get_ordered_list&movie_id=0&season_id=0&episode_id=0&row=0&JsHttpRequest=1-xml&category=7&sortby=added&fav=0&hd=0&not_ended=0&abc=*&genre=*&years=*&search=&p=1'',
       Reply 200 ''text/javascript''
         (Json (JObj [(''js'', JObj [(''data'', JArr [good_movie, lost_movie])])]))),
      (''http://portal:80/portal.php?type=vod&action=create_link&cmd=good'',
       Reply 200 ''text/javascript''
         (Json (JObj [(''js'', JObj [(''cmd'', JStr ''ffmpeg http://cdn/good.mp4'')])])))]"

definition mixed_trace :: "event list" where
  \<open>mixed_trace =
     [Get (vod_list_rq ''http://portal:80'' [] ''7'' ''1''),
      Get (create_link_rq ''http://portal:80'' ''good''),
      Write ''#EXTINF:-1 tvg-logo="" group-title="Movies",Good\<newline>http://cdn/good.mp4\<newline>'',
      Get (create_link_rq ''http://portal:80'' ''lost''),
      Get (vod_list_rq ''http://portal:80'' [] ''7'' ''2'')]\<close>

text \<open>
  Runs of \<open>main\<close> for an https link with a path: against a portal whose handshake answer
  lacks the token, against a portal that cannot be reached, and against a portal with
  one category of one movie, with the trace of the last.
\<close>

definition portal_link :: parse_result where
  "portal_link = \<lparr>scheme = ''https'', hostname = Some ''portal'', port = Inr None,
     path = ''/c/'', query = []\<rparr>"



definition all_category :: json where
  "all_category = JObj [(''id'', JStr ''*''), (''title'', JStr ''All'')]"

definition portal_world :: world where
  "portal_world = world_of
     [(''http://portal:80/portal.php?action=handshake&type=stb&token=&JsHttpRequest=1-xml'',
       Reply 200 ''text/javascript'' (Json (JObj [(''js'', JObj [(''token'', JStr ''tok'')])]))),
      (''http://portal:80/portal.php?type=account_info&action=get_main_info&JsHttpRequest=1-xml'',
       Reply 200 ''text/javascript''
         (Json (JObj [(''js'', JObj [(''mac'', JStr ''00:1A:79:00:00:01''),
                                     (''phone'', JStr ''2030-01-01'')])]))),
      (''http://portal:80/portal.php?type=vod&action=get_categories&JsHttpRequest=1-xml'',
       Reply 200 ''text/javascript'' (Json (JObj [(''js'', JArr [all_category, movies_category])]))),
      (''http://portal:80/portal.php?type=vod&action=get_ordered_list&movie_id=0&season_id=0&episode_id=0&row=0&JsHttpRequest=1-xml&category=7&sortby=added&fav=0&hd=0&not_ended=0&abc=*&genre=*&years=*&search=&p=1'',
       Reply 200 ''text/javascript'' (Json (JObj [(''js'', JObj [(''data'', JArr [good_movie])])]))),
      (''http://portal:80/portal.php?type=vod&action=get_ordered_list&movie_id=0&season_id=0&episode_id=0&row=0&JsHttpRequest=1-xml&category=7&sortby=added&fav=0&hd=0&not_ended=0&abc=*&genre=*&years=*&search=&p=2'',
       Reply 200 ''text/javascript'' (Json (JObj [(''js'', JObj [(''data'', JArr [])])]))),
      (''http://portal:80/portal.php?type=vod&action=create_link&cmd=good'',
       Reply 200 ''text/javascript''
         (Json (JObj [(''js'', JObj [(''cmd'', JStr ''ffmpeg http://cdn/good.mp4'')])])))]"

definition movie_run :: attempt where
  "movie_run = \<lparr>net = portal_world, link = portal_link, typed_mac = ''00:1a:79:00:00:01'',
     can_open = True\<rparr>"

definition bearer_tok :: "(string \<times> string) list" where
  "bearer_tok = [(''Authorization'', ''Bearer tok'')]"

definition movie_trace :: "event list" where
  \<open>movie_trace =
     [Get (handshake_rq ''http://portal:80''),
      Get (account_rq ''http://portal:80'' bearer_tok),
      Get (vod_categories_rq ''http://portal:80'' bearer_tok),
      Write ''#EXTM3U\<newline>'',
      Get (vod_list_rq ''http://portal:80'' bearer_tok ''7'' ''1''),
      Get (create_link_rq ''http://portal:80'' ''good''),
      Write ''#EXTINF:-1 tvg-logo="" group-title="Movies",Good\<newline>http://cdn/good.mp4\<newline>'',
      Get (vod_list_rq ''http://portal:80'' bearer_tok ''7'' ''2'')]\<close>

text \<open>
  A category of series with one series of one season of two episodes, of which the
  portal resolves the first; \<open>show_cmd\<close> is the base64 text of
  \<open>{"series_id": "5", "season_num": 1, "type": "series"}\<close>.
\<close>

definition show_series :: json where
  "show_series = JObj [(''name'', JStr ''Show''), (''id'', JStr ''5:5''), (''category_id'', JStr ''9'')]"

definition show_season :: json where
  "show_season = JObj [(''id'', JStr ''5:1''), (''series'', JArr [JNum 1, JNum 2])]"

definition shows_category :: json where
  "shows_category = JObj [(''id'', JStr ''9''), (''title'', JStr ''Shows'')]"

definition show_cmd :: string where
  "show_cmd = ''eyJzZXJpZXNfaWQiOiAiNSIsICJzZWFzb25fbnVtIjogMSwgInR5cGUiOiAic2VyaWVzIn0=''"

definition series_world :: world where
  "series_world =
     \<lparr>portal = table_portal
        [(''http://portal:80/portal.php?type=series&action=get_ordered_list&movie_id=0&season_id=0&episode_id=0&row=0&JsHttpRequest=1-xml&category=9&sortby=added&fav=0&hd=0&not_ended=0&abc=*&genre=*&years=*&search=&p=1'',
          Reply 200 ''text/javascript'' (Json (JObj [(''js'', JObj [(''data'', JArr [show_series])])]))),
         (''http://portal:80/portal.php?type=series&action=get_ordered_list&movie_id=5&season_id=0&episode_id=0&row=0&JsHttpRequest=1-xml&category=9&sortby=added&fav=0&hd=0&not_ended=0&abc=*&genre=*&years=*&search=&p=1'',
          Reply 200 ''text/javascript'' (Json (JObj [(''js'', JObj [(''data'', JArr [show_season])])]))),
         (''http://portal:80/portal.php?type=vod&action=create_link&cmd=eyJzZXJpZXNfaWQiOiAiNSIsICJzZWFzb25fbnVtIjogMSwgInR5cGUiOiAic2VyaWVzIn0%3D&series=1'',
          Reply 200 ''text/javascript''
            (Json (JObj [(''js'', JObj [(''cmd'', JStr ''ffmpeg http://cdn/s1e1.mp4'')])])))],
      py_repr = (\<lambda>v. case v of JNum i \<Rightarrow> str_int i | _ \<Rightarrow> []),
      py_int = (\<lambda>s. if s = ''1'' then Some 1 else None),
      b64_json = (\<lambda>s n. show_cmd)\<rparr>"

definition show_ctx :: season_ctx where
  "show_ctx = \<lparr>series = show_series, series_title = JStr ''Show'', series_id = ''5'',
     season_num = ''1'', total_episodes = 2, category_title = JStr ''Shows''\<rparr>"

definition show_entry :: string where
  \<open>show_entry = ''#EXTINF:-1 tvg-type="serie" tvg-serie="5" tvg-season="1" tvg-episode="1" serie-title="Show" tvg-logo="" group-title="Shows",Show S1 E1\<newline>http://cdn/s1e1.mp4\<newline>''\<close>

definition series_trace :: "event list" where
  "series_trace =
     [Get (series_list_rq ''http://portal:80'' [] ''9'' ''1''),
      Get (seasons_rq ''http://portal:80'' [] ''5'' ''9''),
      Get (episode_rq ''http://portal:80''
             ''eyJzZXJpZXNfaWQiOiAiNSIsICJzZWFzb25fbnVtIjogMSwgInR5cGUiOiAic2VyaWVzIn0%3D'' ''1''),
      Write show_entry,
      Get (episode_rq ''http://portal:80''
             ''eyJzZXJpZXNfaWQiOiAiNSIsICJzZWFzb25fbnVtIjogMSwgInR5cGUiOiAic2VyaWVzIn0%3D'' ''2''),
      Get (series_list_rq ''http://portal:80'' [] ''9'' ''2'')]"

section \<open>The pattern search\<close>

lemma match_ch_Some:
  assumes "match_ch s = Some ds"
  shows "digits ds \<and> (\<exists>post. s = ''/ch/'' @ ds @ ''_'' @ post)"
proof -
  from assms have p: "prefix ''/ch/'' s"
    by (simp add: match_ch_def split: if_splits)
  then obtain r where s: "s = ''/ch/'' @ r"
    by (auto simp: prefix_def)
  from assms s have ds: "ds = takeWhile is_digit r" "ds \<noteq> []"
    and u: "prefix ''_'' (dropWhile is_digit r)"
    by (auto simp: match_ch_def Let_def split: if_splits)
  from u obtain post where "dropWhile is_digit r = ''_'' @ post"
    by (auto simp: prefix_def)
  then have "r = ds @ ''_'' @ post"
    using takeWhile_dropWhile_id [of is_digit r] ds(1) by simp
  moreover have "\<forall>c \<in> set ds. is_digit c"
    using ds(1) by (auto dest: set_takeWhileD)
  ultimately show ?thesis
    using s ds(2) by (simp add: digits_def)
qed

lemma match_ch_complete:
  assumes "digits ds"
  shows "match_ch (''/ch/'' @ ds @ ''_'' @ post) = Some ds"
proof -
  have nd: "\<not> is_digit CHR ''_''"
    by (simp add: is_digit_def)
  have all: "\<And>c. c \<in> set ds \<Longrightarrow> is_digit c" and ne: "ds \<noteq> []"
    using assms by (auto simp: digits_def)
  have "takeWhile is_digit (ds @ CHR ''_'' # post) = ds"
    using all nd by simp
  moreover have "dropWhile is_digit (ds @ CHR ''_'' # post) = CHR ''_'' # post"
    using all nd by simp
  ultimately show ?thesis
    using ne by (simp add: match_ch_def)
qed

lemma re_search_ch_Some:
  "re_search_ch s = Some ds \<Longrightarrow>
     digits ds \<and>
     (\<exists>pre post. s = pre @ ''/ch/'' @ ds @ ''_'' @ post \<and>
        (\<forall>pre' ds' post'. s = pre' @ ''/ch/'' @ ds' @ ''_'' @ post' \<and> digits ds'
            \<longrightarrow> length pre \<le> length pre'))"
proof (induction s)
  case Nil
  then show ?case by simp
next
  case (Cons c s)
  show ?case
  proof (cases "match_ch (c # s)")
    case (Some d)
    with Cons.prems have "d = ds" by simp
    with Some match_ch_Some [of "c # s" ds]
    obtain post where "digits ds" "c # s = [] @ ''/ch/'' @ ds @ ''_'' @ post"
      by auto
    then show ?thesis
      by (metis list.size(3) le0)
  next
    case None
    with Cons.prems have "re_search_ch s = Some ds" by simp
    from Cons.IH [OF this] obtain pre post where d: "digits ds"
      and s: "s = pre @ ''/ch/'' @ ds @ ''_'' @ post"
      and least: "\<And>pre' ds' post'. s = pre' @ ''/ch/'' @ ds' @ ''_'' @ post' \<Longrightarrow> digits ds'
            \<Longrightarrow> length pre \<le> length pre'"
      by blast
    have "length (c # pre) \<le> length pre'"
      if eq: "c # s = pre' @ ''/ch/'' @ ds' @ ''_'' @ post'" and d': "digits ds'"
      for pre' ds' post'
    proof (cases pre')
      case Nil
      with eq match_ch_complete [OF d', of post'] None show ?thesis by simp
    next
      case (Cons a p)
      with eq have "s = p @ ''/ch/'' @ ds' @ ''_'' @ post'" by simp
      from least [OF this d'] Cons show ?thesis by simp
    qed
    moreover have "c # s = (c # pre) @ ''/ch/'' @ ds @ ''_'' @ post"
      using s by simp
    ultimately show ?thesis
      using d by blast
  qed
qed

lemma re_search_ch_complete:
  "digits ds \<Longrightarrow> re_search_ch (pre @ ''/ch/'' @ ds @ ''_'' @ post) \<noteq> None"
proof (induction pre)
  case Nil
  then show ?case
    using match_ch_complete [of ds post] by simp
next
  case (Cons c pre)
  then show ?case
    by (cases "match_ch (c # pre @ ''/ch/'' @ ds @ ''_'' @ post)") auto
qed


section \<open>Live channels\<close>

lemma getitem_obj: "getitem v k = Inr x \<Longrightarrow> \<exists>kvs. v = JObj kvs"
  by (cases v) auto

text \<open>
  Claim C5. A channel whose command URL, once \<open>ffmpeg \<close> is removed from it, contains
  \<open>localhost\<close> and a piece \<open>/ch/<digits>_\<close> is written with the URL
  \<open>{base_url}/play/live.php?mac={mac}&stream={id}&extension=ts\<close>, where \<open>id\<close> is the run of
  digits of the leftmost such piece; the line before it carries the logo, the title of the
  channel's group and the name. The witness is the channel \<open>Ch1\<close> of the group \<open>News\<close>
  with the command \<open>ffmpeg http://localhost/ch/42_x\<close>.
\<close>

theorem local_channel_rewritten:
  assumes "getitem channel ''tv_genre_id'' = Inr group_id"
    and "group_get group_info group_id = Inr group_name"
    and "getitem channel ''name'' = Inr name"
    and "getitem channel ''cmds'' = Inr cmds"
    and "getitem0 cmds = Inr cmd0"
    and "getitem cmd0 ''url'' = Inr (JStr u)"
    and "sublist ''localhost'' (replace ''ffmpeg '' [] u)"
    and "replace ''ffmpeg '' [] u = pre @ ''/ch/'' @ ds @ ''_'' @ post"
    and "digits ds"
  shows \<open>\<exists>ch_id pre' post' logo.
           digits ch_id \<and> replace ''ffmpeg '' [] u = pre' @ ''/ch/'' @ ch_id @ ''_'' @ post'
           \<and> length pre' \<le> length pre
           \<and> dict_get channel ''logo'' (JStr []) = Inr logo
           \<and> channel_str W base_url mac group_info channel =
               Inr (''#EXTINF:-1 tvg-logo="'' @ fmt W logo @ ''" group-title="'' @ fmt W group_name
                    @ ''",'' @ fmt W name @ ''\<newline>''
                    @ base_url @ ''/play/live.php?mac='' @ mac @ ''&stream='' @ ch_id @ ''&extension=ts''
                    @ ''\<newline>'')\<close>
proof -
  let ?s = "replace ''ffmpeg '' [] u"
  have "re_search_ch ?s \<noteq> None"
    using re_search_ch_complete [OF assms(9), of pre post] assms(8) by simp
  then obtain ch_id where found: "re_search_ch ?s = Some ch_id"
    by auto
  from re_search_ch_Some [OF this] obtain pre' post' where d: "digits ch_id"
    and eq: "?s = pre' @ ''/ch/'' @ ch_id @ ''_'' @ post'"
    and least: "\<And>p d q. ?s = p @ ''/ch/'' @ d @ ''_'' @ q \<Longrightarrow> digits d \<Longrightarrow> length pre' \<le> length p"
    by blast
  have le: "length pre' \<le> length pre"
    using least [OF assms(8) assms(9)] .
  from getitem_obj [OF assms(1)] obtain kvs where ch: "channel = JObj kvs"
    by blast
  define logo where "logo = (case map_of kvs ''logo'' of Some v \<Rightarrow> v | None \<Rightarrow> JStr [])"
  have lg: "dict_get channel ''logo'' (JStr []) = Inr logo"
    by (simp add: ch logo_def split: option.splits)
  have \<open>channel_str W base_url mac group_info channel =
               Inr (''#EXTINF:-1 tvg-logo="'' @ fmt W logo @ ''" group-title="'' @ fmt W group_name
                    @ ''",'' @ fmt W name @ ''\<newline>''
                    @ base_url @ ''/play/live.php?mac='' @ mac @ ''&stream='' @ ch_id @ ''&extension=ts''
                    @ ''\<newline>'')\<close>
    using assms(1-7) lg found
    by (simp add: channel_str_def bind_exn_def strip_ffmpeg_def rewrite_local_def)
  with d eq le lg show ?thesis
    by blast
qed

theorem local_channel_rewritten_witness:
  \<open>sublist ''localhost'' (replace ''ffmpeg '' [] ''ffmpeg http://localhost/ch/42_x'')
   \<and> replace ''ffmpeg '' [] ''ffmpeg http://localhost/ch/42_x'' = ''http://localhost'' @ ''/ch/'' @ ''42'' @ ''_'' @ ''x''
   \<and> digits ''42''
   \<and> (\<exists>ch_id pre' post' logo.
           digits ch_id
           \<and> replace ''ffmpeg '' [] ''ffmpeg http://localhost/ch/42_x'' = pre' @ ''/ch/'' @ ch_id @ ''_'' @ post'
           \<and> length pre' \<le> length ''http://localhost''
           \<and> dict_get news_channel ''logo'' (JStr []) = Inr logo
           \<and> channel_str W0 ''http://portal:80'' ''00:1A:79:00:00:01'' [(JStr ''1'', JStr ''News'')] news_channel =
               Inr (''#EXTINF:-1 tvg-logo="'' @ fmt W0 logo @ ''" group-title="'' @ fmt W0 (JStr ''News'')
                    @ ''",'' @ fmt W0 (JStr ''Ch1'') @ ''\<newline>''
                    @ ''http://portal:80'' @ ''/play/live.php?mac='' @ ''00:1A:79:00:00:01'' @ ''&stream='' @ ch_id
                    @ ''&extension=ts'' @ ''\<newline>''))\<close>
proof -
  let ?u = "''ffmpeg http://localhost/ch/42_x''"
  let ?cmd0 = "JObj [(''url'', JStr ?u)]"
  have h1: "getitem news_channel ''tv_genre_id'' = Inr (JStr ''1'')"
    by (simp add: news_channel_def)
  have h2: "group_get [(JStr ''1'', JStr ''News'')] (JStr ''1'') = Inr (JStr ''News'')"
    by (simp add: group_get_def)
  have h3: "getitem news_channel ''name'' = Inr (JStr ''Ch1'')"
    by (simp add: news_channel_def)
  have h4: "getitem news_channel ''cmds'' = Inr (JArr [?cmd0])"
    by (simp add: news_channel_def)
  have h5: "getitem0 (JArr [?cmd0]) = Inr ?cmd0"
    by simp
  have h6: "getitem ?cmd0 ''url'' = Inr (JStr ?u)"
    by simp
  have h7: "sublist ''localhost'' (replace ''ffmpeg '' [] ?u)"
    by (simp add: sublist_Cons_right)
  have h8: "replace ''ffmpeg '' [] ?u = ''http://localhost'' @ ''/ch/'' @ ''42'' @ ''_'' @ ''x''"
    by simp
  have h9: "digits ''42''"
    by (simp add: digits_def is_digit_def)
  from local_channel_rewritten [OF h1 h2 h3 h4 h5 h6 h7 h8 h9, of W0 "''http://portal:80''" "''00:1A:79:00:00:01''"]
    h7 h8 h9
  show ?thesis
    by blast
qed

text \<open>The same channel through \<open>save_channel_list\<close>, for any base URL and MAC address:
  the header, then the entry of the group \<open>News\<close> with the stream 42.\<close>

lemma scenario_A:
  \<open>save_channel_list W True base_url (JArr [news_channel]) [(JStr ''1'', JStr ''News'')] mac =
     ([Write ''#EXTM3U\<newline>'',
       Write (''#EXTINF:-1 tvg-logo="" group-title="News",Ch1\<newline>'' @ base_url
              @ ''/play/live.php?mac='' @ mac @ ''&stream=42&extension=ts\<newline>'')], Inr ())\<close>
  by (simp add: save_channel_list_def io_bind_def file_write_def lift_def news_channel_def
      channel_str_def bind_exn_def group_get_def strip_ffmpeg_def fmt_def rewrite_local_def
      match_ch_def is_digit_def sublist_Cons_right)

section \<open>The rewritten URL is not rewritten again\<close>

lemma sublist_cut_right:
  assumes "p \<noteq> []" "last p \<notin> set ys" "sublist p (xs @ ys)"
  shows "sublist p xs"
proof -
  from assms(3) consider "sublist p xs" | "sublist p ys"
    | p1 p2 where "p = p1 @ p2" "suffix p1 xs" "prefix p2 ys"
    using sublist_append [of p xs ys] by blast
  then show ?thesis
  proof cases
    case 1
    then show ?thesis .
  next
    case 2
    then have "set p \<subseteq> set ys" by (rule set_mono_sublist)
    with assms(1,2) show ?thesis
      using last_in_set by blast
  next
    case 3
    show ?thesis
    proof (cases "p2 = []")
      case True
      with 3 show ?thesis by (auto simp: suffix_imp_sublist)
    next
      case False
      with 3(1) have "last p = last p2" by simp
      moreover from 3(3) have "set p2 \<subseteq> set ys" by (rule set_mono_prefix)
      ultimately show ?thesis
        using False assms(2) last_in_set by fastforce
    qed
  qed
qed

lemma upper_char_not_c: "upper_char x \<noteq> CHR ''c''"
  by (simp add: upper_char_def)

lemma c_notin_upper: "CHR ''c'' \<notin> set (upper s)"
proof
  assume "CHR ''c'' \<in> set (upper s)"
  then obtain x where "upper_char x = CHR ''c''"
    by (auto simp: upper_def)
  with upper_char_not_c show False by blast
qed

lemma digit_char_is_digit: "d < 10 \<Longrightarrow> is_digit (digit_char d)"
proof -
  assume "d < 10"
  then have "d \<in> {0, 1, 2, 3, 4, 5, 6, 7, 8, 9}" by auto
  then show ?thesis
    by (auto simp: digit_char_def is_digit_def)
qed

lemma digits_dec: "digits (dec n)"
proof (induction n rule: dec.induct)
  case (1 n)
  show ?case
  proof (cases "n < 10")
    case True
    then show ?thesis
      by (subst dec.simps) (simp add: digits_def digit_char_is_digit)
  next
    case False
    with 1 have "digits (dec (n div 10))" by simp
    moreover have "is_digit (digit_char (n mod 10))"
      by (simp add: digit_char_is_digit)
    ultimately show ?thesis
      using False by (subst dec.simps) (auto simp: digits_def)
  qed
qed

lemma slash_not_digit: "digits ds \<Longrightarrow> CHR ''/'' \<notin> set ds"
  by (auto simp: digits_def is_digit_def)

lemma digits_last: "digits ds \<Longrightarrow> last ds \<noteq> CHR ''h''"
proof -
  assume d: "digits ds"
  then have "last ds \<in> set ds" by (simp add: digits_def)
  with d have "is_digit (last ds)" by (simp add: digits_def)
  then show ?thesis by (auto simp: is_digit_def)
qed

lemma no_ch_in_tail:
  assumes "CHR ''c'' \<notin> set mac" "digits ch_id"
  shows "\<not> sublist ''/ch/'' (''/play/live.php?mac='' @ mac @ ''&stream='' @ ch_id @ ''&extension=ts'')"
proof
  assume "sublist ''/ch/'' (''/play/live.php?mac='' @ mac @ ''&stream='' @ ch_id @ ''&extension=ts'')"
  then have "sublist ''/ch/'' ((''/play/live.php?mac='' @ mac) @ (''&stream='' @ ch_id @ ''&extension=ts''))"
    by simp
  moreover have "last ''/ch/'' \<notin> set (''&stream='' @ ch_id @ ''&extension=ts'')"
    using slash_not_digit [OF assms(2)] by simp
  ultimately have "sublist ''/ch/'' (''/play/live.php?mac='' @ mac)"
    using sublist_cut_right [of "''/ch/''"] by blast
  then have "sublist ''/ch/'' mac"
    by (simp add: sublist_Cons_right)
  then have "set ''/ch/'' \<subseteq> set mac"
    by (rule set_mono_sublist)
  with assms(1) show False by simp
qed

lemma no_ch_in_head:
  assumes "CHR ''/'' \<notin> set host" "digits p"
  shows "\<not> sublist ''/ch/'' (''http://'' @ host @ '':'' @ p)"
proof
  assume a: "sublist ''/ch/'' (''http://'' @ host @ '':'' @ p)"
  have ns: "CHR ''/'' \<notin> set (host @ '':'' @ p)"
    using assms slash_not_digit by simp
  from a have "prefix ''ch/'' (host @ '':'' @ p) \<or> sublist ''/ch/'' (host @ '':'' @ p)"
    by (simp add: sublist_Cons_right)
  then show False
  proof
    assume "prefix ''ch/'' (host @ '':'' @ p)"
    then have "set ''ch/'' \<subseteq> set (host @ '':'' @ p)" by (rule set_mono_prefix)
    with ns show False by simp
  next
    assume "sublist ''/ch/'' (host @ '':'' @ p)"
    then have "set ''/ch/'' \<subseteq> set (host @ '':'' @ p)" by (rule set_mono_sublist)
    with ns show False by simp
  qed
qed

lemma split_ch:
  assumes "''/ch/'' = p1 @ p2"
  shows "p2 = [] \<or> p2 = ''/'' \<and> p1 = ''/ch'' \<or> hd p2 \<noteq> CHR ''/'' \<or> p1 = []"
  using assms by (auto simp: Cons_eq_append_conv)

lemma no_ch_in_output:
  assumes "CHR ''/'' \<notin> set host" "digits p" "CHR ''c'' \<notin> set mac" "digits ch_id"
  shows "\<not> sublist ''/ch/''
           ((''http://'' @ host @ '':'' @ p) @ ''/play/live.php?mac='' @ mac @ ''&stream='' @ ch_id @ ''&extension=ts'')"
    (is "\<not> sublist _ (?C @ ?R)")
proof
  assume "sublist ''/ch/'' (?C @ ?R)"
  then consider "sublist ''/ch/'' ?C" | "sublist ''/ch/'' ?R"
    | p1 p2 where "''/ch/'' = p1 @ p2" "suffix p1 ?C" "prefix p2 ?R"
    using sublist_append [of "''/ch/''" ?C ?R] by blast
  then show False
  proof cases
    case 1
    with no_ch_in_head [OF assms(1,2)] show False by simp
  next
    case 2
    with no_ch_in_tail [OF assms(3,4)] show False by simp
  next
    case 3
    from split_ch [OF 3(1)] show False
    proof (elim disjE conjE)
      assume "p2 = []"
      with 3 have "sublist ''/ch/'' ?C" by (auto simp: suffix_imp_sublist)
      with no_ch_in_head [OF assms(1,2)] show False by simp
    next
      assume "p2 = ''/''" "p1 = ''/ch''"
      with 3(2) have "suffix ''/ch'' ((''http://'' @ host @ '':'') @ p)" by simp
      moreover have "p \<noteq> []" using assms(2) by (simp add: digits_def)
      ultimately have "last p = CHR ''h''"
        by (auto simp: suffix_def) (metis last_appendR last_snoc append.assoc append_Cons append_Nil)
      with digits_last [OF assms(2)] show False by simp
    next
      assume "hd p2 \<noteq> CHR ''/''"
      moreover from 3(3) have "p2 = [] \<or> hd p2 = CHR ''/''"
        by (cases p2) auto
      ultimately have "p2 = []" by blast
      with 3 have "sublist ''/ch/'' ?C" by (auto simp: suffix_imp_sublist)
      with no_ch_in_head [OF assms(1,2)] show False by simp
    next
      assume "p1 = []"
      with 3 have "sublist ''/ch/'' ?R" by auto
      with no_ch_in_tail [OF assms(3,4)] show False by simp
    qed
  qed
qed


lemma rewritten_is_fixed:
  assumes "CHR ''/'' \<notin> set host" "digits p" "CHR ''c'' \<notin> set mac" "digits ch_id"
    and "base_url = ''http://'' @ host @ '':'' @ p"
  shows "rewrite_local base_url mac
           (base_url @ ''/play/live.php?mac='' @ mac @ ''&stream='' @ ch_id @ ''&extension=ts'')
         = base_url @ ''/play/live.php?mac='' @ mac @ ''&stream='' @ ch_id @ ''&extension=ts''"
    (is "rewrite_local _ _ ?out = _")
proof -
  have "re_search_ch ?out = None"
  proof (rule ccontr)
    assume "re_search_ch ?out \<noteq> None"
    then obtain ds where "re_search_ch ?out = Some ds" by auto
    from re_search_ch_Some [OF this] obtain pre post
      where "?out = pre @ ''/ch/'' @ ds @ ''_'' @ post" by blast
    then have "sublist ''/ch/'' ?out"
      unfolding sublist_def by blast
    with no_ch_in_output [OF assms(1-4)] assms(5) show False by simp
  qed
  then show ?thesis
    by (simp add: rewrite_local_def)
qed

lemma maclist_base_url_form:
  assumes "maclist_get_base_url p = Inr base_url"
  shows "\<exists>n. base_url = ''http://'' @ (case hostname p of None \<Rightarrow> ''None'' | Some h \<Rightarrow> h) @ '':'' @ dec n"
  using assms by (auto simp: maclist_get_base_url_def bind_exn_def split: sum.splits)

text \<open>
  Claim C6. The rewrite of a local-proxy URL is idempotent: with the base URL that
  \<open>get_base_url\<close> derives (the host that \<open>urlparse\<close> finds has no slash) and the MAC
  address in upper case, as \<open>main\<close> passes them, rewriting the rewritten URL returns it
  unchanged.
\<close>

theorem rewrite_local_idempotent:
  assumes "maclist_get_base_url p = Inr base_url"
    and "\<forall>h. hostname p = Some h \<longrightarrow> CHR ''/'' \<notin> set h"
    and "mac = get_mac_address typed"
  shows "rewrite_local base_url mac (rewrite_local base_url mac u) = rewrite_local base_url mac u"
proof (cases "sublist ''localhost'' u")
  case False
  then show ?thesis by (simp add: rewrite_local_def)
next
  case True
  show ?thesis
  proof (cases "re_search_ch u")
    case None
    with True show ?thesis by (simp add: rewrite_local_def)
  next
    case (Some ch_id)
    define host where "host = (case hostname p of None \<Rightarrow> ''None'' | Some h \<Rightarrow> h)"
    from maclist_base_url_form [OF assms(1)] obtain n
      where b: "base_url = ''http://'' @ host @ '':'' @ dec n"
      by (auto simp: host_def)
    have h: "CHR ''/'' \<notin> set host"
      using assms(2) by (auto simp: host_def split: option.splits)
    have m: "CHR ''c'' \<notin> set mac"
      by (simp add: assms(3) get_mac_address_def c_notin_upper)
    have d: "digits ch_id"
      using re_search_ch_Some [OF Some] by blast
    have "rewrite_local base_url mac u =
            base_url @ ''/play/live.php?mac='' @ mac @ ''&stream='' @ ch_id @ ''&extension=ts''"
      using True Some by (simp add: rewrite_local_def)
    with rewritten_is_fixed [OF h digits_dec m d b] show ?thesis
      by simp
  qed
qed

theorem rewrite_local_idempotent_witness:
  "maclist_get_base_url local_portal = Inr ''http://localhost:8080''
   \<and> hostname local_portal = Some ''localhost''
   \<and> CHR ''/'' \<notin> set ''localhost''
   \<and> ''00:1A:79:AB:CD:EF'' = get_mac_address ''00:1a:79:ab:cd:ef''
   \<and> rewrite_local ''http://localhost:8080'' ''00:1A:79:AB:CD:EF'' ''http://localhost/ch/42_x''
        = ''http://localhost:8080/play/live.php?mac=00:1A:79:AB:CD:EF&stream=42&extension=ts''
   \<and> rewrite_local ''http://localhost:8080'' ''00:1A:79:AB:CD:EF''
         (rewrite_local ''http://localhost:8080'' ''00:1A:79:AB:CD:EF'' ''http://localhost/ch/42_x'')
        = rewrite_local ''http://localhost:8080'' ''00:1A:79:AB:CD:EF'' ''http://localhost/ch/42_x''"
proof -
  have h1: "maclist_get_base_url local_portal = Inr ''http://localhost:8080''"
    by (simp add: maclist_get_base_url_def local_portal_def bind_exn_def dec.simps digit_char_def)
  have h2: "\<forall>h. hostname local_portal = Some h \<longrightarrow> CHR ''/'' \<notin> set h"
    by (simp add: local_portal_def)
  have h3: "''00:1A:79:AB:CD:EF'' = get_mac_address ''00:1a:79:ab:cd:ef''"
    by (simp add: get_mac_address_def upper_def upper_char_def)
  have r: "rewrite_local ''http://localhost:8080'' ''00:1A:79:AB:CD:EF'' ''http://localhost/ch/42_x''
        = ''http://localhost:8080/play/live.php?mac=00:1A:79:AB:CD:EF&stream=42&extension=ts''"
    by (simp add: rewrite_local_def sublist_Cons_right match_ch_def is_digit_def)
  have h4: "hostname local_portal = Some ''localhost''" and h5: "CHR ''/'' \<notin> set ''localhost''"
    by (simp_all add: local_portal_def)
  from rewrite_local_idempotent [OF h1 h2 h3, of "''http://localhost/ch/42_x''"] h1 h3 h4 h5 r
  show ?thesis
    by blast
qed

section \<open>The requests of the channel crawler\<close>

lemma io_bind_events:
  "fst (io_bind m f) = (case snd m of Inl e \<Rightarrow> fst m | Inr x \<Rightarrow> fst m @ fst (f x))"
  by (cases m) (auto simp: io_bind_def split: sum.splits prod.splits)

lemma io_bind_result:
  "snd (io_bind m f) = (case snd m of Inl e \<Rightarrow> Inl e | Inr x \<Rightarrow> snd (f x))"
  by (cases m) (auto simp: io_bind_def split: sum.splits prod.splits)

lemma catch_events: "fst (catch m h d) = fst m"
  by (cases m) (auto simp: catch_def split: sum.splits)

lemma catch_result:
  "snd (catch m h d) = (case snd m of Inl e \<Rightarrow> if h e then Inr d else Inl e | Inr x \<Rightarrow> Inr x)"
  by (cases m) (auto simp: catch_def split: sum.splits)

lemma lift_events: "fst (lift r) = []" and lift_result: "snd (lift r) = r"
  by (simp_all add: lift_def)

lemma session_get_events: "fst (session_get W rq) = [Get rq]"
  by (simp add: session_get_def)

lemma session_get_result:
  "snd (session_get W rq) = (case portal W rq of Raises e \<Rightarrow> Inl e | Reply st ct b \<Rightarrow> Inr (st, ct, b))"
  by (simp add: session_get_def)

lemmas io_simps = io_bind_events io_bind_result catch_events catch_result lift_events lift_result
  session_get_events session_get_result

lemma bind_exn_simps [simp]:
  "bind_exn (Inl e) f = Inl e"
  "bind_exn (Inr x) f = f x"
  by (simp_all add: bind_exn_def)

text \<open>
  Claim C9. \<open>get_channel_list\<close> sends the request for the genres and then at most one
  request for all the channels, whatever the portal answers and however many channels it
  holds; when it returns a channel list it has sent exactly these two requests. The
  channel crawler has no page loop.
\<close>

theorem live_channels_one_request:
  "(fst (get_channel_list W base_url hdrs) = [Get (genres_rq base_url hdrs)]
    \<or> fst (get_channel_list W base_url hdrs) = [Get (genres_rq base_url hdrs), Get (channels_rq base_url hdrs)])
   \<and> (\<forall>channels_data group_info.
         snd (get_channel_list W base_url hdrs) = Inr (Some (channels_data, group_info))
         \<longrightarrow> fst (get_channel_list W base_url hdrs)
               = [Get (genres_rq base_url hdrs), Get (channels_rq base_url hdrs)])"
  by (auto simp: get_channel_list_def genres_rq_def channels_rq_def io_simps Let_def
        split: sum.splits reply.splits)

theorem live_channels_one_request_witness:
  "snd (get_channel_list live_world ''http://portal:80'' []) =
      Inr (Some (JArr [news_channel, news_channel, news_channel], [(JStr ''1'', JStr ''News'')]))
   \<and> fst (get_channel_list live_world ''http://portal:80'' [])
       = [Get (genres_rq ''http://portal:80'' []), Get (channels_rq ''http://portal:80'' [])]"
proof -
  have h: "snd (get_channel_list live_world ''http://portal:80'' []) =
      Inr (Some (JArr [news_channel, news_channel, news_channel], [(JStr ''1'', JStr ''News'')]))"
    by (simp add: get_channel_list_def live_world_def world_of_def table_portal_def
        io_simps loads_def)
  from live_channels_one_request [of live_world "''http://portal:80''" "[]"] h
  show ?thesis by blast
qed

section \<open>The stream resolver on a malformed response\<close>

lemma quote_plain: "quote (JStr ''bad'') = Inr ''bad''" "quote (JStr ''good'') = Inr ''good''"
  by (simp_all add: quote_def quote_str_def quote_char_def unreserved_def)

lemma quote_e30: "quote_str ''e30='' = ''e30%3D''"
  by (simp add: quote_str_def quote_char_def unreserved_def hex_digit_def)

text \<open>
  Claim C3, at the input that fails. The portal answers the \<open>create_link\<close> request of the
  first movie with status 200 and \<open>{"js": {"cmd": "nolink"}}\<close>, a \<open>cmd\<close> of one token:
  \<open>fetch_play_link\<close> raises \<open>IndexError\<close> instead of returning \<open>None\<close>, and
  \<open>save_vod_list\<close> ends with it before it asks for the link of the second movie, which
  the portal would resolve. In \<open>macshow.py\<close> a body that is not JSON leaves
  \<open>fetch_play_link\<close> as \<open>JSONDecodeError\<close>.
\<close>

theorem malformed_link_aborts_batch:
  "fetch_play_link movie_world ''http://portal:80'' (JStr ''bad'') =
     ([Get \<lparr>url = ''http://portal:80/portal.php?type=vod&action=create_link&cmd=bad'', headers = []\<rparr>],
      Inl IndexError)
   \<and> fetch_play_link movie_world ''http://portal:80'' (JStr ''good'') =
     ([Get \<lparr>url = ''http://portal:80/portal.php?type=vod&action=create_link&cmd=good'', headers = []\<rparr>],
      Inr (Some ''http://cdn/good.mp4''))
   \<and> save_vod_list movie_world (JArr [bad_movie, good_movie]) ''http://portal:80'' (JStr ''Movies'') =
     ([Get \<lparr>url = ''http://portal:80/portal.php?type=vod&action=create_link&cmd=bad'', headers = []\<rparr>],
      Inl IndexError)
   \<and> show_fetch_play_link movie_world ''http://portal:80'' ''e30='' (JStr ''1'') =
     ([Get \<lparr>url = ''http://portal:80/portal.php?type=vod&action=create_link&cmd=e30%3D&series=1'',
             headers = []\<rparr>],
      Inl JSONDecodeError)"
proof -
  have bad: "fetch_play_link movie_world ''http://portal:80'' (JStr ''bad'') =
     ([Get \<lparr>url = ''http://portal:80/portal.php?type=vod&action=create_link&cmd=bad'', headers = []\<rparr>],
      Inl IndexError)"
    by (simp add: fetch_play_link_def quote_plain prod_eq_iff io_simps movie_world_def world_of_def
        table_portal_def loads_def second_token_def)
  have good: "fetch_play_link movie_world ''http://portal:80'' (JStr ''good'') =
     ([Get \<lparr>url = ''http://portal:80/portal.php?type=vod&action=create_link&cmd=good'', headers = []\<rparr>],
      Inr (Some ''http://cdn/good.mp4''))"
    by (simp add: fetch_play_link_def quote_plain prod_eq_iff io_simps movie_world_def world_of_def
        table_portal_def loads_def second_token_def)
  have item: "vod_item movie_world ''http://portal:80'' bad_movie =
     ([Get \<lparr>url = ''http://portal:80/portal.php?type=vod&action=create_link&cmd=bad'', headers = []\<rparr>],
      Inl IndexError)"
    by (simp add: vod_item_def bad_movie_def bad prod_eq_iff io_simps)
  have batch: "save_vod_list movie_world (JArr [bad_movie, good_movie]) ''http://portal:80'' (JStr ''Movies'') =
     ([Get \<lparr>url = ''http://portal:80/portal.php?type=vod&action=create_link&cmd=bad'', headers = []\<rparr>],
      Inl IndexError)"
    by (simp add: save_vod_list_def item prod_eq_iff io_simps)
  have episode: "show_fetch_play_link movie_world ''http://portal:80'' ''e30='' (JStr ''1'') =
     ([Get \<lparr>url = ''http://portal:80/portal.php?type=vod&action=create_link&cmd=e30%3D&series=1'',
             headers = []\<rparr>],
      Inl JSONDecodeError)"
    by (simp add: show_fetch_play_link_def quote_e30 prod_eq_iff io_simps movie_world_def world_of_def
        table_portal_def loads_def fmt_def)
  from bad good batch episode show ?thesis by blast
qed

section \<open>Entries written and items resolved\<close>

lemma writes_simps [simp]:
  "writes [] = []"
  "writes (Write s # t) = s # writes t"
  "writes (Get rq # t) = writes t"
  "writes (Start # t) = writes t"
  "writes (t @ t') = writes t @ writes t'"
  by (simp_all add: writes_def)

lemmas io_defs = io_bind_def catch_def lift_def session_get_def Let_def

lemmas io_splits = sum.splits reply.splits prod.splits if_splits

lemma get_token_events:
  "fst (get_token W base_url) =
     [Get \<lparr>url = base_url @ ''/portal.php?action=handshake&type=stb&token=&JsHttpRequest=1-xml'',
           headers = []\<rparr>]"
  by (auto simp: get_token_def io_defs split: io_splits)

lemma show_get_token_events:
  "fst (show_get_token W base_url) =
     [Get \<lparr>url = base_url @ ''/portal.php?action=handshake&type=stb&token=&JsHttpRequest=1-xml'',
           headers = []\<rparr>]"
  by (auto simp: show_get_token_def io_defs split: io_splits)

lemma get_subscription_events:
  "fst (get_subscription W base_url token) =
     [Get \<lparr>url = base_url @ ''/portal.php?type=account_info&action=get_main_info&JsHttpRequest=1-xml'',
           headers = auth W token\<rparr>]"
  by (auto simp: get_subscription_def io_defs split: io_splits)

lemma show_get_subscription_events:
  "fst (show_get_subscription W base_url token) =
     [Get \<lparr>url = base_url @ ''/portal.php?type=account_info&action=get_main_info&JsHttpRequest=1-xml'',
           headers = auth W token\<rparr>]"
  by (auto simp: show_get_subscription_def io_defs split: io_splits)

lemma get_vod_categories_events:
  "fst (get_vod_categories W base_url hdrs) =
     [Get \<lparr>url = base_url @ ''/portal.php?type=vod&action=get_categories&JsHttpRequest=1-xml'',
           headers = hdrs\<rparr>]"
  by (auto simp: get_vod_categories_def io_defs split: io_splits)

lemma get_series_categories_events:
  "fst (get_series_categories W base_url hdrs) =
     [Get \<lparr>url = base_url @ ''/portal.php?type=series&action=get_categories&JsHttpRequest=1-xml'',
           headers = hdrs\<rparr>]"
  by (auto simp: get_series_categories_def io_defs split: io_splits)

lemma get_vod_list_events:
  "fst (get_vod_list W base_url hdrs category_id page) =
     [Get \<lparr>url = vod_list_url W base_url category_id page, headers = hdrs\<rparr>]"
  by (auto simp: get_vod_list_def io_defs split: io_splits)

lemma get_series_list_events:
  "fst (get_series_list W base_url hdrs category_id page) =
     [Get \<lparr>url = series_list_url W base_url category_id page, headers = hdrs\<rparr>]"
  by (auto simp: get_series_list_def io_defs split: io_splits)

lemma get_seasons_episodes_events:
  "fst (get_seasons_episodes W base_url hdrs sid category_id) =
     [Get \<lparr>url = base_url @ ''/portal.php?type=series&action=get_ordered_list&movie_id=''
                  @ quote_str sid
                  @ ''&season_id=0&episode_id=0&row=0&JsHttpRequest=1-xml&category=''
                  @ fmt W category_id
                  @ ''&sortby=added&fav=0&hd=0&not_ended=0&abc=*&genre=*&years=*&search=&p=1'',
           headers = hdrs\<rparr>]"
  by (auto simp: get_seasons_episodes_def io_defs split: io_splits)

lemma fetch_play_link_events:
  "fst (fetch_play_link W base_url cmd) =
     (case quote cmd of
        Inl e \<Rightarrow> []
      | Inr quoted \<Rightarrow>
          [Get \<lparr>url = base_url @ ''/portal.php?type=vod&action=create_link&cmd='' @ quoted,
                headers = []\<rparr>])"
  by (auto simp: fetch_play_link_def io_defs split: io_splits)

lemma show_fetch_play_link_events:
  "fst (show_fetch_play_link W base_url cmd episode_num) =
     [Get \<lparr>url = base_url @ ''/portal.php?type=vod&action=create_link&cmd='' @ quote_str cmd
                  @ ''&series='' @ fmt W episode_num,
           headers = []\<rparr>]"
  by (auto simp: show_fetch_play_link_def io_defs split: io_splits)

lemma vod_item_events:
  "fst (vod_item W base_url vod) = [] \<or>
   (\<exists>cmd. fst (vod_item W base_url vod) = fst (fetch_play_link W base_url cmd))"
  by (auto simp: vod_item_def io_simps split: sum.splits)

lemma episode_link_events:
  "fst (episode_link W base_url C episode_num) = [] \<or>
   (\<exists>cmd. fst (episode_link W base_url C episode_num)
           = fst (show_fetch_play_link W base_url cmd episode_num))"
  by (auto simp: episode_link_def io_simps split: sum.splits option.splits)

lemma writes_fetch_play_link: "writes (fst (fetch_play_link W base_url cmd)) = []"
  by (cases "quote cmd") (simp_all add: fetch_play_link_events)

lemma writes_vod_item: "writes (fst (vod_item W base_url vod)) = []"
  using vod_item_events [of W base_url vod] writes_fetch_play_link [of W base_url]
  by auto

lemma writes_episode_link: "writes (fst (episode_link W base_url C episode_num)) = []"
  using episode_link_events [of W base_url C episode_num]
  by (auto simp: show_fetch_play_link_events)

lemma save_vods_returns:
  "save_vods W base_url title vods c = (t, Inr n) \<Longrightarrow>
     n = c + int (length (filter (vod_resolved W base_url) vods))
     \<and> writes t = map (vod_entry W base_url title) (filter (vod_resolved W base_url) vods)"
proof (induction vods arbitrary: c t)
  case Nil
  then show ?case by simp
next
  case (Cons vod vods)
  obtain t1 r1 where item: "vod_item W base_url vod = (t1, r1)"
    by (cases "vod_item W base_url vod")
  have w1: "writes t1 = []"
    using writes_vod_item [of W base_url vod] item by simp
  from Cons.prems item obtain name logo play_link where r1: "r1 = Inr (name, logo, play_link)"
    by (cases r1) auto
  show ?case
  proof (cases "has_link play_link")
    case True
    obtain t2 r2 where rest: "save_vods W base_url title vods (c + 1) = (t2, r2)"
      by (cases "save_vods W base_url title vods (c + 1)")
    with Cons.prems item r1 True
    have t: "t = t1 @ Write (vod_str W logo title name (the play_link)) # t2" and "r2 = Inr n"
      by auto
    with rest Cons.IH [of "c + 1" t2]
    have "n = c + 1 + int (length (filter (vod_resolved W base_url) vods))"
      and "writes t2 = map (vod_entry W base_url title) (filter (vod_resolved W base_url) vods)"
      by auto
    moreover have "vod_resolved W base_url vod"
      and "vod_entry W base_url title vod = vod_str W logo title name (the play_link)"
      using item r1 True by (simp_all add: vod_resolved_def vod_entry_def)
    ultimately show ?thesis
      using t w1 by simp
  next
    case False
    obtain t2 r2 where rest: "save_vods W base_url title vods c = (t2, r2)"
      by (cases "save_vods W base_url title vods c")
    with Cons.prems item r1 False have t: "t = t1 @ t2" and "r2 = Inr n"
      by auto
    with rest Cons.IH [of c t2]
    have "n = c + int (length (filter (vod_resolved W base_url) vods))"
      and "writes t2 = map (vod_entry W base_url title) (filter (vod_resolved W base_url) vods)"
      by auto
    moreover have "\<not> vod_resolved W base_url vod"
      using item r1 False by (simp add: vod_resolved_def)
    ultimately show ?thesis
      using t w1 by simp
  qed
qed

lemma save_vods_written:
  "s \<in> set (writes (fst (save_vods W base_url title vods c))) \<Longrightarrow>
     \<exists>vod \<in> set vods. vod_resolved W base_url vod \<and> s = vod_entry W base_url title vod"
proof (induction vods arbitrary: c)
  case Nil
  then show ?case by simp
next
  case (Cons vod vods)
  obtain t1 r1 where item: "vod_item W base_url vod = (t1, r1)"
    by (cases "vod_item W base_url vod")
  have w1: "writes t1 = []"
    using writes_vod_item [of W base_url vod] item by simp
  show ?case
  proof (cases r1)
    case (Inl e)
    with Cons.prems item w1 show ?thesis by simp
  next
    case (Inr x)
    then obtain name logo play_link where r1: "r1 = Inr (name, logo, play_link)"
      by (cases x) auto
    show ?thesis
    proof (cases "has_link play_link")
      case True
      with Cons.prems item r1 w1
      have "s = vod_str W logo title name (the play_link)
            \<or> s \<in> set (writes (fst (save_vods W base_url title vods (c + 1))))"
        by (auto split: prod.splits)
      then show ?thesis
      proof
        assume "s = vod_str W logo title name (the play_link)"
        with item r1 True show ?thesis
          by (auto simp: vod_resolved_def vod_entry_def)
      next
        assume "s \<in> set (writes (fst (save_vods W base_url title vods (c + 1))))"
        from Cons.IH [OF this] show ?thesis by auto
      qed
    next
      case False
      with Cons.prems item r1 w1
      have "s \<in> set (writes (fst (save_vods W base_url title vods c)))"
        by (auto split: prod.splits)
      from Cons.IH [OF this] show ?thesis by auto
    qed
  qed
qed

lemma save_episodes_returns:
  "save_episodes W base_url C eps c = (t, Inr n) \<Longrightarrow>
     n = c + int (length (filter (episode_resolved W base_url C) eps))
     \<and> writes t = map (episode_entry W base_url C) (filter (episode_resolved W base_url C) eps)"
proof (induction eps arbitrary: c t)
  case Nil
  then show ?case by simp
next
  case (Cons ep eps)
  obtain t1 r1 where item: "episode_link W base_url C ep = (t1, r1)"
    by (cases "episode_link W base_url C ep")
  have w1: "writes t1 = []"
    using writes_episode_link [of W base_url C ep] item by simp
  from Cons.prems item obtain k play_link where r1: "r1 = Inr (k, play_link)"
    by (cases r1) auto
  show ?case
  proof (cases "has_link play_link")
    case True
    with Cons.prems item r1 obtain s where etext: "episode_text W C ep k (the play_link) = Inr s"
      by (cases "episode_text W C ep k (the play_link)") auto
    obtain t2 r2 where rest: "save_episodes W base_url C eps (c + 1) = (t2, r2)"
      by (cases "save_episodes W base_url C eps (c + 1)")
    with Cons.prems item r1 True etext have t: "t = t1 @ Write s # t2" and "r2 = Inr n"
      by auto
    with rest Cons.IH [of "c + 1" t2]
    have "n = c + 1 + int (length (filter (episode_resolved W base_url C) eps))"
      and "writes t2 = map (episode_entry W base_url C) (filter (episode_resolved W base_url C) eps)"
      by auto
    moreover have "episode_resolved W base_url C ep" and "episode_entry W base_url C ep = s"
      using item r1 True etext by (simp_all add: episode_resolved_def episode_entry_def)
    ultimately show ?thesis
      using t w1 by simp
  next
    case False
    obtain t2 r2 where rest: "save_episodes W base_url C eps c = (t2, r2)"
      by (cases "save_episodes W base_url C eps c")
    with Cons.prems item r1 False have t: "t = t1 @ t2" and "r2 = Inr n"
      by auto
    with rest Cons.IH [of c t2]
    have "n = c + int (length (filter (episode_resolved W base_url C) eps))"
      and "writes t2 = map (episode_entry W base_url C) (filter (episode_resolved W base_url C) eps)"
      by auto
    moreover have "\<not> episode_resolved W base_url C ep"
      using item r1 False by (simp add: episode_resolved_def)
    ultimately show ?thesis
      using t w1 by simp
  qed
qed

lemma save_seasons_count:
  "save_seasons W base_url ser title sid cat_title seasons c = (t, Inr n) \<Longrightarrow>
     n = c + int (length (writes t))"
proof (induction seasons arbitrary: c t)
  case Nil
  then show ?case by simp
next
  case (Cons season seasons)
  from Cons.prems obtain num n_eps es where hd: "season_head season = Inr (num, n_eps, es)"
    by (cases "season_head season") auto
  let ?C = "\<lparr>series = ser, series_title = title, series_id = sid, season_num = num,
             total_episodes = n_eps, category_title = cat_title\<rparr>"
  obtain t1 r1 where eps: "save_episodes W base_url ?C es c = (t1, r1)"
    by (cases "save_episodes W base_url ?C es c")
  with Cons.prems hd obtain c' where r1: "r1 = Inr c'"
    by (cases r1) auto
  obtain t2 r2 where rest: "save_seasons W base_url ser title sid cat_title seasons c' = (t2, r2)"
    by (cases "save_seasons W base_url ser title sid cat_title seasons c'")
  with Cons.prems hd eps r1 have t: "t = t1 @ t2" and "r2 = Inr n"
    by auto
  with rest Cons.IH [of c' t2] have "n = c' + int (length (writes t2))"
    by simp
  moreover from save_episodes_returns [of W base_url ?C es c t1 c'] eps r1
  have "c' = c + int (length (writes t1))"
    by simp
  ultimately show ?case
    using t by simp
qed

lemma writes_series_head: "writes (fst (series_head W base_url hdrs ser)) = []"
  by (simp add: series_head_def io_simps get_seasons_episodes_events split: sum.splits)

lemma save_series_count:
  "save_series W base_url hdrs cat_title sers c = (t, Inr n) \<Longrightarrow>
     n = c + int (length (writes t))"
proof (induction sers arbitrary: c t)
  case Nil
  then show ?case by simp
next
  case (Cons ser sers)
  obtain t1 r1 where hd: "series_head W base_url hdrs ser = (t1, r1)"
    by (cases "series_head W base_url hdrs ser")
  have w1: "writes t1 = []"
    using writes_series_head [of W base_url hdrs ser] hd by simp
  from Cons.prems hd obtain title sid seasons_data where r1: "r1 = Inr (title, sid, seasons_data)"
    by (cases r1) auto
  show ?case
  proof (cases "truthy seasons_data")
    case True
    with Cons.prems hd r1 obtain seasons where it: "iterate seasons_data = Inr seasons"
      by (cases "iterate seasons_data") auto
    obtain t2 r2 where ss: "save_seasons W base_url ser title sid cat_title seasons c = (t2, r2)"
      by (cases "save_seasons W base_url ser title sid cat_title seasons c")
    with Cons.prems hd r1 True it obtain c' where r2: "r2 = Inr c'"
      by (cases r2) auto
    obtain t3 r3 where rest: "save_series W base_url hdrs cat_title sers c' = (t3, r3)"
      by (cases "save_series W base_url hdrs cat_title sers c'")
    with Cons.prems hd r1 True it ss r2 have t: "t = t1 @ t2 @ t3" and "r3 = Inr n"
      by auto
    with rest Cons.IH [of c' t3] have "n = c' + int (length (writes t3))"
      by simp
    moreover from save_seasons_count ss r2 have "c' = c + int (length (writes t2))"
      by simp
    ultimately show ?thesis
      using t w1 by simp
  next
    case False
    obtain t3 r3 where rest: "save_series W base_url hdrs cat_title sers c = (t3, r3)"
      by (cases "save_series W base_url hdrs cat_title sers c")
    with Cons.prems hd r1 False have t: "t = t1 @ t3" and "r3 = Inr n"
      by auto
    with rest Cons.IH [of c t3] show ?thesis
      using w1 by simp
  qed
qed

lemma save_vod_list_count:
  "save_vod_list W vod_data base_url title = (t, Inr n) \<Longrightarrow> n = int (length (writes t))"
proof -
  assume a: "save_vod_list W vod_data base_url title = (t, Inr n)"
  then obtain vods where "iterate vod_data = Inr vods"
    by (cases "iterate vod_data") (auto simp: save_vod_list_def io_defs)
  with a have "save_vods W base_url title vods 0 = (t, Inr n)"
    by (auto simp: save_vod_list_def io_defs split: prod.splits sum.splits)
  from save_vods_returns [OF this] show ?thesis by simp
qed

lemma save_series_data_count:
  "save_series_data W series_data base_url hdrs cat_title = (t, Inr n) \<Longrightarrow>
     n = int (length (writes t))"
proof -
  assume a: "save_series_data W series_data base_url hdrs cat_title = (t, Inr n)"
  then obtain sers where "iterate series_data = Inr sers"
    by (cases "iterate series_data") (auto simp: save_series_data_def io_defs)
  with a have "save_series W base_url hdrs cat_title sers 0 = (t, Inr n)"
    by (auto simp: save_series_data_def io_defs split: prod.splits sum.splits)
  from save_series_count [OF this] show ?thesis by simp
qed

lemma page_loop_count_aux:
  assumes run: "page_loop fetch save page tot sofar = Some y"
  shows "(\<forall>p. writes (fst (fetch p)) = []) \<longrightarrow>
     (\<forall>d t c. save d = (t, Inr c) \<longrightarrow> c = int (length (writes t))) \<longrightarrow>
     (\<forall>t n. y = (t, Inr n) \<longrightarrow>
        n - tot = int (length (writes t)) - int (length (writes sofar)))"
proof (rule page_loop.raw_induct
    [where P = "\<lambda>fetch save page tot sofar y.
      (\<forall>p. writes (fst (fetch p)) = []) \<longrightarrow>
      (\<forall>d t c. save d = (t, Inr c) \<longrightarrow> c = int (length (writes t))) \<longrightarrow>
      (\<forall>t n. y = (t, Inr n) \<longrightarrow>
         n - tot = int (length (writes t)) - int (length (writes sofar)))", OF _ run])
  fix loop :: "(nat \<Rightarrow> json io) \<Rightarrow> (json \<Rightarrow> int io) \<Rightarrow> nat \<Rightarrow> int \<Rightarrow> event list
     \<Rightarrow> (event list \<times> (exn + int)) option"
  fix fetch save page tot sofar y
  assume IH: "\<And>fetch save page tot sofar y. loop fetch save page tot sofar = Some y \<Longrightarrow>
      (\<forall>p. writes (fst (fetch p)) = []) \<longrightarrow>
      (\<forall>d t c. save d = (t, Inr c) \<longrightarrow> c = int (length (writes t))) \<longrightarrow>
      (\<forall>t n. y = (t, Inr n) \<longrightarrow>
         n - tot = int (length (writes t)) - int (length (writes sofar)))"
  assume body: "(case fetch page of
        (t, Inl e) \<Rightarrow> Some (sofar @ t, Inl e)
      | (t, Inr data) \<Rightarrow>
          if \<not> truthy data then Some (sofar @ t, Inr tot)
          else (case save data of
                  (t', Inl e) \<Rightarrow> Some (sofar @ t @ t', Inl e)
                | (t', Inr count) \<Rightarrow>
                    loop fetch save (page + 1) (tot + count) (sofar @ t @ t'))) = Some y"
  show "(\<forall>p. writes (fst (fetch p)) = []) \<longrightarrow>
      (\<forall>d t c. save d = (t, Inr c) \<longrightarrow> c = int (length (writes t))) \<longrightarrow>
      (\<forall>t n. y = (t, Inr n) \<longrightarrow>
         n - tot = int (length (writes t)) - int (length (writes sofar)))"
  proof (intro impI allI)
    fix t n
    assume f: "\<forall>p. writes (fst (fetch p)) = []"
      and s: "\<forall>d t c. save d = (t, Inr c) \<longrightarrow> c = int (length (writes t))"
      and y: "y = (t, Inr n)"
    obtain t1 r1 where fp: "fetch page = (t1, r1)"
      by (cases "fetch page")
    from f have "writes (fst (fetch page)) = []" ..
    with fp have w1: "writes t1 = []" by simp
    show "n - tot = int (length (writes t)) - int (length (writes sofar))"
    proof (cases r1)
      case (Inl e)
      with body fp have "y = (sofar @ t1, Inl e)" by simp
      with y show ?thesis by simp
    next
      case (Inr d)
      show ?thesis
      proof (cases "truthy d")
        case False
        with body fp Inr have "y = (sofar @ t1, Inr tot)" by simp
        with y have "t = sofar @ t1" and "n = tot" by simp_all
        with w1 show ?thesis by simp
      next
        case True
        obtain t2 r2 where sd: "save d = (t2, r2)"
          by (cases "save d")
        show ?thesis
        proof (cases r2)
          case (Inl e)
          with body fp \<open>r1 = Inr d\<close> True sd have "y = (sofar @ t1 @ t2, Inl e)" by simp
          with y show ?thesis by simp
        next
          case (Inr c)
          with s sd have c: "c = int (length (writes t2))" by blast
          from body fp \<open>r1 = Inr d\<close> True sd Inr
          have "loop fetch save (page + 1) (tot + c) (sofar @ t1 @ t2) = Some y" by simp
          from IH [OF this] f s y
          have "n - (tot + c) = int (length (writes t)) - int (length (writes (sofar @ t1 @ t2)))"
            by blast
          with c w1 show ?thesis by simp
        qed
      qed
    qed
  qed
qed

lemma fetch_and_save_vods_count:
  assumes "fetch_and_save_vods W base_url hdrs category = Some (t, Inr n)"
  shows "n = int (length (writes t))"
proof -
  from assms obtain cid where cid: "getitem category ''id'' = Inr cid"
    by (cases "getitem category ''id''") (auto simp: fetch_and_save_vods_def)
  from assms cid obtain title where title: "getitem category ''title'' = Inr title"
    by (cases "getitem category ''title''") (auto simp: fetch_and_save_vods_def)
  show ?thesis
  proof (cases "cid = JStr ''*''")
    case True
    with assms cid title show ?thesis
      by (simp add: fetch_and_save_vods_def)
  next
    case False
    with assms cid title
    have "page_loop (get_vod_list W base_url hdrs cid)
            (\<lambda>vod_data. save_vod_list W vod_data base_url title) 1 0 [] = Some (t, Inr n)"
      by (simp add: fetch_and_save_vods_def)
    from page_loop_count_aux [OF this] show ?thesis
      by (simp add: get_vod_list_events save_vod_list_count)
  qed
qed

lemma fetch_and_save_series_count:
  assumes "fetch_and_save_series W base_url hdrs category = Some (t, Inr n)"
  shows "n = int (length (writes t))"
proof -
  from assms obtain cid where cid: "getitem category ''id'' = Inr cid"
    by (cases "getitem category ''id''") (auto simp: fetch_and_save_series_def)
  from assms cid obtain title where title: "getitem category ''title'' = Inr title"
    by (cases "getitem category ''title''") (auto simp: fetch_and_save_series_def)
  from assms cid title
  have "page_loop (get_series_list W base_url hdrs cid)
          (\<lambda>series_data. save_series_data W series_data base_url hdrs title) 1 0 [] = Some (t, Inr n)"
    by (simp add: fetch_and_save_series_def)
  from page_loop_count_aux [OF this] show ?thesis
    by (simp add: get_series_list_events save_series_data_count)
qed

section \<open>The page loop\<close>

lemma page_loop_last:
  assumes "fetch_ends fetch n"
  shows "page_loop fetch save n tot sofar
         = Some (sofar @ page_events fetch save n, last_page fetch tot n)"
proof -
  obtain t r where f: "fetch n = (t, r)"
    by (cases "fetch n")
  show ?thesis
  proof (cases r)
    case (Inl e)
    with f show ?thesis
      by (subst page_loop.simps) (simp add: page_events_def last_page_def)
  next
    case (Inr d)
    with assms f have "\<not> truthy d"
      by (simp add: fetch_ends_def)
    with f Inr show ?thesis
      by (subst page_loop.simps) (simp add: page_events_def last_page_def)
  qed
qed

lemma page_loop_next:
  assumes "page_good fetch save p"
  shows "page_loop fetch save p tot sofar
         = page_loop fetch save (Suc p) (tot + page_count fetch save p)
             (sofar @ page_events fetch save p)"
proof -
  obtain t r where f: "fetch p = (t, r)"
    by (cases "fetch p")
  with assms obtain d where r: "r = Inr d" and d: "truthy d"
    by (cases r) (auto simp: page_good_def)
  obtain t' r' where s: "save d = (t', r')"
    by (cases "save d")
  with assms f r obtain c where r': "r' = Inr c"
    by (cases r') (auto simp: page_good_def)
  from f r d s r' show ?thesis
    by (subst page_loop.simps) (simp add: page_events_def page_count_def)
qed

lemma page_loop_ends:
  assumes "fetch_ends fetch n"
  shows "first \<le> n \<Longrightarrow> (\<forall>p. first \<le> p \<and> p < n \<longrightarrow> page_good fetch save p) \<Longrightarrow>
     page_loop fetch save first tot sofar
     = Some (sofar @ concat (map (page_events fetch save) [first..<Suc n]),
             last_page fetch (tot + sum_list (map (page_count fetch save) [first..<n])) n)"
proof (induction "n - first" arbitrary: first tot sofar)
  case 0
  then have "first = n" by simp
  with page_loop_last [OF assms, of save tot sofar] show ?case
    by simp
next
  case (Suc k)
  then have lt: "first < n" by simp
  with Suc.prems have good: "page_good fetch save first" by simp
  have "k = n - Suc first" using Suc.hyps(2) by simp
  moreover have "Suc first \<le> n" using lt by simp
  moreover have "\<forall>p. Suc first \<le> p \<and> p < n \<longrightarrow> page_good fetch save p"
    using Suc.prems(2) by simp
  ultimately have "page_loop fetch save (Suc first) (tot + page_count fetch save first)
        (sofar @ page_events fetch save first)
     = Some ((sofar @ page_events fetch save first)
               @ concat (map (page_events fetch save) [Suc first..<Suc n]),
             last_page fetch (tot + page_count fetch save first
               + sum_list (map (page_count fetch save) [Suc first..<n])) n)"
    by (rule Suc.hyps(1))
  moreover have "[first..<Suc n] = first # [Suc first..<Suc n]"
    using lt by (simp add: upt_conv_Cons)
  moreover have "[first..<n] = first # [Suc first..<n]"
    using lt by (simp add: upt_conv_Cons)
  ultimately show ?case
    using page_loop_next [OF good, of tot sofar] by (simp add: add.assoc)
qed

lemma page_loop_returns:
  assumes run: "page_loop fetch save first tot sofar = Some y"
  shows "\<exists>n. first \<le> n \<and> (\<forall>p. first \<le> p \<and> p < n \<longrightarrow> page_good fetch save p)
             \<and> \<not> page_good fetch save n"
proof (rule page_loop.raw_induct
    [where P = "\<lambda>fetch save first tot sofar y.
      \<exists>n. first \<le> n \<and> (\<forall>p. first \<le> p \<and> p < n \<longrightarrow> page_good fetch save p)
             \<and> \<not> page_good fetch save n", OF _ run])
  fix loop :: "(nat \<Rightarrow> json io) \<Rightarrow> (json \<Rightarrow> int io) \<Rightarrow> nat \<Rightarrow> int \<Rightarrow> event list
     \<Rightarrow> (event list \<times> (exn + int)) option"
  fix fetch save first tot sofar y
  assume IH: "\<And>fetch save first tot sofar y. loop fetch save first tot sofar = Some y \<Longrightarrow>
      \<exists>n. first \<le> n \<and> (\<forall>p. first \<le> p \<and> p < n \<longrightarrow> page_good fetch save p)
             \<and> \<not> page_good fetch save n"
  assume body: "(case fetch first of
        (t, Inl e) \<Rightarrow> Some (sofar @ t, Inl e)
      | (t, Inr data) \<Rightarrow>
          if \<not> truthy data then Some (sofar @ t, Inr tot)
          else (case save data of
                  (t', Inl e) \<Rightarrow> Some (sofar @ t @ t', Inl e)
                | (t', Inr count) \<Rightarrow>
                    loop fetch save (first + 1) (tot + count) (sofar @ t @ t'))) = Some y"
  show "\<exists>n. first \<le> n \<and> (\<forall>p. first \<le> p \<and> p < n \<longrightarrow> page_good fetch save p)
             \<and> \<not> page_good fetch save n"
  proof (cases "page_good fetch save first")
    case False
    then have "first \<le> first \<and> (\<forall>p. first \<le> p \<and> p < first \<longrightarrow> page_good fetch save p)
             \<and> \<not> page_good fetch save first"
      by auto
    then show ?thesis ..
  next
    case True
    obtain t r where f: "fetch first = (t, r)"
      by (cases "fetch first")
    with True obtain d where r: "r = Inr d" and d: "truthy d"
      by (cases r) (auto simp: page_good_def)
    obtain t' r' where s: "save d = (t', r')"
      by (cases "save d")
    with True f r obtain c where r': "r' = Inr c"
      by (cases r') (auto simp: page_good_def)
    from body f r d s r'
    have "loop fetch save (first + 1) (tot + c) (sofar @ t @ t') = Some y"
      by simp
    from IH [OF this] obtain n where n: "first + 1 \<le> n"
      and before: "\<forall>p. first + 1 \<le> p \<and> p < n \<longrightarrow> page_good fetch save p"
      and at: "\<not> page_good fetch save n"
      by blast
    have "\<forall>p. first \<le> p \<and> p < n \<longrightarrow> page_good fetch save p"
    proof (intro allI impI)
      fix p
      assume p: "first \<le> p \<and> p < n"
      show "page_good fetch save p"
      proof (cases "p = first")
        case True
        with \<open>page_good fetch save first\<close> show ?thesis by simp
      next
        case False
        with p have "first + 1 \<le> p \<and> p < n" by simp
        with before show ?thesis by blast
      qed
    qed
    with n at have "first \<le> n \<and> (\<forall>p. first \<le> p \<and> p < n \<longrightarrow> page_good fetch save p)
             \<and> \<not> page_good fetch save n"
      by simp
    then show ?thesis ..
  qed
qed

lemma get_vod_list_ends:
  "fetch_ends (get_vod_list W base_url hdrs cid) p \<longleftrightarrow>
     (case portal W \<lparr>url = vod_list_url W base_url cid p, headers = hdrs\<rparr> of
        Raises e \<Rightarrow> True
      | Reply st ct b \<Rightarrow>
          st \<noteq> 200 \<or>
          (case bind_exn (loads b) (\<lambda>data. bind_exn (getitem data ''js'') (\<lambda>js. getitem js ''data'')) of
             Inl e \<Rightarrow> True
           | Inr d \<Rightarrow> \<not> truthy d))"
  by (simp add: fetch_ends_def get_vod_list_def io_simps split: reply.splits sum.splits)

lemma get_series_list_ends:
  "fetch_ends (get_series_list W base_url hdrs cid) p \<longleftrightarrow>
     (case portal W \<lparr>url = series_list_url W base_url cid p, headers = hdrs\<rparr> of
        Raises e \<Rightarrow> True
      | Reply st ct b \<Rightarrow>
          st \<noteq> 200 \<or>
          (case bind_exn (loads b) (\<lambda>data. bind_exn (getitem data ''js'') (\<lambda>js. getitem js ''data'')) of
             Inl e \<Rightarrow> True
           | Inr d \<Rightarrow> \<not> truthy d))"
  by (simp add: fetch_ends_def get_series_list_def io_simps split: reply.splits sum.splits)

lemma last_page_events:
  "fetch_ends fetch n \<Longrightarrow> page_events fetch save n = fst (fetch n)"
  by (auto simp: fetch_ends_def page_events_def split: sum.splits)

text \<open>
  Claim C2, as the code has it. The page loop of \<open>fetch_and_save_vods\<close> and of
  \<open>fetch_and_save_series\<close> asks for the pages 1, 2, 3, ... in order, each followed by the
  work on its items. While the pages before \<open>n\<close> have items and their items are
  processed to the end, the loop ends at the first page \<open>n\<close> whose fetch returns nothing
  usable or raises: its request is the last effect, the count is the sum over the pages
  before it, and no later page is requested. A fetch returns nothing usable when the
  request raises (a transport error is turned into \<open>None\<close>, any other exception leaves the
  function), when the status is not 200, and when the body does not decode to a non-empty
  item list. When the loop returns, it has met a page that is not good in this sense:
  there is no other way out, and no count of pages is read.
\<close>

theorem pagination_ends_at_first_unusable_page:
  fixes W :: world and base_url :: string and hdrs :: "(string \<times> string) list"
    and cid :: json and title :: json
  defines "F \<equiv> get_vod_list W base_url hdrs cid"
    and "S \<equiv> (\<lambda>vod_data. save_vod_list W vod_data base_url title)"
    and "F' \<equiv> get_series_list W base_url hdrs cid"
    and "S' \<equiv> (\<lambda>series_data. save_series_data W series_data base_url hdrs title)"
  assumes cid: "getitem category ''id'' = Inr cid"
    and title: "getitem category ''title'' = Inr title"
  shows "(cid \<noteq> JStr ''*'' \<and> 1 \<le> n \<and> (\<forall>p. 1 \<le> p \<and> p < n \<longrightarrow> page_good F S p) \<and> fetch_ends F n
          \<longrightarrow> fetch_and_save_vods W base_url hdrs category
                = Some (concat (map (page_events F S) [1..<Suc n]),
                        last_page F (sum_list (map (page_count F S) [1..<n])) n)
              \<and> page_events F S n = [Get \<lparr>url = vod_list_url W base_url cid n, headers = hdrs\<rparr>])
       \<and> (1 \<le> n \<and> (\<forall>p. 1 \<le> p \<and> p < n \<longrightarrow> page_good F' S' p) \<and> fetch_ends F' n
          \<longrightarrow> fetch_and_save_series W base_url hdrs category
                = Some (concat (map (page_events F' S') [1..<Suc n]),
                        last_page F' (sum_list (map (page_count F' S') [1..<n])) n)
              \<and> page_events F' S' n = [Get \<lparr>url = series_list_url W base_url cid n, headers = hdrs\<rparr>])
       \<and> (\<forall>y. cid \<noteq> JStr ''*'' \<and> fetch_and_save_vods W base_url hdrs category = Some y
          \<longrightarrow> (\<exists>m. 1 \<le> m \<and> (\<forall>p. 1 \<le> p \<and> p < m \<longrightarrow> page_good F S p) \<and> \<not> page_good F S m))
       \<and> (\<forall>y. fetch_and_save_series W base_url hdrs category = Some y
          \<longrightarrow> (\<exists>m. 1 \<le> m \<and> (\<forall>p. 1 \<le> p \<and> p < m \<longrightarrow> page_good F' S' p) \<and> \<not> page_good F' S' m))
       \<and> (fetch_ends F n \<longleftrightarrow>
            (case portal W \<lparr>url = vod_list_url W base_url cid n, headers = hdrs\<rparr> of
               Raises e \<Rightarrow> True
             | Reply st ct b \<Rightarrow>
                 st \<noteq> 200 \<or>
                 (case bind_exn (loads b) (\<lambda>data. bind_exn (getitem data ''js'') (\<lambda>js. getitem js ''data'')) of
                    Inl e \<Rightarrow> True
                  | Inr d \<Rightarrow> \<not> truthy d)))
       \<and> (fetch_ends F' n \<longleftrightarrow>
            (case portal W \<lparr>url = series_list_url W base_url cid n, headers = hdrs\<rparr> of
               Raises e \<Rightarrow> True
             | Reply st ct b \<Rightarrow>
                 st \<noteq> 200 \<or>
                 (case bind_exn (loads b) (\<lambda>data. bind_exn (getitem data ''js'') (\<lambda>js. getitem js ''data'')) of
                    Inl e \<Rightarrow> True
                  | Inr d \<Rightarrow> \<not> truthy d)))"
proof (intro conjI impI allI)
  assume a: "cid \<noteq> JStr ''*'' \<and> 1 \<le> n \<and> (\<forall>p. 1 \<le> p \<and> p < n \<longrightarrow> page_good F S p) \<and> fetch_ends F n"
  then have "page_loop F S 1 0 []
      = Some ([] @ concat (map (page_events F S) [1..<Suc n]),
              last_page F (0 + sum_list (map (page_count F S) [1..<n])) n)"
    by (intro page_loop_ends) simp_all
  with a cid title
  show "fetch_and_save_vods W base_url hdrs category
          = Some (concat (map (page_events F S) [1..<Suc n]),
                  last_page F (sum_list (map (page_count F S) [1..<n])) n)"
    by (simp add: fetch_and_save_vods_def F_def S_def)
  from a have "page_events F S n = fst (F n)"
    by (simp add: last_page_events)
  then show "page_events F S n = [Get \<lparr>url = vod_list_url W base_url cid n, headers = hdrs\<rparr>]"
    by (simp add: F_def get_vod_list_events)
next
  assume a: "1 \<le> n \<and> (\<forall>p. 1 \<le> p \<and> p < n \<longrightarrow> page_good F' S' p) \<and> fetch_ends F' n"
  then have "page_loop F' S' 1 0 []
      = Some ([] @ concat (map (page_events F' S') [1..<Suc n]),
              last_page F' (0 + sum_list (map (page_count F' S') [1..<n])) n)"
    by (intro page_loop_ends) simp_all
  with a cid title
  show "fetch_and_save_series W base_url hdrs category
          = Some (concat (map (page_events F' S') [1..<Suc n]),
                  last_page F' (sum_list (map (page_count F' S') [1..<n])) n)"
    by (simp add: fetch_and_save_series_def F'_def S'_def)
  from a have "page_events F' S' n = fst (F' n)"
    by (simp add: last_page_events)
  then show "page_events F' S' n = [Get \<lparr>url = series_list_url W base_url cid n, headers = hdrs\<rparr>]"
    by (simp add: F'_def get_series_list_events)
next
  fix y
  assume "cid \<noteq> JStr ''*'' \<and> fetch_and_save_vods W base_url hdrs category = Some y"
  with cid title have "page_loop F S 1 0 [] = Some y"
    by (auto simp: fetch_and_save_vods_def F_def S_def)
  then show "\<exists>m. 1 \<le> m \<and> (\<forall>p. 1 \<le> p \<and> p < m \<longrightarrow> page_good F S p) \<and> \<not> page_good F S m"
    by (rule page_loop_returns)
next
  fix y
  assume "fetch_and_save_series W base_url hdrs category = Some y"
  with cid title have "page_loop F' S' 1 0 [] = Some y"
    by (simp add: fetch_and_save_series_def F'_def S'_def)
  then show "\<exists>m. 1 \<le> m \<and> (\<forall>p. 1 \<le> p \<and> p < m \<longrightarrow> page_good F' S' p) \<and> \<not> page_good F' S' m"
    by (rule page_loop_returns)
qed (simp_all add: F_def F'_def get_vod_list_ends get_series_list_ends)

theorem pagination_ends_at_first_unusable_page_witness:
  \<open>page_good (get_vod_list paged_world ''http://portal:80'' [] (JStr ''7''))
      (\<lambda>vod_data. save_vod_list paged_world vod_data ''http://portal:80'' (JStr ''Movies'')) 1
   \<and> fetch_ends (get_vod_list paged_world ''http://portal:80'' [] (JStr ''7'')) 2
   \<and> fetch_and_save_vods paged_world ''http://portal:80'' [] movies_category =
       Some ([Get \<lparr>url = vod_list_url paged_world ''http://portal:80'' (JStr ''7'') 1, headers = []\<rparr>,
              Get \<lparr>url = ''http://portal:80/portal.php?type=vod&action=create_link&cmd=good'',
                    headers = []\<rparr>,
              Write ''#EXTINF:-1 tvg-logo="" group-title="Movies",Good\<newline>http://cdn/good.mp4\<newline>'',
              Get \<lparr>url = vod_list_url paged_world ''http://portal:80'' (JStr ''7'') 2, headers = []\<rparr>],
             Inr 1)\<close>
proof -
  let ?b = "''http://portal:80''"
  let ?F = "get_vod_list paged_world ?b [] (JStr ''7'')"
  let ?S = "\<lambda>vod_data. save_vod_list paged_world vod_data ?b (JStr ''Movies'')"
  have d1: "dec 1 = ''1''" and d2: "dec 2 = ''2''"
    by (simp_all add: dec.simps digit_char_def)
  have f1: "?F 1 = ([Get \<lparr>url = vod_list_url paged_world ?b (JStr ''7'') 1, headers = []\<rparr>],
                    Inr (JArr [good_movie]))"
    by (simp add: get_vod_list_def vod_list_url_def fmt_def d1 paged_world_def world_of_def
        table_portal_def io_simps loads_def prod_eq_iff del: One_nat_def)
  have f2: "?F 2 = ([Get \<lparr>url = vod_list_url paged_world ?b (JStr ''7'') 2, headers = []\<rparr>],
                    Inr (JArr []))"
    by (simp add: get_vod_list_def vod_list_url_def fmt_def d2 paged_world_def world_of_def
        table_portal_def io_simps loads_def prod_eq_iff del: One_nat_def)
  have item: "vod_item paged_world ?b good_movie =
     ([Get \<lparr>url = ''http://portal:80/portal.php?type=vod&action=create_link&cmd=good'', headers = []\<rparr>],
      Inr (JStr ''Good'', JStr [], Some ''http://cdn/good.mp4''))"
    by (simp add: vod_item_def good_movie_def fetch_play_link_def quote_plain prod_eq_iff io_simps
        paged_world_def world_of_def table_portal_def loads_def second_token_def)
  have s1: \<open>?S (JArr [good_movie]) =
     ([Get \<lparr>url = ''http://portal:80/portal.php?type=vod&action=create_link&cmd=good'', headers = []\<rparr>,
       Write ''#EXTINF:-1 tvg-logo="" group-title="Movies",Good\<newline>http://cdn/good.mp4\<newline>''],
      Inr 1)\<close>
    by (simp add: save_vod_list_def item prod_eq_iff io_simps has_link_def vod_str_def fmt_def)
  have good1: "page_good ?F ?S 1"
    by (simp add: page_good_def f1 s1 del: One_nat_def)
  have ends2: "fetch_ends ?F 2"
    by (simp add: fetch_ends_def f2)
  have before: "\<forall>p. 1 \<le> p \<and> p < 2 \<longrightarrow> page_good ?F ?S p"
  proof (intro allI impI)
    fix p :: nat
    assume "1 \<le> p \<and> p < 2"
    then have "p = 1" by simp
    with good1 show "page_good ?F ?S p" by (simp del: One_nat_def)
  qed
  have c: "getitem movies_category ''id'' = Inr (JStr ''7'')"
    and t: "getitem movies_category ''title'' = Inr (JStr ''Movies'')"
    by (simp_all add: movies_category_def)
  have star: "JStr ''7'' \<noteq> JStr ''*''"
    by simp
  have upt: "[1..<Suc 2] = [1, 2::nat]" "[1..<2] = [1::nat]"
    by (simp_all add: upt_conv_Cons)
  from pagination_ends_at_first_unusable_page [OF c t, of 2 paged_world ?b "[]"] star before ends2
  have "fetch_and_save_vods paged_world ?b [] movies_category
          = Some (concat (map (page_events ?F ?S) [1..<Suc 2]),
                  last_page ?F (sum_list (map (page_count ?F ?S) [1..<2])) 2)"
    by (simp del: One_nat_def upt_Suc)
  then have "fetch_and_save_vods paged_world ?b [] movies_category
          = Some (page_events ?F ?S 1 @ page_events ?F ?S 2, last_page ?F (page_count ?F ?S 1) 2)"
    by (simp only: upt list.map concat.simps sum_list.Cons sum_list.Nil append_Nil2 add_0_right)
  moreover have "page_events ?F ?S 1 =
     [Get \<lparr>url = vod_list_url paged_world ?b (JStr ''7'') 1, headers = []\<rparr>,
      Get \<lparr>url = ''http://portal:80/portal.php?type=vod&action=create_link&cmd=good'', headers = []\<rparr>,
      Write ''#EXTINF:-1 tvg-logo=\"\" group-title=\"Movies\",Good\<newline>http://cdn/good.mp4\<newline>'']"
    by (simp add: page_events_def f1 s1 del: One_nat_def)
  moreover have "page_events ?F ?S 2 =
     [Get \<lparr>url = vod_list_url paged_world ?b (JStr ''7'') 2, headers = []\<rparr>]"
    by (simp add: page_events_def f2)
  moreover have "last_page ?F (page_count ?F ?S 1) 2 = Inr 1"
    by (simp add: last_page_def page_count_def f1 f2 s1 del: One_nat_def)
  ultimately have "fetch_and_save_vods paged_world ?b [] movies_category =
       Some ([Get \<lparr>url = vod_list_url paged_world ?b (JStr ''7'') 1, headers = []\<rparr>,
              Get \<lparr>url = ''http://portal:80/portal.php?type=vod&action=create_link&cmd=good'',
                    headers = []\<rparr>,
              Write ''#EXTINF:-1 tvg-logo=\"\" group-title=\"Movies\",Good\<newline>http://cdn/good.mp4\<newline>'',
              Get \<lparr>url = vod_list_url paged_world ?b (JStr ''7'') 2, headers = []\<rparr>],
             Inr 1)"
    by simp
  with good1 ends2 show ?thesis
    by blast
qed

text \<open>
  Claim C2 as stated fails where it says that nothing else ends the sequence: when the
  request for page 1 raises \<open>RequestException\<close> (a timeout, a refused connection), there is
  no status, no body and no item list, \<open>get_vod_list\<close> returns \<open>None\<close>, and the loop ends
  after this one request with the count 0.
\<close>

theorem transport_error_ends_pagination:
  "fetch_and_save_vods W0 ''http://portal:80'' [] movies_category =
     Some ([Get \<lparr>url = vod_list_url W0 ''http://portal:80'' (JStr ''7'') 1, headers = []\<rparr>], Inr 0)
   \<and> portal W0 \<lparr>url = vod_list_url W0 ''http://portal:80'' (JStr ''7'') 1, headers = []\<rparr>
       = Raises RequestException
   \<and> \<not> spec_page_end
         (portal W0 \<lparr>url = vod_list_url W0 ''http://portal:80'' (JStr ''7'') 1, headers = []\<rparr>)"
proof -
  have f1: "get_vod_list W0 ''http://portal:80'' [] (JStr ''7'') 1 =
     ([Get \<lparr>url = vod_list_url W0 ''http://portal:80'' (JStr ''7'') 1, headers = []\<rparr>], Inr JNull)"
    by (simp add: get_vod_list_def W0_def io_simps prod_eq_iff)
  have "fetch_and_save_vods W0 ''http://portal:80'' [] movies_category =
     Some ([Get \<lparr>url = vod_list_url W0 ''http://portal:80'' (JStr ''7'') 1, headers = []\<rparr>], Inr 0)"
    by (simp add: fetch_and_save_vods_def movies_category_def del: One_nat_def)
       (subst page_loop.simps, simp add: f1 del: One_nat_def)
  moreover have "portal W0 \<lparr>url = vod_list_url W0 ''http://portal:80'' (JStr ''7'') 1, headers = []\<rparr>
       = Raises RequestException"
    by (simp add: W0_def)
  ultimately show ?thesis
    by (simp add: spec_page_end_def)
qed

section \<open>The requests of one invocation of main\<close>

lemma marker_inside: "sublist m mid \<Longrightarrow> sublist m (a @ mid @ b)"
  by (metis sublist_appendI sublist_order.order_trans)

lemma marker_at_end: "sublist m mid \<Longrightarrow> sublist m (a @ mid)"
  using marker_inside [of m mid a "[]"] by simp

lemma marker_handshake:
  "sublist ''JsHttpRequest=1-xml'' (b @ ''/portal.php?action=handshake&type=stb&token=&JsHttpRequest=1-xml'')"
  by (rule marker_at_end) (simp add: sublist_Cons_right)

lemma marker_account:
  "sublist ''JsHttpRequest=1-xml''
     (b @ ''/portal.php?type=account_info&action=get_main_info&JsHttpRequest=1-xml'')"
  by (rule marker_at_end) (simp add: sublist_Cons_right)

lemma marker_genres:
  "sublist ''JsHttpRequest=1-xml'' (b @ ''/server/load.php?type=itv&action=get_genres&JsHttpRequest=1-xml'')"
  by (rule marker_at_end) (simp add: sublist_Cons_right)

lemma marker_channels:
  "sublist ''JsHttpRequest=1-xml''
     (b @ ''/portal.php?type=itv&action=get_all_channels&JsHttpRequest=1-xml'')"
  by (rule marker_at_end) (simp add: sublist_Cons_right)

lemma marker_vod_categories:
  "sublist ''JsHttpRequest=1-xml'' (b @ ''/portal.php?type=vod&action=get_categories&JsHttpRequest=1-xml'')"
  by (rule marker_at_end) (simp add: sublist_Cons_right)

lemma marker_series_categories:
  "sublist ''JsHttpRequest=1-xml''
     (b @ ''/portal.php?type=series&action=get_categories&JsHttpRequest=1-xml'')"
  by (rule marker_at_end) (simp add: sublist_Cons_right)

lemma marker_vod_list: "sublist ''JsHttpRequest=1-xml'' (vod_list_url W b cid p)"
proof -
  have "sublist ''JsHttpRequest=1-xml'' ''JsHttpRequest=1-xml&category=''"
    by (simp add: sublist_Cons_right)
  then have "sublist ''JsHttpRequest=1-xml''
     ((b @ ''/portal.php?type=vod&action=get_ordered_list&movie_id=0&season_id=0&episode_id=0&row=0&'')
      @ ''JsHttpRequest=1-xml&category=''
      @ (fmt W cid @ ''&sortby=added&fav=0&hd=0&not_ended=0&abc=*&genre=*&years=*&search=&p='' @ dec p))"
    by (rule marker_inside)
  then show ?thesis
    by (simp add: vod_list_url_def)
qed

lemma marker_series_list: "sublist ''JsHttpRequest=1-xml'' (series_list_url W b cid p)"
proof -
  have "sublist ''JsHttpRequest=1-xml'' ''JsHttpRequest=1-xml&category=''"
    by (simp add: sublist_Cons_right)
  then have "sublist ''JsHttpRequest=1-xml''
     ((b @ ''/portal.php?type=series&action=get_ordered_list&movie_id=0&season_id=0&episode_id=0&row=0&'')
      @ ''JsHttpRequest=1-xml&category=''
      @ (fmt W cid @ ''&sortby=added&fav=0&hd=0&not_ended=0&abc=*&genre=*&years=*&search=&p='' @ dec p))"
    by (rule marker_inside)
  then show ?thesis
    by (simp add: series_list_url_def)
qed

lemma marker_seasons:
  "sublist ''JsHttpRequest=1-xml''
     (b @ ''/portal.php?type=series&action=get_ordered_list&movie_id='' @ q
        @ ''&season_id=0&episode_id=0&row=0&JsHttpRequest=1-xml&category='' @ c
        @ ''&sortby=added&fav=0&hd=0&not_ended=0&abc=*&genre=*&years=*&search=&p=1'')"
proof -
  have "sublist ''JsHttpRequest=1-xml'' ''&season_id=0&episode_id=0&row=0&JsHttpRequest=1-xml&category=''"
    by (simp add: sublist_Cons_right)
  then have "sublist ''JsHttpRequest=1-xml''
     ((b @ ''/portal.php?type=series&action=get_ordered_list&movie_id='' @ q)
      @ ''&season_id=0&episode_id=0&row=0&JsHttpRequest=1-xml&category=''
      @ (c @ ''&sortby=added&fav=0&hd=0&not_ended=0&abc=*&genre=*&years=*&search=&p=1''))"
    by (rule marker_inside)
  then show ?thesis
    by simp
qed

lemma not_create_link_vod_list: "\<not> is_create_link b \<lparr>url = vod_list_url W b cid p, headers = h\<rparr>"
  by (simp add: is_create_link_def vod_list_url_def)

lemma not_create_link_series_list: "\<not> is_create_link b \<lparr>url = series_list_url W b cid p, headers = h\<rparr>"
  by (simp add: is_create_link_def series_list_url_def)

lemma not_handshake_vod_list: "\<not> is_handshake b \<lparr>url = vod_list_url W b cid p, headers = h\<rparr>"
  by (simp add: is_handshake_def vod_list_url_def)

lemma not_handshake_series_list: "\<not> is_handshake b \<lparr>url = series_list_url W b cid p, headers = h\<rparr>"
  by (simp add: is_handshake_def series_list_url_def)

lemma events_ok_simps [simp]:
  "events_ok b h []"
  "events_ok b h (ev # t) \<longleftrightarrow> event_ok b h ev \<and> events_ok b h t"
  "events_ok b h (t @ t') \<longleftrightarrow> events_ok b h t \<and> events_ok b h t'"
  by (simp_all add: events_ok_def)

lemma event_ok_simps [simp]:
  "event_ok b h (Write s)"
  "\<not> event_ok b h Start"
  "event_ok b h (Get rq) \<longleftrightarrow> request_ok b h rq"
  by (simp_all add: event_ok_def)

lemmas request_defs = request_ok_def is_create_link_def is_handshake_def carries_marker_def

lemma get_token_ok: "events_ok b h (fst (get_token W b))"
  by (simp add: get_token_events request_defs marker_handshake)

lemma show_get_token_ok: "events_ok b h (fst (show_get_token W b))"
  by (simp add: show_get_token_events request_defs marker_handshake)

lemma get_subscription_ok: "events_ok b (auth W token) (fst (get_subscription W b token))"
  by (simp add: get_subscription_events request_defs marker_account)

lemma show_get_subscription_ok: "events_ok b (auth W token) (fst (show_get_subscription W b token))"
  by (simp add: show_get_subscription_events request_defs marker_account)

lemma get_vod_categories_ok: "events_ok b h (fst (get_vod_categories W b h))"
  by (simp add: get_vod_categories_events request_defs marker_vod_categories)

lemma get_series_categories_ok: "events_ok b h (fst (get_series_categories W b h))"
  by (simp add: get_series_categories_events request_defs marker_series_categories)

lemma prefix_vod_list_url: "prefix b (vod_list_url W b cid p)"
  by (simp add: vod_list_url_def)

lemma prefix_series_list_url: "prefix b (series_list_url W b cid p)"
  by (simp add: series_list_url_def)

lemma get_vod_list_ok: "events_ok b h (fst (get_vod_list W b h cid p))"
  by (simp add: get_vod_list_events request_ok_def carries_marker_def marker_vod_list
      prefix_vod_list_url not_create_link_vod_list not_handshake_vod_list)

lemma get_series_list_ok: "events_ok b h (fst (get_series_list W b h cid p))"
  by (simp add: get_series_list_events request_ok_def carries_marker_def marker_series_list
      prefix_series_list_url not_create_link_series_list not_handshake_series_list)

lemma get_seasons_episodes_ok: "events_ok b h (fst (get_seasons_episodes W b h sid cid))"
  using marker_seasons [of b "quote_str sid" "fmt W cid"]
  by (simp add: get_seasons_episodes_events request_defs)

lemma get_channel_list_events:
  "fst (get_channel_list W b h) = [Get (genres_rq b h)]
   \<or> fst (get_channel_list W b h) = [Get (genres_rq b h), Get (channels_rq b h)]"
  by (auto simp: get_channel_list_def genres_rq_def channels_rq_def io_simps Let_def
        split: sum.splits reply.splits)

lemma get_channel_list_ok: "events_ok b h (fst (get_channel_list W b h))"
  using get_channel_list_events [of W b h] marker_genres [of b] marker_channels [of b]
  by (auto simp: request_defs genres_rq_def channels_rq_def)

lemma fetch_play_link_ok: "events_ok b h (fst (fetch_play_link W b cmd))"
  by (cases "quote cmd") (simp_all add: fetch_play_link_events request_defs)

lemma show_fetch_play_link_ok: "events_ok b h (fst (show_fetch_play_link W b cmd ep))"
  by (simp add: show_fetch_play_link_events request_defs)

lemma vod_item_ok: "events_ok b h (fst (vod_item W b vod))"
  using vod_item_events [of W b vod] fetch_play_link_ok [of b h W]
  by auto

lemma episode_link_ok: "events_ok b h (fst (episode_link W b C ep))"
  using episode_link_events [of W b C ep] show_fetch_play_link_ok [of b h W]
  by auto

lemma pair_ok: "events_ok b h (fst m) \<Longrightarrow> m = (t, r) \<Longrightarrow> events_ok b h t"
  by simp

lemma save_vods_ok: "events_ok b h (fst (save_vods W b title vods c))"
proof (induction vods arbitrary: c)
  case Nil
  show ?case by simp
next
  case (Cons vod vods)
  note item = pair_ok [OF vod_item_ok [of b h W vod]]
  note rest = pair_ok [OF Cons.IH]
  show ?case
    by (auto split: prod.splits sum.splits dest: item rest)
qed

lemma save_vod_list_ok: "events_ok b h (fst (save_vod_list W vod_data b title))"
  by (cases "iterate vod_data") (simp_all add: save_vod_list_def io_simps save_vods_ok)

lemma save_episodes_ok: "events_ok b h (fst (save_episodes W b C eps c))"
proof (induction eps arbitrary: c)
  case Nil
  show ?case by simp
next
  case (Cons ep eps)
  note item = pair_ok [OF episode_link_ok [of b h W C ep]]
  note rest = pair_ok [OF Cons.IH]
  show ?case
    by (auto split: prod.splits sum.splits dest: item rest)
qed

lemma save_seasons_ok: "events_ok b h (fst (save_seasons W b ser title sid cat_title seasons c))"
proof (induction seasons arbitrary: c)
  case Nil
  show ?case by simp
next
  case (Cons season seasons)
  note eps = pair_ok [OF save_episodes_ok [of b h W]]
  note rest = pair_ok [OF Cons.IH]
  show ?case
    by (auto split: prod.splits sum.splits dest: eps rest)
qed

lemma series_head_ok: "events_ok b h (fst (series_head W b h ser))"
  by (simp add: series_head_def io_simps get_seasons_episodes_ok split: sum.splits)

lemma save_series_ok: "events_ok b h (fst (save_series W b h cat_title sers c))"
proof (induction sers arbitrary: c)
  case Nil
  show ?case by simp
next
  case (Cons ser sers)
  note hd = pair_ok [OF series_head_ok [of b h W ser]]
  note seasons = pair_ok [OF save_seasons_ok [of b h W]]
  note rest = pair_ok [OF Cons.IH]
  show ?case
    by (auto split: prod.splits sum.splits dest: hd seasons rest)
qed

lemma save_series_data_ok: "events_ok b h (fst (save_series_data W series_data b h cat_title))"
  by (cases "iterate series_data") (simp_all add: save_series_data_def io_simps save_series_ok)

lemma page_loop_ok:
  assumes run: "page_loop fetch save first tot sofar = Some y"
  shows "(\<forall>p. events_ok b h (fst (fetch p))) \<longrightarrow> (\<forall>d. events_ok b h (fst (save d))) \<longrightarrow>
         events_ok b h sofar \<longrightarrow> events_ok b h (fst y)"
proof (rule page_loop.raw_induct
    [where P = "\<lambda>fetch save first tot sofar y.
      (\<forall>p. events_ok b h (fst (fetch p))) \<longrightarrow> (\<forall>d. events_ok b h (fst (save d))) \<longrightarrow>
         events_ok b h sofar \<longrightarrow> events_ok b h (fst y)", OF _ run])
  fix loop :: "(nat \<Rightarrow> json io) \<Rightarrow> (json \<Rightarrow> int io) \<Rightarrow> nat \<Rightarrow> int \<Rightarrow> event list
     \<Rightarrow> (event list \<times> (exn + int)) option"
  fix fetch save first tot sofar y
  assume IH: "\<And>fetch save first tot sofar y. loop fetch save first tot sofar = Some y \<Longrightarrow>
      (\<forall>p. events_ok b h (fst (fetch p))) \<longrightarrow> (\<forall>d. events_ok b h (fst (save d))) \<longrightarrow>
         events_ok b h sofar \<longrightarrow> events_ok b h (fst y)"
  assume body: "(case fetch first of
        (t, Inl e) \<Rightarrow> Some (sofar @ t, Inl e)
      | (t, Inr data) \<Rightarrow>
          if \<not> truthy data then Some (sofar @ t, Inr tot)
          else (case save data of
                  (t', Inl e) \<Rightarrow> Some (sofar @ t @ t', Inl e)
                | (t', Inr count) \<Rightarrow>
                    loop fetch save (first + 1) (tot + count) (sofar @ t @ t'))) = Some y"
  show "(\<forall>p. events_ok b h (fst (fetch p))) \<longrightarrow> (\<forall>d. events_ok b h (fst (save d))) \<longrightarrow>
         events_ok b h sofar \<longrightarrow> events_ok b h (fst y)"
  proof (intro impI)
    assume f: "\<forall>p. events_ok b h (fst (fetch p))" and s: "\<forall>d. events_ok b h (fst (save d))"
      and sf: "events_ok b h sofar"
    obtain t r where fp: "fetch first = (t, r)"
      by (cases "fetch first")
    from f have "events_ok b h (fst (fetch first))" ..
    with fp have ok1: "events_ok b h t" by simp
    show "events_ok b h (fst y)"
    proof (cases r)
      case (Inl e)
      with body fp have "y = (sofar @ t, Inl e)" by simp
      with sf ok1 show ?thesis by simp
    next
      case (Inr d)
      show ?thesis
      proof (cases "truthy d")
        case False
        with body fp Inr have "y = (sofar @ t, Inr tot)" by simp
        with sf ok1 show ?thesis by simp
      next
        case True
        obtain t' r' where sd: "save d = (t', r')"
          by (cases "save d")
        from s have "events_ok b h (fst (save d))" ..
        with sd have ok2: "events_ok b h t'" by simp
        show ?thesis
        proof (cases r')
          case (Inl e)
          with body fp \<open>r = Inr d\<close> True sd have "y = (sofar @ t @ t', Inl e)" by simp
          with sf ok1 ok2 show ?thesis by simp
        next
          case (Inr c)
          with body fp \<open>r = Inr d\<close> True sd
          have "loop fetch save (first + 1) (tot + c) (sofar @ t @ t') = Some y" by simp
          from IH [OF this] f s sf ok1 ok2 show ?thesis by simp
        qed
      qed
    qed
  qed
qed

lemma fetch_and_save_vods_ok:
  assumes "fetch_and_save_vods W b h category = Some (t, r)"
  shows "events_ok b h t"
proof (cases "getitem category ''id''")
  case (Inl e)
  with assms show ?thesis by (simp add: fetch_and_save_vods_def)
next
  case cid: (Inr cid)
  show ?thesis
  proof (cases "getitem category ''title''")
    case (Inl e)
    with assms cid show ?thesis by (simp add: fetch_and_save_vods_def)
  next
    case title: (Inr title)
    show ?thesis
    proof (cases "cid = JStr ''*''")
      case True
      with assms cid title show ?thesis by (simp add: fetch_and_save_vods_def)
    next
      case False
      with assms cid title
      have "page_loop (get_vod_list W b h cid) (\<lambda>vod_data. save_vod_list W vod_data b title) 1 0 []
            = Some (t, r)"
        by (simp add: fetch_and_save_vods_def)
      from page_loop_ok [OF this, of b h] show ?thesis
        by (simp add: get_vod_list_ok save_vod_list_ok)
    qed
  qed
qed

lemma fetch_and_save_series_ok:
  assumes "fetch_and_save_series W b h category = Some (t, r)"
  shows "events_ok b h t"
proof (cases "getitem category ''id''")
  case (Inl e)
  with assms show ?thesis by (simp add: fetch_and_save_series_def)
next
  case cid: (Inr cid)
  show ?thesis
  proof (cases "getitem category ''title''")
    case (Inl e)
    with assms cid show ?thesis by (simp add: fetch_and_save_series_def)
  next
    case title: (Inr title)
    with assms cid
    have "page_loop (get_series_list W b h cid)
            (\<lambda>series_data. save_series_data W series_data b h title) 1 0 [] = Some (t, r)"
      by (simp add: fetch_and_save_series_def)
    from page_loop_ok [OF this, of b h] show ?thesis
      by (simp add: get_series_list_ok save_series_data_ok)
  qed
qed

lemma vod_submit_ok:
  "vod_submit W b h categories = Some (t, rs, x) \<Longrightarrow> events_ok b h t"
proof (induction categories arbitrary: t rs x)
  case Nil
  then show ?case by simp
next
  case (Cons category categories)
  show ?case
    using Cons.prems Cons.IH fetch_and_save_vods_ok [of W b h category]
    by (auto split: sum.splits if_splits option.splits prod.splits)
qed

lemma vod_pool_ok:
  "vod_pool W b h vod_categories = Some (t, r) \<Longrightarrow> events_ok b h t"
  using vod_submit_ok [of W b h]
  by (auto simp: vod_pool_def split: sum.splits option.splits prod.splits)

lemma show_categories_ok:
  "show_categories W b h categories = Some (t, r) \<Longrightarrow> events_ok b h t"
proof (induction categories arbitrary: t r)
  case Nil
  then show ?case by simp
next
  case (Cons category categories)
  show ?case
    using Cons.prems Cons.IH fetch_and_save_series_ok [of W b h category]
    by (auto split: sum.splits if_splits option.splits prod.splits)
qed

lemma write_channels_events_ok: "events_ok b h (fst (write_channels W b mac group_info channels))"
proof (induction channels)
  case Nil
  show ?case by simp
next
  case (Cons channel channels)
  then show ?case
    by (cases "channel_str W b mac group_info channel")
       (simp_all add: io_simps file_write_def)
qed

lemma save_channel_list_ok:
  "events_ok b h (fst (save_channel_list W op b channels_data group_info mac))"
  by (cases "iterate channels_data")
     (simp_all add: save_channel_list_def io_simps file_write_def write_channels_events_ok)




lemma maclist_body_no_token:
  assumes "maclist_get_base_url (link A) = Inr b" and "snd (get_token (net A) b) = Inl e"
  shows "fst (maclist_body A) = fst (get_token (net A) b)"
  using assms by (simp add: maclist_body_def io_simps)

lemma maclist_body_ok:
  assumes "maclist_get_base_url (link A) = Inr b" and "snd (get_token (net A) b) = Inr token"
  shows "events_ok b (auth (net A) token) (fst (maclist_body A))"
  using assms
  by (simp add: maclist_body_def io_simps Let_def get_token_ok get_subscription_ok
      get_channel_list_ok save_channel_list_ok split: sum.splits option.splits prod.splits)

lemma macvod_body_no_token:
  assumes "get_base_url (link A) = Inr b" and "snd (get_token (net A) b) = Inl e"
  shows "macvod_body A = Some (fst (get_token (net A) b), Inl e)"
  using assms by (cases "get_token (net A) b") (simp add: macvod_body_def)

lemma macvod_body_ok:
  assumes base: "get_base_url (link A) = Inr b" and tok: "snd (get_token (net A) b) = Inr token"
    and run: "macvod_body A = Some (t, r)"
  shows "events_ok b (auth (net A) token) t"
proof -
  let ?h = "auth (net A) token"
  note t1 = pair_ok [OF get_token_ok [of b ?h "net A"]]
  note t2 = pair_ok [OF get_subscription_ok [of b "net A" token]]
  note t3 = pair_ok [OF get_vod_categories_ok [of b ?h "net A"]]
  note t4 = vod_pool_ok [of "net A" b ?h]
  from base tok run show ?thesis
    by (auto simp: macvod_body_def split: prod.splits sum.splits if_splits option.splits
        dest: t1 t2 t3 t4)
qed

lemma macshow_body_no_token:
  assumes "get_base_url (link A) = Inr b" and "snd (show_get_token (net A) b) = Inl e"
  shows "macshow_body A = Some (fst (show_get_token (net A) b), Inl e)"
  using assms by (cases "show_get_token (net A) b") (simp add: macshow_body_def)

lemma macshow_body_ok:
  assumes base: "get_base_url (link A) = Inr b" and tok: "snd (show_get_token (net A) b) = Inr token"
    and run: "macshow_body A = Some (t, r)"
  shows "events_ok b (auth (net A) token) t"
proof -
  let ?h = "auth (net A) token"
  note t1 = pair_ok [OF show_get_token_ok [of b ?h "net A"]]
  note t2 = pair_ok [OF show_get_subscription_ok [of b "net A" token]]
  note t3 = pair_ok [OF get_series_categories_ok [of b ?h "net A"]]
  note t4 = show_categories_ok [of "net A" b ?h]
  from base tok run show ?thesis
    by (auto simp: macshow_body_def split: prod.splits sum.splits if_splits option.splits
        dest: t1 t2 t3 t4)
qed

lemma events_ok_request: "events_ok b h t \<Longrightarrow> Get rq \<in> set t \<Longrightarrow> request_ok b h rq"
  by (auto simp: events_ok_def list_all_iff event_ok_def)


lemma handshake_rq_ok: "request_ok b h (handshake_rq b)"
  by (simp add: handshake_rq_def request_defs marker_handshake)

lemma get_token_handshake: "fst (get_token W b) = [Get (handshake_rq b)]"
  by (simp add: get_token_events handshake_rq_def)

lemma show_get_token_handshake: "fst (show_get_token W b) = [Get (handshake_rq b)]"
  by (simp add: show_get_token_events handshake_rq_def)

lemma request_ok_prefix: "request_ok b h rq \<Longrightarrow> prefix b (url rq)"
  by (auto simp: request_ok_def is_create_link_def dest: append_prefixD split: if_splits)

lemma macvod_sent:
  assumes base: "get_base_url (link A) = Inr b" and run: "macvod_body A = Some (t, r)"
    and sent: "Get rq \<in> set t"
  shows "rq = handshake_rq b
         \<or> (\<exists>token. snd (get_token (net A) b) = Inr token \<and> request_ok b (auth (net A) token) rq)"
proof (cases "snd (get_token (net A) b)")
  case (Inl e)
  from macvod_body_no_token [OF base Inl] run sent show ?thesis
    by (simp add: get_token_handshake)
next
  case (Inr token)
  from events_ok_request [OF macvod_body_ok [OF base Inr run] sent] Inr show ?thesis
    by simp
qed

lemma macshow_sent:
  assumes base: "get_base_url (link A) = Inr b" and run: "macshow_body A = Some (t, r)"
    and sent: "Get rq \<in> set t"
  shows "rq = handshake_rq b
         \<or> (\<exists>token. snd (show_get_token (net A) b) = Inr token
                    \<and> request_ok b (auth (net A) token) rq)"
proof (cases "snd (show_get_token (net A) b)")
  case (Inl e)
  from macshow_body_no_token [OF base Inl] run sent show ?thesis
    by (simp add: show_get_token_handshake)
next
  case (Inr token)
  from events_ok_request [OF macshow_body_ok [OF base Inr run] sent] Inr show ?thesis
    by simp
qed

lemma maclist_sent:
  assumes base: "maclist_get_base_url (link A) = Inr b" and sent: "Get rq \<in> set (fst (maclist_body A))"
  shows "rq = handshake_rq b
         \<or> (\<exists>token. snd (get_token (net A) b) = Inr token \<and> request_ok b (auth (net A) token) rq)"
proof (cases "snd (get_token (net A) b)")
  case (Inl e)
  from maclist_body_no_token [OF base Inl] sent show ?thesis
    by (simp add: get_token_handshake)
next
  case (Inr token)
  from events_ok_request [OF maclist_body_ok [OF base Inr] sent] Inr show ?thesis
    by simp
qed

lemma sent_marker_and_header:
  assumes "rq = handshake_rq b \<or> (\<exists>token. tok = Inr token \<and> request_ok b (auth W token) rq)"
  shows "if is_create_link b rq then headers rq = []
         else carries_marker rq \<and>
              (if is_handshake b rq then headers rq = []
               else \<exists>token. tok = Inr token \<and> headers rq = auth W token)"
  using assms
proof
  assume "rq = handshake_rq b"
  then show ?thesis
    by (simp add: handshake_rq_def is_create_link_def is_handshake_def carries_marker_def
        marker_handshake)
next
  assume "\<exists>token. tok = Inr token \<and> request_ok b (auth W token) rq"
  then show ?thesis
    by (auto simp: request_ok_def)
qed

lemma sent_prefix:
  assumes "rq = handshake_rq b \<or> (\<exists>token. tok = Inr token \<and> request_ok b (auth W token) rq)"
  shows "prefix b (url rq)"
  using assms by (auto simp: handshake_rq_def dest: request_ok_prefix)

text \<open>
  Claim C4, amended. Of one invocation of \<open>main\<close> of any of the three programs, with the
  base URL \<open>b\<close> and the result \<open>tok\<close> of the handshake: a request for \<open>create_link\<close> carries
  no header (its URL is built without the marker); every other request carries the marker
  \<open>JsHttpRequest=1-xml\<close>, the handshake without a header and every other one with the
  header \<open>Authorization: Bearer token\<close> of the token the handshake returned.
\<close>

theorem requests_marker_and_header:
  assumes sent: "Get rq \<in> set t"
    and run:
      "maclist_get_base_url (link A) = Inr b \<and> maclist_body A = (t, r')
         \<and> tok = snd (get_token (net A) b)
       \<or> get_base_url (link A) = Inr b \<and> macvod_body A = Some (t, r)
         \<and> tok = snd (get_token (net A) b)
       \<or> get_base_url (link A) = Inr b \<and> macshow_body A = Some (t, r)
         \<and> tok = snd (show_get_token (net A) b)"
  shows "if is_create_link b rq then headers rq = []
         else carries_marker rq \<and>
              (if is_handshake b rq then headers rq = []
               else \<exists>token. tok = Inr token \<and> headers rq = auth (net A) token)"
proof -
  from run sent
  have "rq = handshake_rq b \<or> (\<exists>token. tok = Inr token \<and> request_ok b (auth (net A) token) rq)"
    using maclist_sent [of A b rq] macvod_sent [of A b t r rq] macshow_sent [of A b t r rq]
    by auto
  then show ?thesis
    by (rule sent_marker_and_header)
qed

lemma get_base_url_form:
  "port p = Inr po \<Longrightarrow>
   get_base_url p = Inr (''http://'' @ (case hostname p of None \<Rightarrow> [] | Some h \<Rightarrow> h) @ '':''
                        @ dec (case po of None \<Rightarrow> 80 | Some n \<Rightarrow> if n = 0 then 80 else n))"
  by (simp add: get_base_url_def)

lemma maclist_get_base_url_form:
  "port p = Inr po \<Longrightarrow>
   maclist_get_base_url p = Inr (''http://'' @ (case hostname p of None \<Rightarrow> ''None'' | Some h \<Rightarrow> h)
                                @ '':'' @ dec (case po of None \<Rightarrow> 80 | Some n \<Rightarrow> n))"
  by (simp add: maclist_get_base_url_def)

lemma base_url_ignores:
  "get_base_url (p\<lparr>scheme := s, path := pa, query := q\<rparr>) = get_base_url p"
  "maclist_get_base_url (p\<lparr>scheme := s, path := pa, query := q\<rparr>) = maclist_get_base_url p"
  by (simp_all add: get_base_url_def maclist_get_base_url_def)

text \<open>
  Claim C10. For a link whose port \<open>urlparse\<close> can read, the base URL is \<open>http://\<close>, the
  host, \<open>:\<close> and the port in decimal, the port being 80 when the link names none; the
  scheme, the path and the query of the link do not change it; and the URL of every request
  one invocation of \<open>main\<close> sends starts with it.
\<close>

theorem base_url_normalised:
  assumes "port (link A) = Inr po"
  shows "get_base_url (link A)
           = Inr (''http://'' @ (case hostname (link A) of None \<Rightarrow> [] | Some h \<Rightarrow> h) @ '':''
                  @ dec (case po of None \<Rightarrow> 80 | Some n \<Rightarrow> if n = 0 then 80 else n))
       \<and> maclist_get_base_url (link A)
           = Inr (''http://'' @ (case hostname (link A) of None \<Rightarrow> ''None'' | Some h \<Rightarrow> h) @ '':''
                  @ dec (case po of None \<Rightarrow> 80 | Some n \<Rightarrow> n))
       \<and> get_base_url ((link A)\<lparr>scheme := s, path := pa, query := q\<rparr>) = get_base_url (link A)
       \<and> maclist_get_base_url ((link A)\<lparr>scheme := s, path := pa, query := q\<rparr>)
           = maclist_get_base_url (link A)
       \<and> (\<forall>b t r rq. get_base_url (link A) = Inr b
             \<and> (macvod_body A = Some (t, r) \<or> macshow_body A = Some (t, r))
             \<and> Get rq \<in> set t \<longrightarrow> prefix b (url rq))
       \<and> (\<forall>b rq. maclist_get_base_url (link A) = Inr b \<and> Get rq \<in> set (fst (maclist_body A))
             \<longrightarrow> prefix b (url rq))"
proof -
  have vod: "prefix b (url rq)"
    if "get_base_url (link A) = Inr b" "macvod_body A = Some (t, r)" "Get rq \<in> set t"
    for b t r rq
    using sent_prefix [OF macvod_sent [OF that]] .
  have sho: "prefix b (url rq)"
    if "get_base_url (link A) = Inr b" "macshow_body A = Some (t, r)" "Get rq \<in> set t"
    for b t r rq
    using sent_prefix [OF macshow_sent [OF that]] .
  have lis: "prefix b (url rq)"
    if "maclist_get_base_url (link A) = Inr b" "Get rq \<in> set (fst (maclist_body A))"
    for b rq
    using sent_prefix [OF maclist_sent [OF that]] .
  from get_base_url_form [OF assms] maclist_get_base_url_form [OF assms]
    base_url_ignores [where p = "link A" and s = s and pa = pa and q = q] vod sho lis
  show ?thesis
    by blast
qed

section \<open>The handler of main\<close>





lemma starts_simps [simp]:
  "starts [] = 0"
  "starts (Start # t) = Suc (starts t)"
  "starts (t @ t') = starts t + starts t'"
  by (simp_all add: starts_def)















lemma portal_base: "get_base_url portal_link = Inr ''http://portal:80''"
  by (simp add: get_base_url_def portal_link_def dec.simps digit_char_def)





section \<open>A run against a portal with one movie\<close>

lemma movie_token:
  "get_token portal_world ''http://portal:80''
   = ([Get (handshake_rq ''http://portal:80'')], Inr (JStr ''tok''))"
  by (simp add: get_token_def handshake_rq_def portal_world_def world_of_def table_portal_def
      io_defs loads_def)

lemma movie_auth: "auth portal_world (JStr ''tok'') = bearer_tok"
  by (simp add: auth_def fmt_def bearer_tok_def)

lemma movie_subscription:
  "get_subscription portal_world ''http://portal:80'' (JStr ''tok'')
   = ([Get (account_rq ''http://portal:80'' bearer_tok)], Inr True)"
  by (simp add: get_subscription_def account_rq_def auth_def fmt_def bearer_tok_def
      portal_world_def world_of_def table_portal_def io_defs loads_def)

lemma movie_categories:
  "get_vod_categories portal_world ''http://portal:80'' bearer_tok
   = ([Get (vod_categories_rq ''http://portal:80'' bearer_tok)],
      Inr (JArr [all_category, movies_category]))"
  by (simp add: get_vod_categories_def vod_categories_rq_def portal_world_def world_of_def
      table_portal_def io_defs loads_def)

lemma movie_page1:
  "get_vod_list portal_world ''http://portal:80'' bearer_tok (JStr ''7'') 1
   = ([Get (vod_list_rq ''http://portal:80'' bearer_tok ''7'' ''1'')], Inr (JArr [good_movie]))"
  by (simp add: get_vod_list_def vod_list_url_def vod_list_rq_def fmt_def dec.simps digit_char_def
      portal_world_def world_of_def table_portal_def io_defs loads_def del: One_nat_def)

lemma movie_page2:
  "get_vod_list portal_world ''http://portal:80'' bearer_tok (JStr ''7'') 2
   = ([Get (vod_list_rq ''http://portal:80'' bearer_tok ''7'' ''2'')], Inr (JArr []))"
  by (simp add: get_vod_list_def vod_list_url_def vod_list_rq_def fmt_def dec.simps digit_char_def
      portal_world_def world_of_def table_portal_def io_defs loads_def)

lemma movie_item:
  "vod_item portal_world ''http://portal:80'' good_movie
   = ([Get (create_link_rq ''http://portal:80'' ''good'')],
      Inr (JStr ''Good'', JStr [], Some ''http://cdn/good.mp4''))"
  by (simp add: vod_item_def good_movie_def fetch_play_link_def create_link_rq_def quote_plain
      prod_eq_iff io_simps portal_world_def world_of_def table_portal_def loads_def
      second_token_def)

lemma movie_save:
  \<open>save_vod_list portal_world (JArr [good_movie]) ''http://portal:80'' (JStr ''Movies'')
   = ([Get (create_link_rq ''http://portal:80'' ''good''),
       Write ''#EXTINF:-1 tvg-logo="" group-title="Movies",Good\<newline>http://cdn/good.mp4\<newline>''],
      Inr 1)\<close>
  by (simp add: save_vod_list_def movie_item prod_eq_iff io_simps has_link_def vod_str_def fmt_def)

lemma movie_category:
  \<open>fetch_and_save_vods portal_world ''http://portal:80'' bearer_tok movies_category
   = Some ([Get (vod_list_rq ''http://portal:80'' bearer_tok ''7'' ''1''),
            Get (create_link_rq ''http://portal:80'' ''good''),
            Write ''#EXTINF:-1 tvg-logo="" group-title="Movies",Good\<newline>http://cdn/good.mp4\<newline>'',
            Get (vod_list_rq ''http://portal:80'' bearer_tok ''7'' ''2'')], Inr 1)\<close>
proof -
  let ?F = "get_vod_list portal_world ''http://portal:80'' bearer_tok (JStr ''7'')"
  let ?S = "\<lambda>vod_data. save_vod_list portal_world vod_data ''http://portal:80'' (JStr ''Movies'')"
  have good1: "page_good ?F ?S 1"
    by (simp add: page_good_def movie_page1 movie_save del: One_nat_def)
  have ends2: "fetch_ends ?F (Suc 1)"
    using movie_page2 by (simp add: fetch_ends_def numeral_2_eq_2 del: One_nat_def)
  have "page_loop ?F ?S 1 0 []
        = Some (([] @ page_events ?F ?S 1) @ page_events ?F ?S (Suc 1),
                last_page ?F (0 + page_count ?F ?S 1) (Suc 1))"
    by (simp only: page_loop_next [OF good1] page_loop_last [OF ends2])
  moreover have "page_events ?F ?S (Suc 1)
                 = [Get (vod_list_rq ''http://portal:80'' bearer_tok ''7'' ''2'')]"
    using movie_page2 by (simp add: page_events_def numeral_2_eq_2 del: One_nat_def)
  moreover have "last_page ?F (0 + page_count ?F ?S 1) (Suc 1) = Inr 1"
    using movie_page2
    by (simp add: last_page_def page_count_def movie_page1 movie_save numeral_2_eq_2
        del: One_nat_def)
  ultimately show ?thesis
    by (simp add: fetch_and_save_vods_def movies_category_def page_events_def movie_page1
        movie_save del: One_nat_def)
qed

lemma movie_body: "macvod_body movie_run = Some (movie_trace, Inr ())"
proof -
  have "vod_submit portal_world ''http://portal:80'' bearer_tok [all_category, movies_category]
        = Some (drop 4 movie_trace, [(movies_category, Inr 1)], None)"
    using movie_category
    by (simp add: all_category_def movie_trace_def) (simp add: movies_category_def)
  then have "vod_pool portal_world ''http://portal:80'' bearer_tok
               (JArr [all_category, movies_category]) = Some (drop 4 movie_trace, Inr ())"
    by (simp add: vod_pool_def movies_category_def)
  then show ?thesis
    using portal_base
    by (simp add: macvod_body_def movie_run_def movie_token movie_auth movie_subscription
        movie_categories movie_trace_def)
qed

lemma movie_run_parts:
  "net movie_run = portal_world" "link movie_run = portal_link"
  by (simp_all add: movie_run_def)

lemma portal_port: "port portal_link = Inr None"
  by (simp add: portal_link_def)

theorem requests_marker_and_header_witness:
  "get_base_url (link movie_run) = Inr ''http://portal:80''
   \<and> macvod_body movie_run = Some (movie_trace, Inr ())
   \<and> snd (get_token (net movie_run) ''http://portal:80'') = Inr (JStr ''tok'')
   \<and> Get (create_link_rq ''http://portal:80'' ''good'') \<in> set movie_trace
   \<and> is_create_link ''http://portal:80'' (create_link_rq ''http://portal:80'' ''good'')
   \<and> headers (create_link_rq ''http://portal:80'' ''good'') = []
   \<and> Get (account_rq ''http://portal:80'' bearer_tok) \<in> set movie_trace
   \<and> carries_marker (account_rq ''http://portal:80'' bearer_tok)
   \<and> headers (account_rq ''http://portal:80'' bearer_tok) = auth (net movie_run) (JStr ''tok'')"
proof -
  let ?b = "''http://portal:80''"
  have base: "get_base_url (link movie_run) = Inr ?b"
    by (simp add: movie_run_parts portal_base)
  have tok: "snd (get_token (net movie_run) ?b) = Inr (JStr ''tok'')"
    by (simp add: movie_run_parts movie_token)
  have run: "maclist_get_base_url (link movie_run) = Inr ?b \<and> maclist_body movie_run = (movie_trace, Inr ())
         \<and> Inr (JStr ''tok'') = snd (get_token (net movie_run) ?b)
       \<or> get_base_url (link movie_run) = Inr ?b \<and> macvod_body movie_run = Some (movie_trace, Inr ())
         \<and> Inr (JStr ''tok'') = snd (get_token (net movie_run) ?b)
       \<or> get_base_url (link movie_run) = Inr ?b \<and> macshow_body movie_run = Some (movie_trace, Inr ())
         \<and> Inr (JStr ''tok'') = snd (show_get_token (net movie_run) ?b)"
    using base tok movie_body by simp
  have in1: "Get (create_link_rq ?b ''good'') \<in> set movie_trace"
    and in2: "Get (account_rq ?b bearer_tok) \<in> set movie_trace"
    by (simp_all add: movie_trace_def)
  have c1: "is_create_link ?b (create_link_rq ?b ''good'')"
    by (simp add: is_create_link_def create_link_rq_def)
  have c2: "\<not> is_create_link ?b (account_rq ?b bearer_tok)"
    and c3: "\<not> is_handshake ?b (account_rq ?b bearer_tok)"
    by (simp_all add: is_create_link_def is_handshake_def account_rq_def)
  from requests_marker_and_header [OF in1 run] c1
  have "headers (create_link_rq ?b ''good'') = []"
    by simp
  moreover from requests_marker_and_header [OF in2 run] c2 c3
  have "carries_marker (account_rq ?b bearer_tok)
        \<and> headers (account_rq ?b bearer_tok) = auth (net movie_run) (JStr ''tok'')"
    by simp
  ultimately show ?thesis
    using base tok movie_body in1 in2 c1 by blast
qed

text \<open>
  Claim C4 as stated fails for the request that resolves a play link: in the run of
  \<open>macvod.py\<close> against a portal with one category of one movie, the \<open>create_link\<close> request is
  sent after the handshake has returned a token, its URL does not contain
  \<open>JsHttpRequest=1-xml\<close> and it carries no header, while the requests around it carry the
  header built from the token.
\<close>

theorem create_link_without_marker_or_header:
  "macvod_body movie_run = Some (movie_trace, Inr ())
   \<and> movie_trace ! 0 = Get (handshake_rq ''http://portal:80'')
   \<and> snd (get_token (net movie_run) ''http://portal:80'') = Inr (JStr ''tok'')
   \<and> auth (net movie_run) (JStr ''tok'') = [(''Authorization'', ''Bearer tok'')]
   \<and> movie_trace ! 5 = Get (create_link_rq ''http://portal:80'' ''good'')
   \<and> url (create_link_rq ''http://portal:80'' ''good'')
       = ''http://portal:80/portal.php?type=vod&action=create_link&cmd=good''
   \<and> \<not> carries_marker (create_link_rq ''http://portal:80'' ''good'')
   \<and> headers (create_link_rq ''http://portal:80'' ''good'') = []"
proof -
  have "\<not> carries_marker (create_link_rq ''http://portal:80'' ''good'')"
    by (simp add: carries_marker_def create_link_rq_def sublist_Cons_right)
  then show ?thesis
    by (simp add: movie_body movie_run_parts movie_token movie_auth bearer_tok_def
        movie_trace_def create_link_rq_def)
qed

theorem base_url_normalised_witness:
  "port (link movie_run) = Inr None
   \<and> scheme (link movie_run) = ''https''
   \<and> path (link movie_run) = ''/c/''
   \<and> get_base_url (link movie_run) = Inr ''http://portal:80''
   \<and> maclist_get_base_url (link movie_run) = Inr ''http://portal:80''
   \<and> get_base_url ((link movie_run)\<lparr>scheme := ''http'', path := [], query := []\<rparr>)
       = get_base_url (link movie_run)
   \<and> macvod_body movie_run = Some (movie_trace, Inr ())
   \<and> Get (create_link_rq ''http://portal:80'' ''good'') \<in> set movie_trace
   \<and> prefix ''http://portal:80'' (url (create_link_rq ''http://portal:80'' ''good''))"
proof -
  have p: "port (link movie_run) = Inr None"
    by (simp add: movie_run_parts portal_port)
  have d: "dec 80 = ''80''"
    by (simp add: dec.simps digit_char_def)
  have l: "scheme (link movie_run) = ''https''" "path (link movie_run) = ''/c/''"
    "hostname (link movie_run) = Some ''portal''"
    by (simp_all add: movie_run_parts portal_link_def)
  have in1: "Get (create_link_rq ''http://portal:80'' ''good'') \<in> set movie_trace"
    by (simp add: movie_trace_def)
  note inst = base_url_normalised [OF p, where s = "''http''" and pa = "[]" and q = "[]"]
  from inst have base: "get_base_url (link movie_run) = Inr ''http://portal:80''"
    and lbase: "maclist_get_base_url (link movie_run) = Inr ''http://portal:80''"
    and ign: "get_base_url ((link movie_run)\<lparr>scheme := ''http'', path := [], query := []\<rparr>)
       = get_base_url (link movie_run)"
    by (simp_all add: l d)
  from inst base movie_body in1
  have "prefix ''http://portal:80'' (url (create_link_rq ''http://portal:80'' ''good''))"
    by blast
  with p l base lbase ign movie_body in1 show ?thesis
    by blast
qed

section \<open>The entries of a category\<close>

lemma items_of_season:
  "map (item_entry W b) (filter (item_resolved W b) (map (Pair C) es))
   = map (episode_entry W b C) (filter (episode_resolved W b C) es)"
  "length (filter (item_resolved W b) (map (Pair C) es))
   = length (filter (episode_resolved W b C) es)"
  by (induction es) (simp_all add: item_entry_def item_resolved_def)

lemma item_resolved_Pair: "item_resolved W b \<circ> Pair C = episode_resolved W b C"
  by (rule ext) (simp add: item_resolved_def)

lemma item_entry_Pair: "item_entry W b \<circ> Pair C = episode_entry W b C"
  by (rule ext) (simp add: item_entry_def)

lemma save_episodes_written:
  "s \<in> set (writes (fst (save_episodes W b C eps c))) \<Longrightarrow>
     \<exists>ep \<in> set eps. episode_resolved W b C ep \<and> s = episode_entry W b C ep"
proof (induction eps arbitrary: c)
  case Nil
  then show ?case by simp
next
  case (Cons ep eps)
  obtain t1 r1 where item: "episode_link W b C ep = (t1, r1)"
    by (cases "episode_link W b C ep")
  have w1: "writes t1 = []"
    using writes_episode_link [of W b C ep] item by simp
  show ?case
  proof (cases r1)
    case (Inl e)
    with Cons.prems item w1 show ?thesis by simp
  next
    case (Inr x)
    then obtain k play_link where r1: "r1 = Inr (k, play_link)"
      by (cases x) auto
    show ?thesis
    proof (cases "has_link play_link")
      case True
      show ?thesis
      proof (cases "episode_text W C ep k (the play_link)")
        case (Inl e)
        with Cons.prems item r1 True w1 show ?thesis by simp
      next
        case etext: (Inr s')
        with Cons.prems item r1 True w1
        have "s = s' \<or> s \<in> set (writes (fst (save_episodes W b C eps (c + 1))))"
          by (auto split: prod.splits)
        then show ?thesis
        proof
          assume "s = s'"
          with item r1 True etext show ?thesis
            by (auto simp: episode_resolved_def episode_entry_def)
        next
          assume "s \<in> set (writes (fst (save_episodes W b C eps (c + 1))))"
          from Cons.IH [OF this] show ?thesis by auto
        qed
      qed
    next
      case False
      with Cons.prems item r1 w1
      have "s \<in> set (writes (fst (save_episodes W b C eps c)))"
        by (auto split: prod.splits)
      from Cons.IH [OF this] show ?thesis by auto
    qed
  qed
qed

lemma season_items_written:
  assumes "season_head season = Inr (num, n_eps, es)"
    and "s \<in> set (writes (fst (save_episodes W b
            \<lparr>series = ser, series_title = title, series_id = sid, season_num = num,
             total_episodes = n_eps, category_title = cat_title\<rparr> es c)))"
  shows "\<exists>x \<in> set (season_items ser title sid cat_title season).
           item_resolved W b x \<and> s = item_entry W b x"
  using save_episodes_written [OF assms(2)] assms(1)
  by (auto simp: season_items_def item_resolved_def item_entry_def)

lemma save_seasons_written:
  "s \<in> set (writes (fst (save_seasons W b ser title sid cat_title seasons c))) \<Longrightarrow>
     \<exists>x \<in> set (concat (map (season_items ser title sid cat_title) seasons)).
        item_resolved W b x \<and> s = item_entry W b x"
proof (induction seasons arbitrary: c)
  case Nil
  then show ?case by simp
next
  case (Cons season seasons)
  show ?case
  proof (cases "season_head season")
    case (Inl e)
    with Cons.prems show ?thesis by simp
  next
    case (Inr x)
    then obtain num n_eps es where hd: "season_head season = Inr (num, n_eps, es)"
      by (cases x) auto
    let ?C = "\<lparr>series = ser, series_title = title, series_id = sid, season_num = num,
               total_episodes = n_eps, category_title = cat_title\<rparr>"
    obtain t1 r1 where eps: "save_episodes W b ?C es c = (t1, r1)"
      by (cases "save_episodes W b ?C es c")
    have here: "\<exists>x \<in> set (season_items ser title sid cat_title season).
           item_resolved W b x \<and> s = item_entry W b x" if "s \<in> set (writes t1)"
      using season_items_written [OF hd, of s W b ser title sid cat_title c] that eps by simp
    show ?thesis
    proof (cases r1)
      case (Inl e)
      with Cons.prems hd eps have "s \<in> set (writes t1)" by simp
      from here [OF this] show ?thesis by auto
    next
      case (Inr c')
      with Cons.prems hd eps
      have "s \<in> set (writes t1)
            \<or> s \<in> set (writes (fst (save_seasons W b ser title sid cat_title seasons c')))"
        by (auto split: prod.splits)
      then show ?thesis
      proof
        assume "s \<in> set (writes t1)"
        from here [OF this] show ?thesis by auto
      next
        assume "s \<in> set (writes (fst (save_seasons W b ser title sid cat_title seasons c')))"
        from Cons.IH [OF this] show ?thesis by auto
      qed
    qed
  qed
qed

lemma save_seasons_returns:
  "save_seasons W b ser title sid cat_title seasons c = (t, Inr n) \<Longrightarrow>
     writes t = map (item_entry W b) (filter (item_resolved W b)
                  (concat (map (season_items ser title sid cat_title) seasons)))
     \<and> n = c + int (length (filter (item_resolved W b)
                  (concat (map (season_items ser title sid cat_title) seasons))))"
proof (induction seasons arbitrary: c t)
  case Nil
  then show ?case by simp
next
  case (Cons season seasons)
  from Cons.prems obtain num n_eps es where hd: "season_head season = Inr (num, n_eps, es)"
    by (cases "season_head season") auto
  let ?C = "\<lparr>series = ser, series_title = title, series_id = sid, season_num = num,
             total_episodes = n_eps, category_title = cat_title\<rparr>"
  obtain t1 r1 where eps: "save_episodes W b ?C es c = (t1, r1)"
    by (cases "save_episodes W b ?C es c")
  with Cons.prems hd obtain c' where r1: "r1 = Inr c'"
    by (cases r1) auto
  obtain t2 r2 where rest: "save_seasons W b ser title sid cat_title seasons c' = (t2, r2)"
    by (cases "save_seasons W b ser title sid cat_title seasons c'")
  with Cons.prems hd eps r1 have t: "t = t1 @ t2" and r2: "r2 = Inr n"
    by auto
  from rest r2 Cons.IH [of c' t2]
  have ih: "writes t2 = map (item_entry W b) (filter (item_resolved W b)
                  (concat (map (season_items ser title sid cat_title) seasons)))"
    "n = c' + int (length (filter (item_resolved W b)
                  (concat (map (season_items ser title sid cat_title) seasons))))"
    by auto
  from save_episodes_returns [of W b ?C es c t1 c'] eps r1
  have "c' = c + int (length (filter (episode_resolved W b ?C) es))"
    and "writes t1 = map (episode_entry W b ?C) (filter (episode_resolved W b ?C) es)"
    by auto
  moreover have "season_items ser title sid cat_title season = map (Pair ?C) es"
    using hd by (simp add: season_items_def)
  ultimately show ?case
    using t ih by (simp add: filter_map item_resolved_Pair item_entry_Pair)
qed

lemma save_series_written:
  "s \<in> set (writes (fst (save_series W b h cat_title sers c))) \<Longrightarrow>
     \<exists>x \<in> set (concat (map (series_items W b h cat_title) sers)).
        item_resolved W b x \<and> s = item_entry W b x"
proof (induction sers arbitrary: c)
  case Nil
  then show ?case by simp
next
  case (Cons ser sers)
  obtain t1 r1 where hd: "series_head W b h ser = (t1, r1)"
    by (cases "series_head W b h ser")
  have w1: "writes t1 = []"
    using writes_series_head [of W b h ser] hd by simp
  show ?case
  proof (cases r1)
    case (Inl e)
    with Cons.prems hd w1 show ?thesis by simp
  next
    case (Inr x)
    then obtain title sid seasons_data where r1: "r1 = Inr (title, sid, seasons_data)"
      by (cases x) auto
    show ?thesis
    proof (cases "truthy seasons_data")
      case False
      with Cons.prems hd r1 w1
      have "s \<in> set (writes (fst (save_series W b h cat_title sers c)))"
        by (auto split: prod.splits)
      from Cons.IH [OF this] show ?thesis by auto
    next
      case True
      show ?thesis
      proof (cases "iterate seasons_data")
        case (Inl e)
        with Cons.prems hd r1 True w1 show ?thesis by simp
      next
        case it: (Inr seasons)
        then have items: "series_items W b h cat_title ser
                          = concat (map (season_items ser title sid cat_title) seasons)"
          using hd r1 True by (simp add: series_items_def json_items_def)
        obtain t2 r2 where ss: "save_seasons W b ser title sid cat_title seasons c = (t2, r2)"
          by (cases "save_seasons W b ser title sid cat_title seasons c")
        have here: "\<exists>x \<in> set (series_items W b h cat_title ser).
                      item_resolved W b x \<and> s = item_entry W b x" if "s \<in> set (writes t2)"
          using save_seasons_written [of s W b ser title sid cat_title seasons c] that ss items
          by simp
        show ?thesis
        proof (cases r2)
          case (Inl e)
          with Cons.prems hd r1 True it ss w1 have "s \<in> set (writes t2)" by simp
          from here [OF this] show ?thesis by auto
        next
          case (Inr c')
          with Cons.prems hd r1 True it ss w1
          have "s \<in> set (writes t2)
                \<or> s \<in> set (writes (fst (save_series W b h cat_title sers c')))"
            by (auto split: prod.splits)
          then show ?thesis
          proof
            assume "s \<in> set (writes t2)"
            from here [OF this] show ?thesis by auto
          next
            assume "s \<in> set (writes (fst (save_series W b h cat_title sers c')))"
            from Cons.IH [OF this] show ?thesis by auto
          qed
        qed
      qed
    qed
  qed
qed

lemma save_series_returns:
  "save_series W b h cat_title sers c = (t, Inr n) \<Longrightarrow>
     writes t = map (item_entry W b) (filter (item_resolved W b)
                  (concat (map (series_items W b h cat_title) sers)))
     \<and> n = c + int (length (filter (item_resolved W b)
                  (concat (map (series_items W b h cat_title) sers))))"
proof (induction sers arbitrary: c t)
  case Nil
  then show ?case by simp
next
  case (Cons ser sers)
  obtain t1 r1 where hd: "series_head W b h ser = (t1, r1)"
    by (cases "series_head W b h ser")
  have w1: "writes t1 = []"
    using writes_series_head [of W b h ser] hd by simp
  from Cons.prems hd obtain title sid seasons_data where r1: "r1 = Inr (title, sid, seasons_data)"
    by (cases r1) auto
  show ?case
  proof (cases "truthy seasons_data")
    case True
    with Cons.prems hd r1 obtain seasons where it: "iterate seasons_data = Inr seasons"
      by (cases "iterate seasons_data") auto
    then have items: "series_items W b h cat_title ser
                      = concat (map (season_items ser title sid cat_title) seasons)"
      using hd r1 True by (simp add: series_items_def json_items_def)
    obtain t2 r2 where ss: "save_seasons W b ser title sid cat_title seasons c = (t2, r2)"
      by (cases "save_seasons W b ser title sid cat_title seasons c")
    with Cons.prems hd r1 True it obtain c' where r2: "r2 = Inr c'"
      by (cases r2) auto
    obtain t3 r3 where rest: "save_series W b h cat_title sers c' = (t3, r3)"
      by (cases "save_series W b h cat_title sers c'")
    with Cons.prems hd r1 True it ss r2 have t: "t = t1 @ t2 @ t3" and r3: "r3 = Inr n"
      by auto
    from rest r3 Cons.IH [of c' t3]
    have ih: "writes t3 = map (item_entry W b) (filter (item_resolved W b)
                  (concat (map (series_items W b h cat_title) sers)))"
      "n = c' + int (length (filter (item_resolved W b)
                  (concat (map (series_items W b h cat_title) sers))))"
      by auto
    from save_seasons_returns [of W b ser title sid cat_title seasons c t2 c'] ss r2 items
    have "writes t2 = map (item_entry W b) (filter (item_resolved W b)
                        (series_items W b h cat_title ser))"
      and "c' = c + int (length (filter (item_resolved W b) (series_items W b h cat_title ser)))"
      by auto
    with t w1 ih show ?thesis
      by simp
  next
    case False
    then have items: "series_items W b h cat_title ser = []"
      using hd r1 by (simp add: series_items_def)
    obtain t3 r3 where rest: "save_series W b h cat_title sers c = (t3, r3)"
      by (cases "save_series W b h cat_title sers c")
    with Cons.prems hd r1 False have t: "t = t1 @ t3" and "r3 = Inr n"
      by auto
    with rest Cons.IH [of c t3] show ?thesis
      using w1 items by simp
  qed
qed

lemma save_vod_list_returns:
  assumes "save_vod_list W d b title = (t, Inr n)"
  shows "writes t = map (vod_entry W b title) (filter (vod_resolved W b) (json_items d))
         \<and> n = int (length (filter (vod_resolved W b) (json_items d)))"
proof -
  from assms obtain vods where it: "iterate d = Inr vods"
    by (cases "iterate d") (auto simp: save_vod_list_def io_defs)
  with assms have "save_vods W b title vods 0 = (t, Inr n)"
    by (auto simp: save_vod_list_def io_defs split: prod.splits sum.splits)
  from save_vods_returns [OF this] it show ?thesis
    by (simp add: json_items_def)
qed

lemma save_vod_list_written:
  assumes "s \<in> set (writes (fst (save_vod_list W d b title)))"
  shows "\<exists>vod \<in> set (json_items d). vod_resolved W b vod \<and> s = vod_entry W b title vod"
proof -
  from assms obtain vods where it: "iterate d = Inr vods"
    by (cases "iterate d") (auto simp: save_vod_list_def io_simps)
  then have "save_vod_list W d b title = save_vods W b title vods 0"
    by (simp add: save_vod_list_def io_simps prod_eq_iff)
  with assms have "s \<in> set (writes (fst (save_vods W b title vods 0)))"
    by simp
  from save_vods_written [OF this] it show ?thesis
    by (simp add: json_items_def)
qed

lemma save_series_data_returns:
  assumes "save_series_data W d b h cat_title = (t, Inr n)"
  shows "writes t = map (item_entry W b) (filter (item_resolved W b)
                      (concat (map (series_items W b h cat_title) (json_items d))))
         \<and> n = int (length (filter (item_resolved W b)
                      (concat (map (series_items W b h cat_title) (json_items d)))))"
proof -
  from assms obtain sers where it: "iterate d = Inr sers"
    by (cases "iterate d") (auto simp: save_series_data_def io_defs)
  with assms have "save_series W b h cat_title sers 0 = (t, Inr n)"
    by (auto simp: save_series_data_def io_defs split: prod.splits sum.splits)
  from save_series_returns [OF this] it show ?thesis
    by (simp add: json_items_def)
qed

lemma save_series_data_written:
  assumes "s \<in> set (writes (fst (save_series_data W d b h cat_title)))"
  shows "\<exists>x \<in> set (concat (map (series_items W b h cat_title) (json_items d))).
           item_resolved W b x \<and> s = item_entry W b x"
proof -
  from assms obtain sers where it: "iterate d = Inr sers"
    by (cases "iterate d") (auto simp: save_series_data_def io_simps)
  then have "save_series_data W d b h cat_title = save_series W b h cat_title sers 0"
    by (simp add: save_series_data_def io_simps prod_eq_iff)
  with assms have "s \<in> set (writes (fst (save_series W b h cat_title sers 0)))"
    by simp
  from save_series_written [OF this] it show ?thesis
    by (simp add: json_items_def)
qed

text \<open>The page loop stops at the first page that is not good.\<close>

lemma page_loop_stop:
  assumes "\<not> page_good fetch save m"
  shows "\<exists>r. page_loop fetch save m tot sofar = Some (sofar @ page_events fetch save m, r)
             \<and> (\<forall>n. r = Inr n \<longrightarrow> fetch_ends fetch m \<and> n = tot)"
proof -
  obtain t r where f: "fetch m = (t, r)"
    by (cases "fetch m")
  show ?thesis
  proof (cases r)
    case (Inl e)
    with f have "page_loop fetch save m tot sofar = Some (sofar @ page_events fetch save m, Inl e)"
      by (subst page_loop.simps) (simp add: page_events_def)
    then show ?thesis by simp
  next
    case (Inr d)
    show ?thesis
    proof (cases "truthy d")
      case False
      with f Inr
      have "page_loop fetch save m tot sofar = Some (sofar @ page_events fetch save m, Inr tot)"
        by (subst page_loop.simps) (simp add: page_events_def)
      moreover from f Inr False have "fetch_ends fetch m"
        by (simp add: fetch_ends_def)
      ultimately show ?thesis by simp
    next
      case True
      obtain t' r' where s: "save d = (t', r')"
        by (cases "save d")
      with assms f Inr True obtain e where r': "r' = Inl e"
        by (cases r') (auto simp: page_good_def)
      with f Inr True s
      have "page_loop fetch save m tot sofar = Some (sofar @ page_events fetch save m, Inl e)"
        by (subst page_loop.simps) (simp add: page_events_def)
      then show ?thesis by simp
    qed
  qed
qed

lemma page_loop_stops:
  assumes "\<not> page_good fetch save m"
  shows "first \<le> m \<Longrightarrow> (\<forall>p. first \<le> p \<and> p < m \<longrightarrow> page_good fetch save p) \<Longrightarrow>
     \<exists>r. page_loop fetch save first tot sofar
            = Some (sofar @ concat (map (page_events fetch save) [first..<Suc m]), r)
          \<and> (\<forall>n. r = Inr n \<longrightarrow> fetch_ends fetch m
                \<and> n = tot + sum_list (map (page_count fetch save) [first..<m]))"
proof (induction "m - first" arbitrary: first tot sofar)
  case 0
  then have "first = m" by simp
  with page_loop_stop [OF assms, of tot sofar] show ?case
    by simp
next
  case (Suc k)
  then have lt: "first < m" by simp
  with Suc.prems have good: "page_good fetch save first" by simp
  have "k = m - Suc first" using Suc.hyps(2) by simp
  moreover have "Suc first \<le> m" using lt by simp
  moreover have "\<forall>p. Suc first \<le> p \<and> p < m \<longrightarrow> page_good fetch save p"
    using Suc.prems(2) by simp
  ultimately have "\<exists>r. page_loop fetch save (Suc first) (tot + page_count fetch save first)
        (sofar @ page_events fetch save first)
     = Some ((sofar @ page_events fetch save first)
               @ concat (map (page_events fetch save) [Suc first..<Suc m]), r)
     \<and> (\<forall>n. r = Inr n \<longrightarrow> fetch_ends fetch m
           \<and> n = tot + page_count fetch save first
                 + sum_list (map (page_count fetch save) [Suc first..<m]))"
    by (rule Suc.hyps(1))
  moreover have "[first..<Suc m] = first # [Suc first..<Suc m]"
    using lt by (simp add: upt_conv_Cons)
  moreover have "[first..<m] = first # [Suc first..<m]"
    using lt by (simp add: upt_conv_Cons)
  ultimately show ?case
    using page_loop_next [OF good, of tot sofar] by (simp add: add.assoc)
qed

lemma page_loop_trace:
  assumes run: "page_loop fetch save first tot sofar = Some (t, r)"
  shows "\<exists>m. first \<le> m \<and> (\<forall>p. first \<le> p \<and> p < m \<longrightarrow> page_good fetch save p)
             \<and> t = sofar @ concat (map (page_events fetch save) [first..<Suc m])
             \<and> (\<forall>n. r = Inr n \<longrightarrow> fetch_ends fetch m
                   \<and> n = tot + sum_list (map (page_count fetch save) [first..<m]))"
proof -
  from page_loop_returns [OF run] obtain m where m: "first \<le> m"
    and before: "\<forall>p. first \<le> p \<and> p < m \<longrightarrow> page_good fetch save p"
    and at: "\<not> page_good fetch save m"
    by blast
  from page_loop_stops [OF at m before, of tot sofar] run m before show ?thesis
    by auto
qed

text \<open>The entries of the pages: \<open>ents d\<close> are the entries a page with the data \<open>d\<close> has
  when its processing returns.\<close>

lemma good_page_writes:
  assumes fw: "\<And>p. writes (fst (fetch p)) = []"
    and sv: "\<And>d t c. save d = (t, Inr c) \<Longrightarrow> writes t = ents d \<and> c = int (length (ents d))"
    and good: "page_good fetch save p"
  shows "\<exists>d. snd (fetch p) = Inr d
             \<and> writes (page_events fetch save p) = ents d
             \<and> page_count fetch save p = int (length (ents d))"
proof -
  from good obtain d where d: "snd (fetch p) = Inr d" "truthy d"
    by (cases "snd (fetch p)") (auto simp: page_good_def)
  with good obtain c where c: "snd (save d) = Inr c"
    by (cases "snd (save d)") (auto simp: page_good_def)
  then have "save d = (fst (save d), Inr c)"
    by (simp add: prod_eq_iff)
  from sv [OF this] d c fw [of p] show ?thesis
    by (simp add: page_events_def page_count_def)
qed

lemma page_loop_entries:
  assumes run: "page_loop fetch save first tot sofar = Some (t, Inr n)"
    and fw: "\<And>p. writes (fst (fetch p)) = []"
    and sv: "\<And>d t c. save d = (t, Inr c) \<Longrightarrow> writes t = ents d \<and> c = int (length (ents d))"
    and data: "\<And>p d. snd (fetch p) = Inr d \<Longrightarrow> ents d = page p"
  shows "\<exists>m. first \<le> m \<and> fetch_ends fetch m \<and> (\<forall>p. first \<le> p \<and> p < m \<longrightarrow> \<not> fetch_ends fetch p)
             \<and> writes t = writes sofar @ concat (map page [first..<m])
             \<and> n = tot + int (length (concat (map page [first..<m])))"
proof -
  from page_loop_trace [OF run] obtain m where m: "first \<le> m"
    and before: "\<forall>p. first \<le> p \<and> p < m \<longrightarrow> page_good fetch save p"
    and t: "t = sofar @ concat (map (page_events fetch save) [first..<Suc m])"
    and ends: "fetch_ends fetch m"
    and n: "n = tot + sum_list (map (page_count fetch save) [first..<m])"
    by blast
  have good: "writes (page_events fetch save p) = page p
              \<and> page_count fetch save p = int (length (page p)) \<and> \<not> fetch_ends fetch p"
    if "first \<le> p" "p < m" for p
  proof -
    from before that have g: "page_good fetch save p" by simp
    from good_page_writes [of fetch save ents, OF fw sv g] data [of p]
    have "writes (page_events fetch save p) = page p"
      and "page_count fetch save p = int (length (page p))"
      by auto
    moreover from g have "\<not> fetch_ends fetch p"
      by (auto simp: page_good_def fetch_ends_def split: sum.splits)
    ultimately show ?thesis by simp
  qed
  have last: "writes (page_events fetch save m) = []"
    using last_page_events [OF ends, of save] fw [of m] by simp
  have w: "writes (concat (map (page_events fetch save) ps)) = concat (map page ps)"
    and c: "sum_list (map (page_count fetch save) ps) = int (length (concat (map page ps)))"
    if "set ps \<subseteq> {first..<m}" for ps
    using that by (induction ps) (simp_all add: good)
  have "[first..<Suc m] = [first..<m] @ [m]"
    using m by simp
  then have "writes t = writes sofar @ concat (map page [first..<m])"
    using t w [of "[first..<m]"] last by simp
  moreover have "n = tot + int (length (concat (map page [first..<m])))"
    using n c [of "[first..<m]"] by simp
  ultimately show ?thesis
    using m ends good by blast
qed

lemma page_loop_written:
  assumes run: "page_loop fetch save first tot sofar = Some (t, r)"
    and fw: "\<And>p. writes (fst (fetch p)) = []"
    and s: "s \<in> set (writes t)"
  shows "s \<in> set (writes sofar)
         \<or> (\<exists>p d. first \<le> p \<and> snd (fetch p) = Inr d \<and> s \<in> set (writes (fst (save d))))"
proof -
  from page_loop_trace [OF run] obtain m
    where t: "t = sofar @ concat (map (page_events fetch save) [first..<Suc m])"
    by blast
  have w: "set (writes (concat ts)) = (\<Union>t \<in> set ts. set (writes t))" for ts
    by (induction ts) simp_all
  from s t have "s \<in> set (writes sofar)
                 \<or> (\<exists>p \<in> set [first..<Suc m]. s \<in> set (writes (page_events fetch save p)))"
    by (auto simp: w)
  then show ?thesis
  proof
    assume "s \<in> set (writes sofar)"
    then show ?thesis ..
  next
    assume "\<exists>p \<in> set [first..<Suc m]. s \<in> set (writes (page_events fetch save p))"
    then obtain p where p: "first \<le> p" and sp: "s \<in> set (writes (page_events fetch save p))"
      by auto
    from sp fw [of p] obtain d where "snd (fetch p) = Inr d" "s \<in> set (writes (fst (save d)))"
      by (cases "snd (fetch p)") (auto simp: page_events_def split: if_splits)
    with p show ?thesis by blast
  qed
qed

lemma fetch_and_save_vods_entries:
  assumes cid: "getitem category ''id'' = Inr cid"
    and title: "getitem category ''title'' = Inr title"
    and ns: "cid \<noteq> JStr ''*''"
    and run: "fetch_and_save_vods W b h category = Some (t, Inr n)"
  shows "\<exists>m. 1 \<le> m \<and> fetch_ends (get_vod_list W b h cid) m
             \<and> (\<forall>p. 1 \<le> p \<and> p < m \<longrightarrow> \<not> fetch_ends (get_vod_list W b h cid) p)
             \<and> writes t = map (vod_entry W b title)
                            (filter (vod_resolved W b) (vod_items_before W b h cid m))
             \<and> n = int (length (filter (vod_resolved W b) (vod_items_before W b h cid m)))"
proof -
  let ?F = "get_vod_list W b h cid"
  let ?S = "\<lambda>vod_data. save_vod_list W vod_data b title"
  let ?ents = "\<lambda>d. map (vod_entry W b title) (filter (vod_resolved W b) (json_items d))"
  let ?page = "\<lambda>p. map (vod_entry W b title) (filter (vod_resolved W b) (vod_page_items W b h cid p))"
  from run cid title ns have loop: "page_loop ?F ?S 1 0 [] = Some (t, Inr n)"
    by (simp add: fetch_and_save_vods_def)
  have fw: "\<And>p. writes (fst (?F p)) = []"
    by (simp add: get_vod_list_events)
  have sv: "\<And>d t c. ?S d = (t, Inr c) \<Longrightarrow> writes t = ?ents d \<and> c = int (length (?ents d))"
    using save_vod_list_returns [of W _ b title] by simp
  have data: "\<And>p d. snd (?F p) = Inr d \<Longrightarrow> ?ents d = ?page p"
    by (simp add: vod_page_items_def)
  from page_loop_entries [of ?F ?S 1 0 "[]" t n ?ents ?page, OF loop fw sv data]
  obtain m where "1 \<le> m" "fetch_ends ?F m" "\<forall>p. 1 \<le> p \<and> p < m \<longrightarrow> \<not> fetch_ends ?F p"
    and w: "writes t = concat (map ?page [1..<m])"
    and c: "n = int (length (concat (map ?page [1..<m])))"
    by auto
  moreover have "concat (map ?page ps)
                 = map (vod_entry W b title)
                     (filter (vod_resolved W b) (concat (map (vod_page_items W b h cid) ps)))" for ps
    by (induction ps) simp_all
  ultimately show ?thesis
    by (auto simp: vod_items_before_def simp del: One_nat_def)
qed

lemma fetch_and_save_vods_written:
  assumes cid: "getitem category ''id'' = Inr cid"
    and title: "getitem category ''title'' = Inr title"
    and run: "fetch_and_save_vods W b h category = Some (t, r)"
    and s: "s \<in> set (writes t)"
  shows "\<exists>p vod. 1 \<le> p \<and> vod \<in> set (vod_page_items W b h cid p)
                 \<and> vod_resolved W b vod \<and> s = vod_entry W b title vod"
proof -
  let ?F = "get_vod_list W b h cid"
  let ?S = "\<lambda>vod_data. save_vod_list W vod_data b title"
  from run s cid title have ns: "cid \<noteq> JStr ''*''"
    by (auto simp: fetch_and_save_vods_def)
  with run cid title have loop: "page_loop ?F ?S 1 0 [] = Some (t, r)"
    by (simp add: fetch_and_save_vods_def)
  have fw: "\<And>p. writes (fst (?F p)) = []"
    by (simp add: get_vod_list_events)
  from page_loop_written [of ?F ?S 1 0 "[]" t r s, OF loop fw s]
  obtain p d where p: "1 \<le> p" and d: "snd (?F p) = Inr d"
    and sd: "s \<in> set (writes (fst (save_vod_list W d b title)))"
    by auto
  from save_vod_list_written [OF sd] d
  have "\<exists>vod \<in> set (vod_page_items W b h cid p). vod_resolved W b vod \<and> s = vod_entry W b title vod"
    by (simp add: vod_page_items_def)
  with p show ?thesis
    by blast
qed

lemma fetch_and_save_series_entries:
  assumes cid: "getitem category ''id'' = Inr cid"
    and title: "getitem category ''title'' = Inr title"
    and run: "fetch_and_save_series W b h category = Some (t, Inr n)"
  shows "\<exists>m. 1 \<le> m \<and> fetch_ends (get_series_list W b h cid) m
             \<and> (\<forall>p. 1 \<le> p \<and> p < m \<longrightarrow> \<not> fetch_ends (get_series_list W b h cid) p)
             \<and> writes t = map (item_entry W b)
                            (filter (item_resolved W b) (series_items_before W b h cid title m))
             \<and> n = int (length (filter (item_resolved W b)
                                   (series_items_before W b h cid title m)))"
proof -
  let ?F = "get_series_list W b h cid"
  let ?S = "\<lambda>series_data. save_series_data W series_data b h title"
  let ?ents = "\<lambda>d. map (item_entry W b) (filter (item_resolved W b)
                    (concat (map (series_items W b h title) (json_items d))))"
  let ?page = "\<lambda>p. map (item_entry W b) (filter (item_resolved W b)
                    (series_page_items W b h cid title p))"
  from run cid title have loop: "page_loop ?F ?S 1 0 [] = Some (t, Inr n)"
    by (simp add: fetch_and_save_series_def)
  have fw: "\<And>p. writes (fst (?F p)) = []"
    by (simp add: get_series_list_events)
  have sv: "\<And>d t c. ?S d = (t, Inr c) \<Longrightarrow> writes t = ?ents d \<and> c = int (length (?ents d))"
    using save_series_data_returns [of W _ b h title] by simp
  have data: "\<And>p d. snd (?F p) = Inr d \<Longrightarrow> ?ents d = ?page p"
    by (simp add: series_page_items_def)
  from page_loop_entries [of ?F ?S 1 0 "[]" t n ?ents ?page, OF loop fw sv data]
  obtain m where "1 \<le> m" "fetch_ends ?F m" "\<forall>p. 1 \<le> p \<and> p < m \<longrightarrow> \<not> fetch_ends ?F p"
    and w: "writes t = concat (map ?page [1..<m])"
    and c: "n = int (length (concat (map ?page [1..<m])))"
    by auto
  moreover have "concat (map ?page ps)
                 = map (item_entry W b)
                     (filter (item_resolved W b)
                        (concat (map (series_page_items W b h cid title) ps)))" for ps
    by (induction ps) simp_all
  ultimately show ?thesis
    by (auto simp: series_items_before_def simp del: One_nat_def)
qed

lemma fetch_and_save_series_written:
  assumes cid: "getitem category ''id'' = Inr cid"
    and title: "getitem category ''title'' = Inr title"
    and run: "fetch_and_save_series W b h category = Some (t, r)"
    and s: "s \<in> set (writes t)"
  shows "\<exists>p x. 1 \<le> p \<and> x \<in> set (series_page_items W b h cid title p)
               \<and> item_resolved W b x \<and> s = item_entry W b x"
proof -
  let ?F = "get_series_list W b h cid"
  let ?S = "\<lambda>series_data. save_series_data W series_data b h title"
  from run cid title have loop: "page_loop ?F ?S 1 0 [] = Some (t, r)"
    by (simp add: fetch_and_save_series_def)
  have fw: "\<And>p. writes (fst (?F p)) = []"
    by (simp add: get_series_list_events)
  from page_loop_written [of ?F ?S 1 0 "[]" t r s, OF loop fw s]
  obtain p d where p: "1 \<le> p" and d: "snd (?F p) = Inr d"
    and sd: "s \<in> set (writes (fst (save_series_data W d b h title)))"
    by auto
  from save_series_data_written [OF sd] d
  have "\<exists>x \<in> set (series_page_items W b h cid title p). item_resolved W b x \<and> s = item_entry W b x"
    by (simp add: series_page_items_def)
  with p show ?thesis
    by blast
qed

text \<open>
  Claim C7. The entries a category's crawl writes are the entries of the items whose link
  was resolved. When \<open>fetch_and_save_vods\<close> returns a count for a category, the crawl has
  met a first page \<open>m\<close> whose fetch returned nothing usable; the texts it wrote are, in
  order, the entries of exactly those items of the pages before \<open>m\<close> for which
  \<open>fetch_play_link\<close> returned a non-empty URL, and the count is their number. Whatever the
  outcome of the crawl, every text written is the entry of such an item of some page, so
  an item without a link is never written. The same holds for \<open>fetch_and_save_series\<close>,
  whose items are the episodes of the seasons of the series of the pages
  (\<open>save_series_data\<close>). The statements for one page of movies and for the episodes of one
  season follow, and the count of a category is the number of texts written.
\<close>

theorem written_entries_are_resolved_items:
  "(\<forall>t n. getitem category ''id'' = Inr cid \<and> getitem category ''title'' = Inr title
        \<and> cid \<noteq> JStr ''*'' \<and> fetch_and_save_vods W base_url hdrs category = Some (t, Inr n) \<longrightarrow>
      (\<exists>m. 1 \<le> m \<and> fetch_ends (get_vod_list W base_url hdrs cid) m
         \<and> (\<forall>p. 1 \<le> p \<and> p < m \<longrightarrow> \<not> fetch_ends (get_vod_list W base_url hdrs cid) p)
         \<and> writes t = map (vod_entry W base_url title)
                        (filter (vod_resolved W base_url) (vod_items_before W base_url hdrs cid m))
         \<and> n = int (length (filter (vod_resolved W base_url)
                               (vod_items_before W base_url hdrs cid m)))))
   \<and> (\<forall>t r s. getitem category ''id'' = Inr cid \<and> getitem category ''title'' = Inr title
        \<and> fetch_and_save_vods W base_url hdrs category = Some (t, r) \<and> s \<in> set (writes t) \<longrightarrow>
      (\<exists>p vod. 1 \<le> p \<and> vod \<in> set (vod_page_items W base_url hdrs cid p)
         \<and> vod_resolved W base_url vod \<and> s = vod_entry W base_url title vod))
   \<and> (\<forall>t n. getitem category ''id'' = Inr cid \<and> getitem category ''title'' = Inr title
        \<and> fetch_and_save_series W base_url hdrs category = Some (t, Inr n) \<longrightarrow>
      (\<exists>m. 1 \<le> m \<and> fetch_ends (get_series_list W base_url hdrs cid) m
         \<and> (\<forall>p. 1 \<le> p \<and> p < m \<longrightarrow> \<not> fetch_ends (get_series_list W base_url hdrs cid) p)
         \<and> writes t = map (item_entry W base_url)
                        (filter (item_resolved W base_url)
                           (series_items_before W base_url hdrs cid title m))
         \<and> n = int (length (filter (item_resolved W base_url)
                               (series_items_before W base_url hdrs cid title m)))))
   \<and> (\<forall>t r s. getitem category ''id'' = Inr cid \<and> getitem category ''title'' = Inr title
        \<and> fetch_and_save_series W base_url hdrs category = Some (t, r) \<and> s \<in> set (writes t) \<longrightarrow>
      (\<exists>p x. 1 \<le> p \<and> x \<in> set (series_page_items W base_url hdrs cid title p)
         \<and> item_resolved W base_url x \<and> s = item_entry W base_url x))
   \<and> (\<forall>n. snd (save_vod_list W vod_data base_url title) = Inr n \<longrightarrow>
      (\<exists>vods. iterate vod_data = Inr vods
         \<and> n = int (length (filter (vod_resolved W base_url) vods))
         \<and> writes (fst (save_vod_list W vod_data base_url title))
             = map (vod_entry W base_url title) (filter (vod_resolved W base_url) vods)))
   \<and> (\<forall>s. s \<in> set (writes (fst (save_vod_list W vod_data base_url title))) \<longrightarrow>
      (\<exists>vods vod. iterate vod_data = Inr vods \<and> vod \<in> set vods
         \<and> vod_resolved W base_url vod \<and> s = vod_entry W base_url title vod))
   \<and> (\<forall>t n. fetch_and_save_vods W base_url hdrs category = Some (t, Inr n) \<longrightarrow>
      n = int (length (writes t)))
   \<and> (\<forall>t n. save_episodes W base_url C eps c = (t, Inr n) \<longrightarrow>
      n = c + int (length (filter (episode_resolved W base_url C) eps))
      \<and> writes t = map (episode_entry W base_url C) (filter (episode_resolved W base_url C) eps))
   \<and> (\<forall>s. s \<in> set (writes (fst (save_episodes W base_url C eps c))) \<longrightarrow>
      (\<exists>ep \<in> set eps. episode_resolved W base_url C ep \<and> s = episode_entry W base_url C ep))
   \<and> (\<forall>t n. save_series_data W series_data base_url hdrs title = (t, Inr n) \<longrightarrow>
      writes t = map (item_entry W base_url) (filter (item_resolved W base_url)
                   (concat (map (series_items W base_url hdrs title) (json_items series_data))))
      \<and> n = int (length (filter (item_resolved W base_url)
                   (concat (map (series_items W base_url hdrs title) (json_items series_data))))))
   \<and> (\<forall>t n. fetch_and_save_series W base_url hdrs category = Some (t, Inr n) \<longrightarrow>
      n = int (length (writes t)))"
proof -
  have page: "\<exists>vods. iterate vod_data = Inr vods
         \<and> n = int (length (filter (vod_resolved W base_url) vods))
         \<and> writes (fst (save_vod_list W vod_data base_url title))
             = map (vod_entry W base_url title) (filter (vod_resolved W base_url) vods)"
    if a: "snd (save_vod_list W vod_data base_url title) = Inr n" for n
  proof -
    from a obtain vods where it: "iterate vod_data = Inr vods"
      by (cases "iterate vod_data") (auto simp: save_vod_list_def io_simps)
    from a have "save_vod_list W vod_data base_url title
                 = (fst (save_vod_list W vod_data base_url title), Inr n)"
      by (simp add: prod_eq_iff)
    from save_vod_list_returns [OF this] it show ?thesis
      by (simp add: json_items_def)
  qed
  have page_written: "\<exists>vods vod. iterate vod_data = Inr vods \<and> vod \<in> set vods
         \<and> vod_resolved W base_url vod \<and> s = vod_entry W base_url title vod"
    if a: "s \<in> set (writes (fst (save_vod_list W vod_data base_url title)))" for s
  proof -
    from a obtain vods where it: "iterate vod_data = Inr vods"
      by (cases "iterate vod_data") (auto simp: save_vod_list_def io_simps)
    with save_vod_list_written [OF a] show ?thesis
      by (auto simp: json_items_def)
  qed
  note vods = fetch_and_save_vods_entries [of category cid title W base_url hdrs]
  note vods_written = fetch_and_save_vods_written [of category cid title W base_url hdrs]
  note sers = fetch_and_save_series_entries [of category cid title W base_url hdrs]
  note sers_written = fetch_and_save_series_written [of category cid title W base_url hdrs]
  note eps = save_episodes_returns [of W base_url C eps c]
  note eps_written = save_episodes_written [of _ W base_url C eps c]
  note data = save_series_data_returns [of W series_data base_url hdrs title]
  note vcount = fetch_and_save_vods_count [of W base_url hdrs category]
  note scount = fetch_and_save_series_count [of W base_url hdrs category]
  show ?thesis
  proof (intro conjI allI impI)
    fix t n
    assume "getitem category ''id'' = Inr cid \<and> getitem category ''title'' = Inr title
        \<and> cid \<noteq> JStr ''*'' \<and> fetch_and_save_vods W base_url hdrs category = Some (t, Inr n)"
    then show "\<exists>m. 1 \<le> m \<and> fetch_ends (get_vod_list W base_url hdrs cid) m
         \<and> (\<forall>p. 1 \<le> p \<and> p < m \<longrightarrow> \<not> fetch_ends (get_vod_list W base_url hdrs cid) p)
         \<and> writes t = map (vod_entry W base_url title)
                        (filter (vod_resolved W base_url) (vod_items_before W base_url hdrs cid m))
         \<and> n = int (length (filter (vod_resolved W base_url)
                               (vod_items_before W base_url hdrs cid m)))"
      using vods by blast
  next
    fix t r s
    assume "getitem category ''id'' = Inr cid \<and> getitem category ''title'' = Inr title
        \<and> fetch_and_save_vods W base_url hdrs category = Some (t, r) \<and> s \<in> set (writes t)"
    then show "\<exists>p vod. 1 \<le> p \<and> vod \<in> set (vod_page_items W base_url hdrs cid p)
         \<and> vod_resolved W base_url vod \<and> s = vod_entry W base_url title vod"
      using vods_written by blast
  next
    fix t n
    assume "getitem category ''id'' = Inr cid \<and> getitem category ''title'' = Inr title
        \<and> fetch_and_save_series W base_url hdrs category = Some (t, Inr n)"
    then show "\<exists>m. 1 \<le> m \<and> fetch_ends (get_series_list W base_url hdrs cid) m
         \<and> (\<forall>p. 1 \<le> p \<and> p < m \<longrightarrow> \<not> fetch_ends (get_series_list W base_url hdrs cid) p)
         \<and> writes t = map (item_entry W base_url)
                        (filter (item_resolved W base_url)
                           (series_items_before W base_url hdrs cid title m))
         \<and> n = int (length (filter (item_resolved W base_url)
                               (series_items_before W base_url hdrs cid title m)))"
      using sers by blast
  next
    fix t r s
    assume "getitem category ''id'' = Inr cid \<and> getitem category ''title'' = Inr title
        \<and> fetch_and_save_series W base_url hdrs category = Some (t, r) \<and> s \<in> set (writes t)"
    then show "\<exists>p x. 1 \<le> p \<and> x \<in> set (series_page_items W base_url hdrs cid title p)
         \<and> item_resolved W base_url x \<and> s = item_entry W base_url x"
      using sers_written by blast
  next
    fix n
    assume "snd (save_vod_list W vod_data base_url title) = Inr n"
    then show "\<exists>vods. iterate vod_data = Inr vods
         \<and> n = int (length (filter (vod_resolved W base_url) vods))
         \<and> writes (fst (save_vod_list W vod_data base_url title))
             = map (vod_entry W base_url title) (filter (vod_resolved W base_url) vods)"
      by (rule page)
  next
    fix s
    assume "s \<in> set (writes (fst (save_vod_list W vod_data base_url title)))"
    then show "\<exists>vods vod. iterate vod_data = Inr vods \<and> vod \<in> set vods
         \<and> vod_resolved W base_url vod \<and> s = vod_entry W base_url title vod"
      by (rule page_written)
  next
    fix t n
    assume "fetch_and_save_vods W base_url hdrs category = Some (t, Inr n)"
    then show "n = int (length (writes t))"
      by (rule vcount)
  next
    fix t n
    assume a: "save_episodes W base_url C eps c = (t, Inr n)"
    from eps [OF a]
    show "n = c + int (length (filter (episode_resolved W base_url C) eps))"
      and "writes t = map (episode_entry W base_url C) (filter (episode_resolved W base_url C) eps)"
      by simp_all
  next
    fix s
    assume "s \<in> set (writes (fst (save_episodes W base_url C eps c)))"
    then show "\<exists>ep \<in> set eps. episode_resolved W base_url C ep \<and> s = episode_entry W base_url C ep"
      by (rule eps_written)
  next
    fix t n
    assume a: "save_series_data W series_data base_url hdrs title = (t, Inr n)"
    from data [OF a]
    show "writes t = map (item_entry W base_url) (filter (item_resolved W base_url)
                   (concat (map (series_items W base_url hdrs title) (json_items series_data))))"
      and "n = int (length (filter (item_resolved W base_url)
                   (concat (map (series_items W base_url hdrs title) (json_items series_data)))))"
      by simp_all
  next
    fix t n
    assume "fetch_and_save_series W base_url hdrs category = Some (t, Inr n)"
    then show "n = int (length (writes t))"
      by (rule scount)
  qed
qed

lemma mixed_page1:
  "get_vod_list mixed_world ''http://portal:80'' [] (JStr ''7'') 1
   = ([Get (vod_list_rq ''http://portal:80'' [] ''7'' ''1'')], Inr (JArr [good_movie, lost_movie]))"
  by (simp add: get_vod_list_def vod_list_url_def vod_list_rq_def fmt_def dec.simps digit_char_def
      mixed_world_def world_of_def table_portal_def io_defs loads_def del: One_nat_def)

lemma mixed_page2:
  "get_vod_list mixed_world ''http://portal:80'' [] (JStr ''7'') 2
   = ([Get (vod_list_rq ''http://portal:80'' [] ''7'' ''2'')], Inr JNull)"
  by (simp add: get_vod_list_def vod_list_url_def vod_list_rq_def fmt_def dec.simps digit_char_def
      mixed_world_def world_of_def table_portal_def io_defs loads_def)

lemma mixed_good:
  "vod_item mixed_world ''http://portal:80'' good_movie
   = ([Get (create_link_rq ''http://portal:80'' ''good'')],
      Inr (JStr ''Good'', JStr [], Some ''http://cdn/good.mp4''))"
  by (simp add: vod_item_def good_movie_def fetch_play_link_def create_link_rq_def quote_plain
      prod_eq_iff io_simps mixed_world_def world_of_def table_portal_def loads_def
      second_token_def)

lemma mixed_lost:
  "vod_item mixed_world ''http://portal:80'' lost_movie
   = ([Get (create_link_rq ''http://portal:80'' ''lost'')], Inr (JStr ''Lost'', JStr [], None))"
proof -
  have q: "quote (JStr ''lost'') = Inr ''lost''"
    by (simp add: quote_def quote_str_def quote_char_def unreserved_def)
  show ?thesis
    by (simp add: vod_item_def lost_movie_def fetch_play_link_def create_link_rq_def q
        prod_eq_iff io_simps mixed_world_def world_of_def table_portal_def loads_def)
qed

lemma mixed_save:
  \<open>save_vod_list mixed_world (JArr [good_movie, lost_movie]) ''http://portal:80'' (JStr ''Movies'')
   = ([Get (create_link_rq ''http://portal:80'' ''good''),
       Write ''#EXTINF:-1 tvg-logo="" group-title="Movies",Good\<newline>http://cdn/good.mp4\<newline>'',
       Get (create_link_rq ''http://portal:80'' ''lost'')],
      Inr 1)\<close>
  by (simp add: save_vod_list_def mixed_good mixed_lost prod_eq_iff io_simps has_link_def
      vod_str_def fmt_def)

lemma mixed_category:
  "fetch_and_save_vods mixed_world ''http://portal:80'' [] movies_category
   = Some (mixed_trace, Inr 1)"
proof -
  let ?F = "get_vod_list mixed_world ''http://portal:80'' [] (JStr ''7'')"
  let ?S = "\<lambda>vod_data. save_vod_list mixed_world vod_data ''http://portal:80'' (JStr ''Movies'')"
  have good1: "page_good ?F ?S 1"
    by (simp add: page_good_def mixed_page1 mixed_save del: One_nat_def)
  have ends2: "fetch_ends ?F (Suc 1)"
    using mixed_page2 by (simp add: fetch_ends_def numeral_2_eq_2 del: One_nat_def)
  have "page_loop ?F ?S 1 0 []
        = Some (([] @ page_events ?F ?S 1) @ page_events ?F ?S (Suc 1),
                last_page ?F (0 + page_count ?F ?S 1) (Suc 1))"
    by (simp only: page_loop_next [OF good1] page_loop_last [OF ends2])
  moreover have "page_events ?F ?S (Suc 1) = [Get (vod_list_rq ''http://portal:80'' [] ''7'' ''2'')]"
    using mixed_page2 by (simp add: page_events_def numeral_2_eq_2 del: One_nat_def)
  moreover have "last_page ?F (0 + page_count ?F ?S 1) (Suc 1) = Inr 1"
    using mixed_page2
    by (simp add: last_page_def page_count_def mixed_page1 mixed_save numeral_2_eq_2
        del: One_nat_def)
  ultimately show ?thesis
    by (simp add: fetch_and_save_vods_def movies_category_def page_events_def mixed_page1
        mixed_save mixed_trace_def del: One_nat_def)
qed

lemma mixed_items:
  "vod_items_before mixed_world ''http://portal:80'' [] (JStr ''7'') 2 = [good_movie, lost_movie]"
proof -
  have "[1..<2] = [1::nat]"
    by (simp add: upt_conv_Cons)
  then show ?thesis
    by (simp add: vod_items_before_def vod_page_items_def mixed_page1 json_items_def
        del: One_nat_def upt_Suc)
qed

lemma mixed_resolved:
  "filter (vod_resolved mixed_world ''http://portal:80'') [good_movie, lost_movie] = [good_movie]"
  by (simp add: vod_resolved_def mixed_good mixed_lost has_link_def)

lemma first_end_unique:
  assumes "fetch_ends F m" "\<forall>p. 1 \<le> p \<and> p < m \<longrightarrow> \<not> fetch_ends F p" "1 \<le> m"
    and "\<not> fetch_ends F 1" "fetch_ends F 2"
  shows "m = 2"
proof -
  from assms(1,4) have "m \<noteq> 1" by auto
  moreover from assms(2,5) have "\<not> 2 < m" by auto
  ultimately show ?thesis using assms(3) by simp
qed

lemma series_world_parts:
  "py_int series_world ''1'' = Some 1"
  "b64_json series_world s n = show_cmd"
  "fmt series_world (JStr x) = x"
  "fmt series_world (JNum 1) = ''1''"
  "fmt series_world (JNum 2) = ''2''"
  by (simp_all add: series_world_def fmt_def str_int_def dec.simps digit_char_def)

lemma quote_show_cmd:
  "quote_str show_cmd
   = ''eyJzZXJpZXNfaWQiOiAiNSIsICJzZWFzb25fbnVtIjogMSwgInR5cGUiOiAic2VyaWVzIn0%3D''"
  by (simp add: show_cmd_def quote_str_def quote_char_def unreserved_def hex_digit_def)

lemma series_page1:
  "get_series_list series_world ''http://portal:80'' [] (JStr ''9'') 1
   = ([Get (series_list_rq ''http://portal:80'' [] ''9'' ''1'')], Inr (JArr [show_series]))"
  by (simp add: get_series_list_def series_list_url_def series_list_rq_def fmt_def dec.simps
      digit_char_def series_world_def table_portal_def io_defs loads_def del: One_nat_def)

lemma series_page2:
  "get_series_list series_world ''http://portal:80'' [] (JStr ''9'') 2
   = ([Get (series_list_rq ''http://portal:80'' [] ''9'' ''2'')], Inr JNull)"
  by (simp add: get_series_list_def series_list_url_def series_list_rq_def fmt_def dec.simps
      digit_char_def series_world_def table_portal_def io_defs loads_def)

lemma show_head:
  "series_head series_world ''http://portal:80'' [] show_series
   = ([Get (seasons_rq ''http://portal:80'' [] ''5'' ''9'')],
      Inr (JStr ''Show'', ''5'', JArr [show_season]))"
proof -
  have q: "quote_str ''5'' = ''5''"
    by (simp add: quote_str_def quote_char_def unreserved_def)
  have s: "before_colon (JStr ''5:5'') = Inr ''5''"
    by (simp add: before_colon_def)
  have "get_seasons_episodes series_world ''http://portal:80'' [] ''5'' (JStr ''9'')
        = ([Get (seasons_rq ''http://portal:80'' [] ''5'' ''9'')], Inr (JArr [show_season]))"
    by (simp add: get_seasons_episodes_def seasons_rq_def q fmt_def series_world_def
        table_portal_def io_defs loads_def)
  then show ?thesis
    by (simp add: series_head_def show_series_def s io_simps prod_eq_iff)
qed

lemma show_season_head: "season_head show_season = Inr (''1'', 2, [JNum 1, JNum 2])"
  by (simp add: season_head_def show_season_def after_colon_def)

lemma show_episode1:
  "episode_link series_world ''http://portal:80'' show_ctx (JNum 1)
   = ([Get (episode_rq ''http://portal:80''
              ''eyJzZXJpZXNfaWQiOiAiNSIsICJzZWFzb25fbnVtIjogMSwgInR5cGUiOiAic2VyaWVzIn0%3D'' ''1'')],
      Inr (1, Some ''http://cdn/s1e1.mp4''))"
proof -
  have "show_fetch_play_link series_world ''http://portal:80'' show_cmd (JNum 1)
        = ([Get (episode_rq ''http://portal:80''
              ''eyJzZXJpZXNfaWQiOiAiNSIsICJzZWFzb25fbnVtIjogMSwgInR5cGUiOiAic2VyaWVzIn0%3D'' ''1'')],
           Inr (Some ''http://cdn/s1e1.mp4''))"
    by (simp add: show_fetch_play_link_def episode_rq_def quote_show_cmd series_world_parts)
       (simp add: series_world_def table_portal_def io_defs loads_def second_token_def)
  then show ?thesis
    by (simp add: episode_link_def show_ctx_def series_world_parts io_simps prod_eq_iff)
qed

lemma show_episode2:
  "episode_link series_world ''http://portal:80'' show_ctx (JNum 2)
   = ([Get (episode_rq ''http://portal:80''
              ''eyJzZXJpZXNfaWQiOiAiNSIsICJzZWFzb25fbnVtIjogMSwgInR5cGUiOiAic2VyaWVzIn0%3D'' ''2'')],
      Inr (1, None))"
proof -
  have "show_fetch_play_link series_world ''http://portal:80'' show_cmd (JNum 2)
        = ([Get (episode_rq ''http://portal:80''
              ''eyJzZXJpZXNfaWQiOiAiNSIsICJzZWFzb25fbnVtIjogMSwgInR5cGUiOiAic2VyaWVzIn0%3D'' ''2'')],
           Inr None)"
    by (simp add: show_fetch_play_link_def episode_rq_def quote_show_cmd series_world_parts)
       (simp add: series_world_def table_portal_def io_defs loads_def)
  then show ?thesis
    by (simp add: episode_link_def show_ctx_def series_world_parts io_simps prod_eq_iff)
qed

lemma show_text:
  "episode_text series_world show_ctx (JNum 1) 1 ''http://cdn/s1e1.mp4'' = Inr show_entry"
  by (simp add: episode_text_def format_episode_number_def zero_pad_def str_int_def dec.simps
      digit_char_def show_ctx_def show_series_def episode_str_def series_world_parts
      show_entry_def)

lemma show_episodes:
  "save_episodes series_world ''http://portal:80'' show_ctx [JNum 1, JNum 2] 0
   = (drop 2 (butlast series_trace), Inr 1)"
  by (simp add: show_episode1 show_episode2 show_text has_link_def series_trace_def)

lemma show_seasons:
  "save_seasons series_world ''http://portal:80'' show_series (JStr ''Show'') ''5'' (JStr ''Shows'')
     [show_season] 0
   = (drop 2 (butlast series_trace), Inr 1)"
  using show_episodes by (simp add: show_season_head show_ctx_def)

lemma show_page:
  "save_series_data series_world (JArr [show_series]) ''http://portal:80'' [] (JStr ''Shows'')
   = ([Get (seasons_rq ''http://portal:80'' [] ''5'' ''9''),
       Get (episode_rq ''http://portal:80''
              ''eyJzZXJpZXNfaWQiOiAiNSIsICJzZWFzb25fbnVtIjogMSwgInR5cGUiOiAic2VyaWVzIn0%3D'' ''1''),
       Write show_entry,
       Get (episode_rq ''http://portal:80''
              ''eyJzZXJpZXNfaWQiOiAiNSIsICJzZWFzb25fbnVtIjogMSwgInR5cGUiOiAic2VyaWVzIn0%3D'' ''2'')], Inr 1)"
  by (simp add: save_series_data_def io_simps prod_eq_iff show_head show_seasons series_trace_def
      del: save_seasons.simps)

lemma shows_run:
  "fetch_and_save_series series_world ''http://portal:80'' [] shows_category
   = Some (series_trace, Inr 1)"
proof -
  let ?F = "get_series_list series_world ''http://portal:80'' [] (JStr ''9'')"
  let ?S = "\<lambda>series_data. save_series_data series_world series_data ''http://portal:80'' []
                            (JStr ''Shows'')"
  have good1: "page_good ?F ?S 1"
    by (simp add: page_good_def series_page1 show_page del: One_nat_def)
  have ends2: "fetch_ends ?F (Suc 1)"
    using series_page2 by (simp add: fetch_ends_def numeral_2_eq_2 del: One_nat_def)
  have "page_loop ?F ?S 1 0 []
        = Some (([] @ page_events ?F ?S 1) @ page_events ?F ?S (Suc 1),
                last_page ?F (0 + page_count ?F ?S 1) (Suc 1))"
    by (simp only: page_loop_next [OF good1] page_loop_last [OF ends2])
  moreover have "page_events ?F ?S (Suc 1) = [Get (series_list_rq ''http://portal:80'' [] ''9'' ''2'')]"
    using series_page2 by (simp add: page_events_def numeral_2_eq_2 del: One_nat_def)
  moreover have "page_events ?F ?S 1 = butlast series_trace"
    by (simp add: page_events_def series_page1 show_page series_trace_def del: One_nat_def)
  moreover have "last_page ?F (0 + page_count ?F ?S 1) (Suc 1) = Inr 1"
    using series_page2
    by (simp add: last_page_def page_count_def series_page1 show_page numeral_2_eq_2
        del: One_nat_def)
  ultimately show ?thesis
    by (simp add: fetch_and_save_series_def shows_category_def del: One_nat_def)
       (simp add: series_trace_def)
qed

lemma shows_items:
  "series_items_before series_world ''http://portal:80'' [] (JStr ''9'') (JStr ''Shows'') 2
   = [(show_ctx, JNum 1), (show_ctx, JNum 2)]"
proof -
  have "[1..<2] = [1::nat]"
    by (simp add: upt_conv_Cons)
  moreover have "series_items series_world ''http://portal:80'' [] (JStr ''Shows'') show_series
                 = [(show_ctx, JNum 1), (show_ctx, JNum 2)]"
    by (simp add: series_items_def show_head json_items_def season_items_def show_season_head
        show_ctx_def)
  ultimately show ?thesis
    by (simp add: series_items_before_def series_page_items_def series_page1 json_items_def
        del: One_nat_def upt_Suc)
qed

lemma shows_resolved:
  "filter (item_resolved series_world ''http://portal:80'') [(show_ctx, JNum 1), (show_ctx, JNum 2)]
   = [(show_ctx, JNum 1)]"
  by (simp add: item_resolved_def episode_resolved_def show_episode1 show_episode2 has_link_def)

lemma shows_entry: "item_entry series_world ''http://portal:80'' (show_ctx, JNum 1) = show_entry"
  by (simp add: item_entry_def episode_entry_def show_episode1 show_text)

theorem written_entries_are_resolved_items_witness:
  \<open>fetch_and_save_vods mixed_world ''http://portal:80'' [] movies_category
     = Some (mixed_trace, Inr 1)
   \<and> vod_items_before mixed_world ''http://portal:80'' [] (JStr ''7'') 2 = [good_movie, lost_movie]
   \<and> filter (vod_resolved mixed_world ''http://portal:80'') [good_movie, lost_movie] = [good_movie]
   \<and> writes mixed_trace
       = map (vod_entry mixed_world ''http://portal:80'' (JStr ''Movies''))
           (filter (vod_resolved mixed_world ''http://portal:80'')
              (vod_items_before mixed_world ''http://portal:80'' [] (JStr ''7'') 2))
   \<and> writes mixed_trace
       = [''#EXTINF:-1 tvg-logo="" group-title="Movies",Good\<newline>http://cdn/good.mp4\<newline>'']
   \<and> fetch_and_save_series series_world ''http://portal:80'' [] shows_category
       = Some (series_trace, Inr 1)
   \<and> series_items_before series_world ''http://portal:80'' [] (JStr ''9'') (JStr ''Shows'') 2
       = [(show_ctx, JNum 1), (show_ctx, JNum 2)]
   \<and> filter (item_resolved series_world ''http://portal:80'')
        [(show_ctx, JNum 1), (show_ctx, JNum 2)] = [(show_ctx, JNum 1)]
   \<and> writes series_trace
       = map (item_entry series_world ''http://portal:80'')
           (filter (item_resolved series_world ''http://portal:80'')
              (series_items_before series_world ''http://portal:80'' [] (JStr ''9'')
                 (JStr ''Shows'') 2))
   \<and> writes series_trace = [show_entry]\<close>
proof -
  let ?b = "''http://portal:80''"
  let ?F = "get_vod_list mixed_world ?b [] (JStr ''7'')"
  let ?G = "get_series_list series_world ?b [] (JStr ''9'')"
  have mc: "getitem movies_category ''id'' = Inr (JStr ''7'')
            \<and> getitem movies_category ''title'' = Inr (JStr ''Movies'')
            \<and> JStr ''7'' \<noteq> JStr ''*''
            \<and> fetch_and_save_vods mixed_world ?b [] movies_category = Some (mixed_trace, Inr 1)"
    using mixed_category by (simp add: movies_category_def)
  have sc: "getitem shows_category ''id'' = Inr (JStr ''9'')
            \<and> getitem shows_category ''title'' = Inr (JStr ''Shows'')
            \<and> fetch_and_save_series series_world ?b [] shows_category = Some (series_trace, Inr 1)"
    using shows_run by (simp add: shows_category_def)
  have mends: "\<not> fetch_ends ?F 1" "fetch_ends ?F 2"
    by (simp_all add: fetch_ends_def mixed_page1 mixed_page2 del: One_nat_def)
  have sends: "\<not> fetch_ends ?G 1" "fetch_ends ?G 2"
    by (simp_all add: fetch_ends_def series_page1 series_page2 del: One_nat_def)
  from written_entries_are_resolved_items
    [where W = mixed_world and base_url = ?b and hdrs = "[]" and category = movies_category
       and cid = "JStr ''7''" and title = "JStr ''Movies''",
     THEN conjunct1, rule_format, OF mc]
  obtain m where m: "1 \<le> m" "fetch_ends ?F m" "\<forall>p. 1 \<le> p \<and> p < m \<longrightarrow> \<not> fetch_ends ?F p"
    and mw: "writes mixed_trace
             = map (vod_entry mixed_world ?b (JStr ''Movies''))
                 (filter (vod_resolved mixed_world ?b)
                    (vod_items_before mixed_world ?b [] (JStr ''7'') m))"
    by blast
  from first_end_unique [OF m(2,3,1) mends] have m2: "m = 2" .
  from written_entries_are_resolved_items
    [where W = series_world and base_url = ?b and hdrs = "[]" and category = shows_category
       and cid = "JStr ''9''" and title = "JStr ''Shows''",
     THEN conjunct2, THEN conjunct2, THEN conjunct1, rule_format, OF sc]
  obtain k where k: "1 \<le> k" "fetch_ends ?G k" "\<forall>p. 1 \<le> p \<and> p < k \<longrightarrow> \<not> fetch_ends ?G p"
    and sw: "writes series_trace
             = map (item_entry series_world ?b)
                 (filter (item_resolved series_world ?b)
                    (series_items_before series_world ?b [] (JStr ''9'') (JStr ''Shows'') k))"
    by blast
  from first_end_unique [OF k(2,3,1) sends] have k2: "k = 2" .
  have w1: \<open>writes mixed_trace
       = [''#EXTINF:-1 tvg-logo="" group-title="Movies",Good\<newline>http://cdn/good.mp4\<newline>'']\<close>
    by (simp add: mixed_trace_def)
  have w2: "writes series_trace = [show_entry]"
    by (simp add: series_trace_def)
  from mc mixed_items mixed_resolved mw m2 w1 sc shows_items shows_resolved sw k2 w2
  show ?thesis
    by simp
qed

end
